theory Spec2Isabelle
  imports Main
begin

section \<open>Text\<close>

text \<open>
  The scripts work on JavaScript strings.  A text is modelled as a \<^typ>\<open>string\<close>: the bytes
  of its UTF-8 encoding.  The characters the scripts search for (the braces) and the
  JSON syntax are ASCII, and an ASCII byte never occurs inside a multi-byte UTF-8
  sequence, so searching and slicing the bytes finds the same slice of the text as the
  script does on UTF-16 code units; the indices are byte offsets.
\<close>

definition dquote :: char where
  "dquote = CHR 0x22"

definition backslash :: char where
  "backslash = CHR 0x5C"

text \<open>\<^verbatim>\<open>text.indexOf(c)\<close>: the index of the first occurrence, or -1.\<close>

fun indexOf :: "string \<Rightarrow> char \<Rightarrow> int" where
  "indexOf [] c = -1"
| "indexOf (x # xs) c =
     (if x = c then 0
      else (let i = indexOf xs c in if i = -1 then -1 else i + 1))"

text \<open>\<^verbatim>\<open>text.lastIndexOf(c)\<close>: the index of the last occurrence, or -1.\<close>

fun lastIndexOf :: "string \<Rightarrow> char \<Rightarrow> int" where
  "lastIndexOf [] c = -1"
| "lastIndexOf (x # xs) c =
     (let i = lastIndexOf xs c in
      if i \<noteq> -1 then i + 1 else if x = c then 0 else -1)"

text \<open>
  \<^verbatim>\<open>text.substring(a, b)\<close>: both indices are clamped to the text, and swapped when
  the first is the larger.
\<close>

definition clamp_index :: "string \<Rightarrow> int \<Rightarrow> nat" where
  "clamp_index s i = (if i < 0 then 0 else min (nat i) (length s))"

definition substring :: "string \<Rightarrow> int \<Rightarrow> int \<Rightarrow> string" where
  "substring s a b =
     (let i = clamp_index s a; j = clamp_index s b
      in take (max i j - min i j) (drop (min i j) s))"

text \<open>
  The white space of ECMAScript (WhiteSpace and LineTerminator), which
  \<^verbatim>\<open>trim()\<close> strips and the regular expression class \<^verbatim>\<open>\s\<close> matches, each as its UTF-8
  bytes: TAB, LF, VT, FF, CR, SP, U+00A0, U+1680, U+2000 to U+200A, U+2028, U+2029,
  U+202F, U+205F, U+3000 and U+FEFF.
\<close>

definition js_whitespace :: "string list" where
  "js_whitespace =
     [[CHR 0x09], [CHR 0x0A], [CHR 0x0B], [CHR 0x0C], [CHR 0x0D], [CHR 0x20],
      [CHR 0xC2, CHR 0xA0],
      [CHR 0xE1, CHR 0x9A, CHR 0x80],
      [CHR 0xE2, CHR 0x80, CHR 0x80], [CHR 0xE2, CHR 0x80, CHR 0x81],
      [CHR 0xE2, CHR 0x80, CHR 0x82], [CHR 0xE2, CHR 0x80, CHR 0x83],
      [CHR 0xE2, CHR 0x80, CHR 0x84], [CHR 0xE2, CHR 0x80, CHR 0x85],
      [CHR 0xE2, CHR 0x80, CHR 0x86], [CHR 0xE2, CHR 0x80, CHR 0x87],
      [CHR 0xE2, CHR 0x80, CHR 0x88], [CHR 0xE2, CHR 0x80, CHR 0x89],
      [CHR 0xE2, CHR 0x80, CHR 0x8A],
      [CHR 0xE2, CHR 0x80, CHR 0xA8], [CHR 0xE2, CHR 0x80, CHR 0xA9],
      [CHR 0xE2, CHR 0x80, CHR 0xAF],
      [CHR 0xE2, CHR 0x81, CHR 0x9F],
      [CHR 0xE3, CHR 0x80, CHR 0x80],
      [CHR 0xEF, CHR 0xBB, CHR 0xBF]]"

text \<open>
  The text after the white-space character it starts with; \<open>None\<close> when it starts with
  none.
\<close>

fun strip_prefix :: "string \<Rightarrow> string \<Rightarrow> string option" where
  "strip_prefix [] s = Some s"
| "strip_prefix (w # ws) [] = None"
| "strip_prefix (w # ws) (c # cs) = (if w = c then strip_prefix ws cs else None)"

fun first_match :: "string list \<Rightarrow> string \<Rightarrow> string option" where
  "first_match [] s = None"
| "first_match (w # ws) s =
     (case strip_prefix w s of Some r \<Rightarrow> Some r | None \<Rightarrow> first_match ws s)"

definition drop_ws :: "string \<Rightarrow> string option" where
  "drop_ws s = first_match js_whitespace s"

lemma strip_prefix_length:
  "strip_prefix w s = Some r \<Longrightarrow> length r + length w = length s"
  by (induction w s rule: strip_prefix.induct) (auto split: if_splits)

lemma first_match_length:
  "first_match ws s = Some r \<Longrightarrow> \<forall>w \<in> set ws. w \<noteq> [] \<Longrightarrow> length r < length s"
proof (induction ws)
  case Nil
  then show ?case by simp
next
  case (Cons w ws)
  show ?case
  proof (cases "strip_prefix w s")
    case None
    with Cons show ?thesis by simp
  next
    case (Some r')
    with Cons.prems have "r' = r" and "w \<noteq> []" by simp_all
    with Some strip_prefix_length [of w s r] show ?thesis
      by (cases w) simp_all
  qed
qed

lemma drop_ws_length: "drop_ws s = Some r \<Longrightarrow> length r < length s"
  unfolding drop_ws_def by (erule first_match_length) (simp add: js_whitespace_def)

function trimStart :: "string \<Rightarrow> string" where
  "trimStart s = (case drop_ws s of Some r \<Rightarrow> trimStart r | None \<Rightarrow> s)"
  by pat_completeness auto
termination
  by (relation "measure length") (auto dest: drop_ws_length)

declare trimStart.simps [simp del]

text \<open>
  Stripping at the end reads the text backwards, against the reversed byte sequences
  (UTF-8 is self-synchronising: bytes that end a text and spell a white-space character
  are that character).
\<close>

definition drop_ws_end :: "string \<Rightarrow> string option" where
  "drop_ws_end s = first_match (map rev js_whitespace) s"

lemma drop_ws_end_length: "drop_ws_end s = Some r \<Longrightarrow> length r < length s"
  unfolding drop_ws_end_def by (erule first_match_length) (simp add: js_whitespace_def)

function trimStart_rev :: "string \<Rightarrow> string" where
  "trimStart_rev s = (case drop_ws_end s of Some r \<Rightarrow> trimStart_rev r | None \<Rightarrow> s)"
  by pat_completeness auto
termination
  by (relation "measure length") (auto dest: drop_ws_end_length)

declare trimStart_rev.simps [simp del]

definition trim :: "string \<Rightarrow> string" where
  "trim s = rev (trimStart_rev (rev (trimStart s)))"

section \<open>JSON values and \<^verbatim>\<open>JSON.parse\<close>\<close>

text \<open>
  A parsed JSON value.  A number keeps its literal as written: floating point is not
  modelled, and no schema of the scripts admits a number.  An object lists its
  properties in the order of their creation.
\<close>

datatype json =
    JNull
  | JBool bool
  | JNumber string
  | JString string
  | JArray "json list"
  | JObject "(string \<times> json) list"

text \<open>
  \<^verbatim>\<open>JSON.parse\<close> is the runtime's parser, not code of the repository: it is modelled
  after the JSON grammar of ECMA-404 as ECMAScript's \<^verbatim>\<open>JSON.parse\<close> reads it.  White space
  is space, tab, line feed and carriage return; a string holds no raw control
  character; a number has no leading zero and no bare sign, point or exponent; only
  white space may follow the value.  A repeated property name keeps its first
  position and its last value.  \<open>None\<close> is the thrown \<^verbatim>\<open>SyntaxError\<close>.
\<close>

definition is_json_ws :: "char \<Rightarrow> bool" where
  "is_json_ws c = (c = CHR 0x20 \<or> c = CHR 0x09 \<or> c = CHR 0x0A \<or> c = CHR 0x0D)"

definition skip_ws :: "string \<Rightarrow> string" where
  "skip_ws s = dropWhile is_json_ws s"

definition is_digit :: "char \<Rightarrow> bool" where
  "is_digit c = (let n = (of_char c :: nat) in 48 \<le> n \<and> n \<le> 57)"

definition hex_digit :: "char \<Rightarrow> nat option" where
  "hex_digit c =
     (let n = (of_char c :: nat) in
      if 48 \<le> n \<and> n \<le> 57 then Some (n - 48)
      else if 65 \<le> n \<and> n \<le> 70 then Some (n - 55)
      else if 97 \<le> n \<and> n \<le> 102 then Some (n - 87)
      else None)"

definition hex4 :: "char \<Rightarrow> char \<Rightarrow> char \<Rightarrow> char \<Rightarrow> nat option" where
  "hex4 a b c d =
     (case (hex_digit a, hex_digit b, hex_digit c, hex_digit d) of
        (Some w, Some x, Some y, Some z) \<Rightarrow> Some (((w * 16 + x) * 16 + y) * 16 + z)
      | _ \<Rightarrow> None)"

text \<open>The character a one-letter escape stands for.\<close>

definition simple_escape :: "char \<Rightarrow> char option" where
  "simple_escape e =
     (if e = dquote then Some dquote
      else if e = backslash then Some backslash
      else if e = CHR ''/'' then Some CHR ''/''
      else if e = CHR ''b'' then Some (CHR 0x08)
      else if e = CHR ''f'' then Some (CHR 0x0C)
      else if e = CHR ''n'' then Some (CHR 0x0A)
      else if e = CHR ''r'' then Some (CHR 0x0D)
      else if e = CHR ''t'' then Some (CHR 0x09)
      else None)"

text \<open>
  The content of a string literal, read after its opening quote up to the closing one:
  raw bytes and \<^verbatim>\<open>\uXXXX\<close> escapes (UTF-16 code units).
\<close>

datatype cunit = Raw char | Esc nat

fun lex_string :: "string \<Rightarrow> (cunit list \<times> string) option" where
  "lex_string [] = None"
| "lex_string (c # cs) =
     (if c = dquote then Some ([], cs)
      else if c = backslash then
        (case cs of
           [] \<Rightarrow> None
         | e # r \<Rightarrow>
             if e = CHR ''u'' then
               (case r of
                  h1 # h2 # h3 # h4 # r' \<Rightarrow>
                    (case hex4 h1 h2 h3 h4 of
                       None \<Rightarrow> None
                     | Some n \<Rightarrow>
                         (case lex_string r' of
                            None \<Rightarrow> None
                          | Some (us, rest) \<Rightarrow> Some (Esc n # us, rest)))
                | _ \<Rightarrow> None)
             else
               (case simple_escape e of
                  None \<Rightarrow> None
                | Some ch \<Rightarrow>
                    (case lex_string r of
                       None \<Rightarrow> None
                     | Some (us, rest) \<Rightarrow> Some (Raw ch # us, rest))))
      else if (of_char c :: nat) < 0x20 then None
      else
        (case lex_string cs of
           None \<Rightarrow> None
         | Some (us, rest) \<Rightarrow> Some (Raw c # us, rest)))"

text \<open>
  The escapes as UTF-8: a high surrogate followed by a low one is one code point of
  four bytes, any other code unit is encoded on its own.
\<close>

definition utf8_encode :: "nat \<Rightarrow> string" where
  "utf8_encode n =
     (if n < 0x80 then [char_of n]
      else if n < 0x800 then [char_of (0xC0 + n div 64), char_of (0x80 + n mod 64)]
      else if n < 0x10000 then
        [char_of (0xE0 + n div 4096), char_of (0x80 + (n div 64) mod 64),
         char_of (0x80 + n mod 64)]
      else
        [char_of (0xF0 + n div 262144), char_of (0x80 + (n div 4096) mod 64),
         char_of (0x80 + (n div 64) mod 64), char_of (0x80 + n mod 64)])"

definition is_high_surrogate :: "nat \<Rightarrow> bool" where
  "is_high_surrogate n = (0xD800 \<le> n \<and> n \<le> 0xDBFF)"

definition is_low_surrogate :: "nat \<Rightarrow> bool" where
  "is_low_surrogate n = (0xDC00 \<le> n \<and> n \<le> 0xDFFF)"

fun utf8_units :: "cunit list \<Rightarrow> string" where
  "utf8_units [] = []"
| "utf8_units (Raw c # us) = c # utf8_units us"
| "utf8_units (Esc h # Esc l # us) =
     (if is_high_surrogate h \<and> is_low_surrogate l
      then utf8_encode (0x10000 + (h - 0xD800) * 0x400 + (l - 0xDC00)) @ utf8_units us
      else utf8_encode h @ utf8_units (Esc l # us))"
| "utf8_units (Esc h # us) = utf8_encode h @ utf8_units us"

text \<open>A number literal and the text after it.\<close>

definition lex_int :: "string \<Rightarrow> (string \<times> string) option" where
  "lex_int s =
     (case s of
        [] \<Rightarrow> None
      | c # r \<Rightarrow>
          if c = CHR ''0'' then Some ([c], r)
          else if is_digit c then Some (takeWhile is_digit s, dropWhile is_digit s)
          else None)"

definition lex_frac :: "string \<Rightarrow> (string \<times> string) option" where
  "lex_frac s =
     (case s of
        [] \<Rightarrow> Some ([], s)
      | c # r \<Rightarrow>
          if c = CHR ''.'' then
            (if takeWhile is_digit r = [] then None
             else Some (c # takeWhile is_digit r, dropWhile is_digit r))
          else Some ([], s))"

definition lex_sign :: "string \<Rightarrow> string \<times> string" where
  "lex_sign s =
     (case s of
        [] \<Rightarrow> ([], s)
      | c # r \<Rightarrow> if c = CHR ''+'' \<or> c = CHR ''-'' then ([c], r) else ([], s))"

definition lex_exp :: "string \<Rightarrow> (string \<times> string) option" where
  "lex_exp s =
     (case s of
        [] \<Rightarrow> Some ([], s)
      | c # r \<Rightarrow>
          if c = CHR ''e'' \<or> c = CHR ''E'' then
            (case lex_sign r of
               (sg, r1) \<Rightarrow>
                 if takeWhile is_digit r1 = [] then None
                 else Some (c # sg @ takeWhile is_digit r1, dropWhile is_digit r1))
          else Some ([], s))"

definition lex_number :: "string \<Rightarrow> (string \<times> string) option" where
  "lex_number s =
     (case (case s of [] \<Rightarrow> ([], s) | c # r \<Rightarrow> if c = CHR ''-'' then ([c], r) else ([], s)) of
        (sg, s1) \<Rightarrow>
          (case lex_int s1 of
             None \<Rightarrow> None
           | Some (ip, s2) \<Rightarrow>
               (case lex_frac s2 of
                  None \<Rightarrow> None
                | Some (fp, s3) \<Rightarrow>
                    (case lex_exp s3 of
                       None \<Rightarrow> None
                     | Some (ep, s4) \<Rightarrow> Some (sg @ ip @ fp @ ep, s4)))))"

text \<open>
  \<^verbatim>\<open>obj[k] = v\<close> on the object under construction: an existing property keeps its
  place and takes the new value, a new one is added last.
\<close>

fun set_property :: "(string \<times> json) list \<Rightarrow> string \<Rightarrow> json \<Rightarrow> (string \<times> json) list" where
  "set_property [] k v = [(k, v)]"
| "set_property ((k', v') # ps) k v =
     (if k' = k then (k, v) # ps else (k', v') # set_property ps k v)"

lemma lex_string_length: "lex_string s = Some (us, r) \<Longrightarrow> length r < length s"
proof (induction "length s" arbitrary: s us r rule: less_induct)
  case less
  have IH: "\<And>s' us' r'. lex_string s' = Some (us', r') \<Longrightarrow> length s' < length s
      \<Longrightarrow> length r' < length s'"
    using less.hyps by blast
  show ?case
  proof (cases s)
    case Nil
    with less.prems show ?thesis by simp
  next
    case (Cons c cs)
    with less.prems show ?thesis
      by (auto split: if_splits list.splits option.splits dest!: IH)
  qed
qed

lemma skip_ws_length: "length (skip_ws s) \<le> length s"
  by (simp add: skip_ws_def length_dropWhile_le)

lemma skip_ws_Cons_length: "skip_ws s = c # r \<Longrightarrow> length r < length s"
  using skip_ws_length [of s] by simp

lemma lex_number_length: "lex_number s = Some (l, r) \<Longrightarrow> length r < length s"
proof -
  have dw: "\<And>t. length (dropWhile is_digit t) \<le> length t"
    by (simp add: length_dropWhile_le)
  have li: "\<And>t a b. lex_int t = Some (a, b) \<Longrightarrow> length b < length t"
  proof -
    fix t a b
    assume h: "lex_int t = Some (a, b)"
    show "length b < length t"
    proof (cases t)
      case Nil
      with h show ?thesis by (simp add: lex_int_def)
    next
      case (Cons c u)
      with h dw [of u] show ?thesis
        by (auto simp: lex_int_def less_Suc_eq_le split: if_splits)
    qed
  qed
  have lf: "\<And>t a b. lex_frac t = Some (a, b) \<Longrightarrow> length b \<le> length t"
  proof -
    fix t a b
    assume h: "lex_frac t = Some (a, b)"
    show "length b \<le> length t"
    proof (cases t)
      case Nil
      with h show ?thesis by (simp add: lex_frac_def)
    next
      case (Cons c u)
      with h dw [of u] show ?thesis
        by (auto simp: lex_frac_def split: if_splits)
    qed
  qed
  have ls: "\<And>t a b. lex_sign t = (a, b) \<Longrightarrow> length b \<le> length t"
    by (auto simp: lex_sign_def split: list.splits if_splits)
  have le: "\<And>t a b. lex_exp t = Some (a, b) \<Longrightarrow> length b \<le> length t"
  proof -
    fix t a b
    assume h: "lex_exp t = Some (a, b)"
    show "length b \<le> length t"
    proof (cases t)
      case Nil
      with h show ?thesis by (simp add: lex_exp_def)
    next
      case (Cons c u)
      obtain sg r1 where s: "lex_sign u = (sg, r1)" by (cases "lex_sign u")
      from ls [OF s] dw [of r1] h Cons s show ?thesis
        by (auto simp: lex_exp_def split: if_splits)
    qed
  qed
  assume "lex_number s = Some (l, r)"
  then obtain sg s1 ip s2 fp s3 ep where
    a: "(case s of [] \<Rightarrow> ([], s) | c # t \<Rightarrow> if c = CHR ''-'' then ([c], t) else ([], s)) = (sg, s1)"
    and b: "lex_int s1 = Some (ip, s2)" and c: "lex_frac s2 = Some (fp, s3)"
    and d: "lex_exp s3 = Some (ep, r)"
    by (auto simp: lex_number_def split: prod.splits option.splits)
  from a have "length s1 \<le> length s"
    by (auto split: list.splits if_splits)
  with li [OF b] lf [OF c] le [OF d] show ?thesis by simp
qed

text \<open>
  The value a text starts with, and the text after it.  \<open>parse_elements\<close> reads the
  elements of an array after its opening bracket, \<open>parse_members\<close> the members of an
  object after its opening brace.  The two tests on lengths only make the recursion
  visibly well-founded: by \<open>parse_length\<close> below they never fail.
\<close>

function parse_value :: "string \<Rightarrow> (json \<times> string) option"
  and parse_elements :: "string \<Rightarrow> json list \<Rightarrow> (json \<times> string) option"
  and parse_members :: "string \<Rightarrow> (string \<times> json) list \<Rightarrow> (json \<times> string) option"
where
  "parse_value s =
     (case skip_ws s of
        [] \<Rightarrow> None
      | c # r \<Rightarrow>
          if c = CHR ''{'' then
            (case skip_ws r of
               [] \<Rightarrow> None
             | d # r' \<Rightarrow> if d = CHR ''}'' then Some (JObject [], r') else parse_members r [])
          else if c = CHR ''['' then
            (case skip_ws r of
               [] \<Rightarrow> None
             | d # r' \<Rightarrow> if d = CHR '']'' then Some (JArray [], r') else parse_elements r [])
          else if c = dquote then
            (case lex_string r of
               None \<Rightarrow> None
             | Some (us, r') \<Rightarrow> Some (JString (utf8_units us), r'))
          else if c = CHR ''t'' then
            (case strip_prefix ''rue'' r of None \<Rightarrow> None | Some r' \<Rightarrow> Some (JBool True, r'))
          else if c = CHR ''f'' then
            (case strip_prefix ''alse'' r of None \<Rightarrow> None | Some r' \<Rightarrow> Some (JBool False, r'))
          else if c = CHR ''n'' then
            (case strip_prefix ''ull'' r of None \<Rightarrow> None | Some r' \<Rightarrow> Some (JNull, r'))
          else
            (case lex_number (c # r) of
               None \<Rightarrow> None
             | Some (l, r') \<Rightarrow> Some (JNumber l, r')))"
| "parse_elements s acc =
     (case parse_value s of
        None \<Rightarrow> None
      | Some (v, r) \<Rightarrow>
          if length r < length s then
            (case skip_ws r of
               [] \<Rightarrow> None
             | c # r' \<Rightarrow>
                 if c = CHR '','' then parse_elements r' (acc @ [v])
                 else if c = CHR '']'' then Some (JArray (acc @ [v]), r')
                 else None)
          else None)"
| "parse_members s acc =
     (case skip_ws s of
        [] \<Rightarrow> None
      | q # r0 \<Rightarrow>
          if q \<noteq> dquote then None
          else
            (case lex_string r0 of
               None \<Rightarrow> None
             | Some (us, r1) \<Rightarrow>
                 (case skip_ws r1 of
                    [] \<Rightarrow> None
                  | c # r2 \<Rightarrow>
                      if c \<noteq> CHR '':'' then None
                      else
                        (case parse_value r2 of
                           None \<Rightarrow> None
                         | Some (v, r3) \<Rightarrow>
                             if length r3 < length r2 then
                               (case skip_ws r3 of
                                  [] \<Rightarrow> None
                                | d # r4 \<Rightarrow>
                                    if d = CHR '','' then
                                      parse_members r4 (set_property acc (utf8_units us) v)
                                    else if d = CHR ''}'' then
                                      Some (JObject (set_property acc (utf8_units us) v), r4)
                                    else None)
                             else None))))"
  by pat_completeness auto
termination
proof (relation "measure (\<lambda>x. case x of
          Inl s \<Rightarrow> 2 * length s
        | Inr (Inl (s, acc)) \<Rightarrow> 2 * length s + 1
        | Inr (Inr (s, acc)) \<Rightarrow> 2 * length s + 1)", goal_cases)
  case 1
  show ?case by simp
next
  case (2 s c r d r')
  from skip_ws_Cons_length [OF 2(1)] show ?case by simp
next
  case (3 s c r d r')
  from skip_ws_Cons_length [OF 3(1)] show ?case by simp
next
  case (4 s acc)
  show ?case by simp
next
  case (5 s acc x2 v r c r')
  from skip_ws_Cons_length [OF 5(4)] 5(3) show ?case by simp
next
  case (6 s acc q r0 us_r1 us r1 c r2)
  from skip_ws_Cons_length [OF 6(1)] lex_string_length [of r0 us r1] 6
    skip_ws_Cons_length [of r1 c r2]
  show ?case by simp
next
  case (7 s acc q r0 us_r1 us r1 c r2 x2 v r3 d r4)
  from skip_ws_Cons_length [OF 7(1)] lex_string_length [of r0 us r1] 7
    skip_ws_Cons_length [of r1 c r2] skip_ws_Cons_length [of r3 d r4]
  show ?case by simp
qed

declare parse_value.simps [simp del] parse_elements.simps [simp del]
  parse_members.simps [simp del]

text \<open>The text left after a value is shorter: the tests on lengths never fail.\<close>

lemma parse_length:
  "\<forall>v r. parse_value s = Some (v, r) \<longrightarrow> length r < length s"
  "\<forall>v r. parse_elements s1 a = Some (v, r) \<longrightarrow> length r < length s1"
  "\<forall>v r. parse_members s2 b = Some (v, r) \<longrightarrow> length r < length s2"
proof (induction s and s1 a and s2 b rule: parse_value_parse_elements_parse_members.induct)
  case (1 s)
  show ?case
  proof (intro allI impI)
    fix v r
    assume h: "parse_value s = Some (v, r)"
    show "length r < length s"
    proof (cases "skip_ws s")
      case Nil
      with h show ?thesis by (simp add: parse_value.simps [of s])
    next
      case (Cons c t)
      note lt = skip_ws_Cons_length [OF Cons]
      have le: "length (c # t) \<le> length s" using skip_ws_length [of s] Cons by simp
      consider (obj) "c = CHR ''{''" | (arr) "c = CHR ''[''" | (str) "c = dquote"
        | (tr) "c = CHR ''t''" | (fa) "c = CHR ''f''" | (nu) "c = CHR ''n''"
        | (num) "c \<noteq> CHR ''{''" "c \<noteq> CHR ''[''" "c \<noteq> dquote" "c \<noteq> CHR ''t''"
            "c \<noteq> CHR ''f''" "c \<noteq> CHR ''n''"
        by blast
      then show ?thesis
      proof cases
        case obj
        show ?thesis
        proof (cases "skip_ws t")
          case Nil
          with h Cons obj show ?thesis by (simp add: parse_value.simps [of s])
        next
          case (Cons d t')
          show ?thesis
          proof (cases "d = CHR ''}''")
            case True
            with h \<open>skip_ws s = c # t\<close> obj Cons skip_ws_Cons_length [OF Cons] lt
            show ?thesis by (simp add: parse_value.simps [of s])
          next
            case False
            with h \<open>skip_ws s = c # t\<close> obj Cons have "parse_members t [] = Some (v, r)"
              by (simp add: parse_value.simps [of s])
            with "1.IH"(1) [OF \<open>skip_ws s = c # t\<close> obj Cons False] lt show ?thesis by auto
          qed
        qed
      next
        case arr
        then have ne: "c \<noteq> CHR ''{''" by simp
        show ?thesis
        proof (cases "skip_ws t")
          case Nil
          with h Cons arr show ?thesis by (simp add: parse_value.simps [of s])
        next
          case (Cons d t')
          show ?thesis
          proof (cases "d = CHR '']''")
            case True
            with h \<open>skip_ws s = c # t\<close> arr Cons skip_ws_Cons_length [OF Cons] lt
            show ?thesis by (simp add: parse_value.simps [of s])
          next
            case False
            with h \<open>skip_ws s = c # t\<close> arr Cons have "parse_elements t [] = Some (v, r)"
              by (simp add: parse_value.simps [of s])
            with "1.IH"(2) [OF \<open>skip_ws s = c # t\<close> ne arr Cons False] lt show ?thesis by auto
          qed
        qed
      next
        case str
        with h Cons lt lex_string_length [of t] show ?thesis
          by (auto simp: parse_value.simps [of s] dquote_def split: option.splits)
      next
        case tr
        with h Cons lt strip_prefix_length [of "''rue''" t] show ?thesis
          by (auto simp: parse_value.simps [of s] dquote_def split: option.splits)
      next
        case fa
        with h Cons lt strip_prefix_length [of "''alse''" t] show ?thesis
          by (auto simp: parse_value.simps [of s] dquote_def split: option.splits)
      next
        case nu
        with h Cons lt strip_prefix_length [of "''ull''" t] show ?thesis
          by (auto simp: parse_value.simps [of s] dquote_def split: option.splits)
      next
        case num
        with h Cons le lex_number_length [of "c # t"] show ?thesis
          by (auto simp: parse_value.simps [of s] split: option.splits)
      qed
    qed
  qed
next
  case (2 s a)
  show ?case
  proof (intro allI impI)
    fix v r
    assume h: "parse_elements s a = Some (v, r)"
    then obtain w r1 where pv: "parse_value s = Some (w, r1)" and g: "length r1 < length s"
      by (auto simp: parse_elements.simps [of s a] split: option.splits if_splits)
    show "length r < length s"
    proof (cases "skip_ws r1")
      case Nil
      with h pv g show ?thesis by (simp add: parse_elements.simps [of s a])
    next
      case (Cons c r')
      note lt = skip_ws_Cons_length [OF Cons]
      show ?thesis
      proof (cases "c = CHR '',''")
        case True
        with h pv g Cons have "parse_elements r' (a @ [w]) = Some (v, r)"
          by (simp add: parse_elements.simps [of s a])
        with "2.IH"(2) [OF pv _ g Cons True] lt g show ?thesis by auto
      next
        case False
        with h pv g Cons lt show ?thesis
          by (auto simp: parse_elements.simps [of s a] split: if_splits)
      qed
    qed
  qed
next
  case (3 s b)
  show ?case
  proof (intro allI impI)
    fix v r
    assume h: "parse_members s b = Some (v, r)"
    then obtain q r0 where s0: "skip_ws s = q # r0" and q: "q = dquote"
      by (auto simp: parse_members.simps [of s b] split: list.splits if_splits)
    from h s0 q obtain us r1 where ls: "lex_string r0 = Some (us, r1)"
      by (auto simp: parse_members.simps [of s b] split: option.splits)
    from h s0 q ls obtain c r2 where s1: "skip_ws r1 = c # r2" and c: "c = CHR '':''"
      by (auto simp: parse_members.simps [of s b] split: list.splits if_splits)
    from h s0 q ls s1 c obtain w r3 where pv: "parse_value r2 = Some (w, r3)"
      and g: "length r3 < length r2"
      by (auto simp: parse_members.simps [of s b] split: option.splits if_splits)
    have l2: "length r2 < length s"
      using skip_ws_Cons_length [OF s0] lex_string_length [OF ls] skip_ws_Cons_length [OF s1]
      by simp
    show "length r < length s"
    proof (cases "skip_ws r3")
      case Nil
      with h s0 q ls s1 c pv g show ?thesis by (simp add: parse_members.simps [of s b])
    next
      case (Cons d r4)
      note lt = skip_ws_Cons_length [OF Cons]
      show ?thesis
      proof (cases "d = CHR '',''")
        case True
        with h s0 q ls s1 c pv g Cons
        have "parse_members r4 (set_property b (utf8_units us) w) = Some (v, r)"
          by (simp add: parse_members.simps [of s b])
        moreover have "\<forall>v r. parse_members r4 (set_property b (utf8_units us) w) = Some (v, r)
            \<longrightarrow> length r < length r4"
          using "3.IH"(2) [OF s0 _ ls _ s1 _ pv _ g Cons True] q c by simp
        ultimately show ?thesis using lt g l2 by auto
      next
        case False
        with h s0 q ls s1 c pv g Cons lt l2 show ?thesis
          by (auto simp: parse_members.simps [of s b] split: if_splits)
      qed
    qed
  qed
qed

definition JSON_parse :: "string \<Rightarrow> json option" where
  "JSON_parse s =
     (case parse_value s of
        None \<Rightarrow> None
      | Some (v, r) \<Rightarrow> if skip_ws r = [] then Some v else None)"

section \<open>Schemas and their validation\<close>

text \<open>
  The schemas are built with the zod library (\<^verbatim>\<open>z.object\<close>, \<^verbatim>\<open>z.string\<close>, ...), which is
  not code of the repository; the constructors the scripts use are modelled after zod's
  documented behaviour.  An object schema checks its declared keys, in the order of
  their declaration, and by default strips every key it does not declare;
  \<^verbatim>\<open>nullable\<close> admits \<^verbatim>\<open>null\<close>, \<^verbatim>\<open>optional\<close> admits an absent key.  Every issue is
  collected with the path of the value it is about, and \<^verbatim>\<open>parse\<close> throws a
  \<^verbatim>\<open>ZodError\<close> holding all of them when there is one.  The issue codes are those of
  zod 3 (\<^verbatim>\<open>invalid_type\<close>, \<^verbatim>\<open>invalid_enum_value\<close>, \<^verbatim>\<open>invalid_literal\<close>).  A property is read
  as \<^verbatim>\<open>data[key]\<close>; no declared key of the scripts is a property of
  \<^verbatim>\<open>Object.prototype\<close>, so this is the object's own property.
\<close>

datatype schema =
    ZString
  | ZBoolean
  | ZEnum "string list"
  | ZLiteral string
  | ZArray schema
  | ZObject "(string \<times> schema) list"
  | ZNullable schema
  | ZOptional schema

datatype seg = Key string | Idx nat

datatype ztype = TUndefined | TNull | TBoolean | TNumber | TString | TArray | TObject

datatype expected = ExpType ztype | ExpOneOf "string list"

datatype issue_code =
    invalid_type expected ztype
  | invalid_enum_value "string list" string
  | invalid_literal string

type_synonym issue = "seg list \<times> issue_code"

text \<open>The type zod reports for a value; \<open>None\<close> is \<^verbatim>\<open>undefined\<close>, an absent property.\<close>

fun parsedType :: "json option \<Rightarrow> ztype" where
  "parsedType None = TUndefined"
| "parsedType (Some JNull) = TNull"
| "parsedType (Some (JBool b)) = TBoolean"
| "parsedType (Some (JNumber n)) = TNumber"
| "parsedType (Some (JString s)) = TString"
| "parsedType (Some (JArray xs)) = TArray"
| "parsedType (Some (JObject fs)) = TObject"

text \<open>
  \<open>zparse t p v\<close>: the schema \<open>t\<close> on the value \<open>v\<close> found at path \<open>p\<close>; the issues, or the
  validated value.  \<open>zparse_items\<close> runs an array's element schema over the elements,
  \<open>zparse_shape\<close> an object's declared keys over the properties \<^verbatim>\<open>data[key]\<close>; a
  container reports the issues of all its parts, and otherwise returns a new container
  of the validated parts (an object: of the declared keys whose value is not
  \<^verbatim>\<open>undefined\<close>).
\<close>

definition zod_string :: "seg list \<Rightarrow> json option \<Rightarrow> issue list + json option" where
  "zod_string p v =
     (case v of
        Some (JString s) \<Rightarrow> Inr v
      | _ \<Rightarrow> Inl [(p, invalid_type (ExpType TString) (parsedType v))])"

definition zod_boolean :: "seg list \<Rightarrow> json option \<Rightarrow> issue list + json option" where
  "zod_boolean p v =
     (case v of
        Some (JBool b) \<Rightarrow> Inr v
      | _ \<Rightarrow> Inl [(p, invalid_type (ExpType TBoolean) (parsedType v))])"

definition zod_enum :: "string list \<Rightarrow> seg list \<Rightarrow> json option \<Rightarrow> issue list + json option" where
  "zod_enum vs p v =
     (case v of
        Some (JString s) \<Rightarrow> if s \<in> set vs then Inr v else Inl [(p, invalid_enum_value vs s)]
      | _ \<Rightarrow> Inl [(p, invalid_type (ExpOneOf vs) (parsedType v))])"

definition zod_literal :: "string \<Rightarrow> seg list \<Rightarrow> json option \<Rightarrow> issue list + json option" where
  "zod_literal l p v = (if v = Some (JString l) then Inr v else Inl [(p, invalid_literal l)])"

fun as_array :: "json option \<Rightarrow> json list option" where
  "as_array (Some (JArray xs)) = Some xs"
| "as_array v = None"

fun as_object :: "json option \<Rightarrow> (string \<times> json) list option" where
  "as_object (Some (JObject fs)) = Some fs"
| "as_object v = None"

text \<open>
  What a container keeps of an element's or a property's outcome: the issues, and the
  validated value when there is one.
\<close>

fun issues_of :: "issue list + json option \<Rightarrow> issue list" where
  "issues_of (Inl iss) = iss"
| "issues_of (Inr v) = []"

fun value_of :: "issue list + json option \<Rightarrow> json option" where
  "value_of (Inl iss) = None"
| "value_of (Inr v) = v"

fun zparse :: "schema \<Rightarrow> seg list \<Rightarrow> json option \<Rightarrow> issue list + json option"
  and zparse_items :: "schema \<Rightarrow> seg list \<Rightarrow> nat \<Rightarrow> json list \<Rightarrow> (issue list + json option) list"
  and zparse_shape ::
    "(string \<times> schema) list \<Rightarrow> seg list \<Rightarrow> (string \<times> json) list
      \<Rightarrow> (string \<times> (issue list + json option)) list"
where
  "zparse ZString p v = zod_string p v"
| "zparse ZBoolean p v = zod_boolean p v"
| "zparse (ZEnum vs) p v = zod_enum vs p v"
| "zparse (ZLiteral l) p v = zod_literal l p v"
| "zparse (ZNullable t) p v = (if v = Some JNull then Inr v else zparse t p v)"
| "zparse (ZOptional t) p v = (if v = None then Inr v else zparse t p v)"
| "zparse (ZArray t) p v =
     (case as_array v of
        None \<Rightarrow> Inl [(p, invalid_type (ExpType TArray) (parsedType v))]
      | Some xs \<Rightarrow>
          (let rs = zparse_items t p 0 xs in
           if concat (map issues_of rs) = []
           then Inr (Some (JArray (List.map_filter value_of rs)))
           else Inl (concat (map issues_of rs))))"
| "zparse (ZObject sh) p v =
     (case as_object v of
        None \<Rightarrow> Inl [(p, invalid_type (ExpType TObject) (parsedType v))]
      | Some fs \<Rightarrow>
          (let rs = zparse_shape sh p fs in
           if concat (map (issues_of \<circ> snd) rs) = []
           then Inr (Some (JObject
                  (List.map_filter (\<lambda>(k, r). map_option (Pair k) (value_of r)) rs)))
           else Inl (concat (map (issues_of \<circ> snd) rs))))"
| "zparse_items t p i [] = []"
| "zparse_items t p i (x # xs) = zparse t (p @ [Idx i]) (Some x) # zparse_items t p (Suc i) xs"
| "zparse_shape [] p fs = []"
| "zparse_shape ((k, t) # sh) p fs =
     (k, zparse t (p @ [Key k]) (map_of fs k)) # zparse_shape sh p fs"

text \<open>\<^verbatim>\<open>Schema.parse(data)\<close>: \<open>Inl\<close> is the thrown \<^verbatim>\<open>ZodError\<close> with its issues.\<close>

definition zod_parse :: "schema \<Rightarrow> json \<Rightarrow> issue list + json option" where
  "zod_parse t data = zparse t [] (Some data)"

subsection \<open>The four schemas of the scripts\<close>

definition ContentCompliance :: schema where
  "ContentCompliance =
     ZObject
       [(''is_violating'', ZBoolean),
        (''category'', ZNullable (ZEnum [''violence'', ''sexual'', ''self_harm''])),
        (''explanation_if_violating'', ZNullable ZString)]"

definition CookBook :: schema where
  "CookBook =
     ZObject
       [(''name'', ZString),
        (''timeToCook'', ZString),
        (''ingredients'', ZArray ZString)]"

definition element_types :: "string list" where
  "element_types =
     [''section-header'', ''text-input'', ''textarea'', ''date-input'', ''email-input'',
      ''phone-input'', ''url-input'', ''bullet-list-item'', ''submit-button'']"

definition CVElement :: schema where
  "CVElement =
     ZObject
       [(''type'', ZEnum element_types),
        (''label'', ZOptional ZString),
        (''name'', ZOptional ZString),
        (''required'', ZOptional ZBoolean),
        (''placeholder'', ZOptional ZString),
        (''value'', ZOptional ZString)]"

definition CVForm :: schema where
  "CVForm =
     ZObject
       [(''type'', ZLiteral ''cv-form''),
        (''elements'', ZArray CVElement)]"

definition Step :: schema where
  "Step = ZObject [(''explanation'', ZString), (''output'', ZString)]"

definition GuideSteps :: schema where
  "GuideSteps = ZObject [(''steps'', ZArray Step)]"

section \<open>The extraction and validation pipeline\<close>

text \<open>
  What the generation endpoint hands back: the call is rejected with an error, or it
  resolves with a response, whose text lies at
  \<^verbatim>\<open>response.candidates[0].content.parts[0].text\<close>; each level may be missing.
\<close>

record part =
  part_text :: "string option"

record content =
  content_parts :: "part list option"

record candidate =
  cand_content :: "content option"

record response =
  resp_candidates :: "candidate list option"

datatype generation = Rejects string | Responds "response option"

datatype error = EndpointError string | TypeError | ZodError "issue list"

text \<open>
  The lines the scripts write with \<^verbatim>\<open>console.error\<close>, by their message; what they print
  with \<^verbatim>\<open>console.log\<close> is left out.
\<close>

datatype diag =
    ApiKeyMissing
  | NoText
  | UnexpectedFormat
  | NoJsonObject string
  | ParseFailed string
  | ProcessFailed error
  | ZodIssues "issue list"

text \<open>How a \<^verbatim>\<open>try\<close> block ends: with a returned value, or with a thrown error.\<close>

datatype 'a completion = Returned 'a | Thrown error

text \<open>
  The first part of the first candidate; \<open>None\<close> when the response, its candidates, the
  first candidate's content or its parts are missing or empty.
\<close>

definition first_part :: "response option \<Rightarrow> part option" where
  "first_part response =
     (case response of
        None \<Rightarrow> None
      | Some r \<Rightarrow>
          (case resp_candidates r of
             None \<Rightarrow> None
           | Some [] \<Rightarrow> None
           | Some (c # cs) \<Rightarrow>
               (case cand_content c of
                  None \<Rightarrow> None
                | Some ct \<Rightarrow>
                    (case content_parts ct of
                       None \<Rightarrow> None
                     | Some [] \<Rightarrow> None
                     | Some (pt # ps) \<Rightarrow> Some pt))))"

text \<open>\<^verbatim>\<open>response?.candidates?.[0]?.content?.parts?.[0]?.text\<close>\<close>

definition optional_text :: "response option \<Rightarrow> string option" where
  "optional_text response =
     (case first_part response of None \<Rightarrow> None | Some pt \<Rightarrow> part_text pt)"

text \<open>
  The candidate payload: the text from its first opening brace to its last closing
  brace, both included; \<open>None\<close> when the script finds no such span.
\<close>

definition json_slice :: "string \<Rightarrow> string option" where
  "json_slice text =
     (let jsonStartIndex = indexOf text CHR ''{'';
          jsonEndIndex = lastIndexOf text CHR ''}''
      in if jsonStartIndex = -1 \<or> jsonEndIndex = -1 \<or> jsonStartIndex \<ge> jsonEndIndex
         then None
         else Some (substring text jsonStartIndex (jsonEndIndex + 1)))"

text \<open>
  The steps the four scripts share word for word, from the search for the braces to
  the schema's \<^verbatim>\<open>parse\<close>: what is logged, and how the steps end.
\<close>

definition extractAndValidate :: "schema \<Rightarrow> string \<Rightarrow> diag list \<times> json option completion" where
  "extractAndValidate schema text =
     (case json_slice text of
        None \<Rightarrow> ([NoJsonObject text], Returned None)
      | Some jsonData \<Rightarrow>
          (case JSON_parse jsonData of
             None \<Rightarrow> ([ParseFailed jsonData], Returned None)
           | Some parsedData \<Rightarrow>
               (case zod_parse schema parsedData of
                  Inl iss \<Rightarrow> ([], Thrown (ZodError iss))
                | Inr v \<Rightarrow> ([], Returned v))))"

text \<open>
  The two \<^verbatim>\<open>catch\<close> clauses: both log the error and return \<^verbatim>\<open>null\<close>; the second also
  logs the issues of a \<^verbatim>\<open>ZodError\<close>.
\<close>

fun catch_plain :: "diag list \<times> json option completion \<Rightarrow> diag list \<times> json option" where
  "catch_plain (log, Returned v) = (log, v)"
| "catch_plain (log, Thrown e) = (log @ [ProcessFailed e], None)"

fun catch_zod :: "diag list \<times> json option completion \<Rightarrow> diag list \<times> json option" where
  "catch_zod (log, Returned v) = (log, v)"
| "catch_zod (log, Thrown (ZodError iss)) =
     (log @ [ProcessFailed (ZodError iss), ZodIssues iss], None)"
| "catch_zod (log, Thrown e) = (log @ [ProcessFailed e], None)"

text \<open>
  \<open>checkCompliance\<close> and \<open>generateUI\<close> read the text through optional chaining and stop
  on a missing or empty one.
\<close>

definition chained_body :: "schema \<Rightarrow> generation \<Rightarrow> diag list \<times> json option completion" where
  "chained_body schema gen =
     (case gen of
        Rejects msg \<Rightarrow> ([], Thrown (EndpointError msg))
      | Responds response \<Rightarrow>
          (case optional_text response of
             None \<Rightarrow> ([NoText], Returned None)
           | Some text \<Rightarrow>
               if text = [] then ([NoText], Returned None) else extractAndValidate schema text))"

text \<open>
  \<open>extractCook\<close> and \<open>extractStructuredData\<close> test each level of the response, then
  trim the text; a part without text makes \<^verbatim>\<open>.trim()\<close> throw a \<^verbatim>\<open>TypeError\<close>.
\<close>

definition checked_body :: "schema \<Rightarrow> generation \<Rightarrow> diag list \<times> json option completion" where
  "checked_body schema gen =
     (case gen of
        Rejects msg \<Rightarrow> ([], Thrown (EndpointError msg))
      | Responds response \<Rightarrow>
          (case first_part response of
             None \<Rightarrow> ([UnexpectedFormat], Returned None)
           | Some pt \<Rightarrow>
               (case part_text pt of
                  None \<Rightarrow> ([], Thrown TypeError)
                | Some text \<Rightarrow> extractAndValidate schema (trim text))))"

definition checkCompliance :: "generation \<Rightarrow> diag list \<times> json option" where
  "checkCompliance gen = catch_zod (chained_body ContentCompliance gen)"

definition extractCook :: "generation \<Rightarrow> diag list \<times> json option" where
  "extractCook gen = catch_plain (checked_body CookBook gen)"

definition generateUI :: "generation \<Rightarrow> diag list \<times> json option" where
  "generateUI gen = catch_zod (chained_body CVForm gen)"

definition extractStructuredData :: "generation \<Rightarrow> diag list \<times> json option" where
  "extractStructuredData gen = catch_zod (checked_body GuideSteps gen)"

text \<open>A response that carries exactly the given text.\<close>

definition text_response :: "string \<Rightarrow> response" where
  "text_response raw =
     \<lparr>resp_candidates = Some [\<lparr>cand_content =
       Some \<lparr>content_parts = Some [\<lparr>part_text = Some raw\<rparr>]\<rparr>\<rparr>]\<rparr>"

definition response_with :: "string \<Rightarrow> generation" where
  "response_with raw = Responds (Some (text_response raw))"

section \<open>The renderer\<close>

text \<open>
  An element of a validated form: its \<^verbatim>\<open>type\<close>, and the optional \<^verbatim>\<open>label\<close>, \<^verbatim>\<open>name\<close>,
  \<^verbatim>\<open>required\<close>, \<^verbatim>\<open>placeholder\<close> and \<^verbatim>\<open>value\<close>.  The type is kept as a string, so that the
  renderer's \<^verbatim>\<open>default\<close> branch is part of the model.
\<close>

record element =
  el_type :: string
  el_label :: "string option"
  el_name :: "string option"
  el_required :: "bool option"
  el_placeholder :: "string option"
  el_value :: "string option"

record cvform =
  form_type :: string
  elements :: "element list"

text \<open>
  The renderer's variables: the markup so far, as the list of the strings appended to
  \<^verbatim>\<open>html\<close> in order (the returned string is their concatenation); the flag; and the
  warnings logged.
\<close>

record rstate =
  html :: "string list"
  inList :: bool
  warnings :: "string list"

text \<open>Truthiness of an optional string, and \<^verbatim>\<open>x || d\<close>.\<close>

definition truthy :: "string option \<Rightarrow> bool" where
  "truthy x = (case x of None \<Rightarrow> False | Some s \<Rightarrow> s \<noteq> [])"

definition or_default :: "string option \<Rightarrow> string \<Rightarrow> string" where
  "or_default x d = (case x of None \<Rightarrow> d | Some s \<Rightarrow> if s = [] then d else s)"

text \<open>
  \<^verbatim>\<open>toLowerCase()\<close> is the runtime's method, not code of the repository: it is modelled
  after ECMAScript's \<^verbatim>\<open>String.prototype.toLowerCase\<close>, which converts the code points of
  the string by the locale-independent lower-case mappings of the Unicode Character
  Database: the Lowercase_Mapping of each code point, and the one mapping that depends
  on the context, of the capital sigma at the end of a word.  The tables below are
  those of Unicode 14.0; a code point outside them is left as it is.

  The code points of a text.  A sequence of bytes is read as a code point when it is
  the encoding of that code point; a byte that starts no such sequence is kept as it
  is.
\<close>

datatype cpoint = Point nat | Stray char

definition point2 :: "char \<Rightarrow> char \<Rightarrow> nat" where
  "point2 a b = (of_char a - 0xC0) * 64 + (of_char b - 0x80)"

definition point3 :: "char \<Rightarrow> char \<Rightarrow> char \<Rightarrow> nat" where
  "point3 a b c = (of_char a - 0xE0) * 4096 + (of_char b - 0x80) * 64 + (of_char c - 0x80)"

definition point4 :: "char \<Rightarrow> char \<Rightarrow> char \<Rightarrow> char \<Rightarrow> nat" where
  "point4 a b c d =
     (of_char a - 0xF0) * 262144 + (of_char b - 0x80) * 4096 + (of_char c - 0x80) * 64
     + (of_char d - 0x80)"

fun utf8_decode :: "string \<Rightarrow> cpoint list" where
  "utf8_decode [] = []"
| "utf8_decode (a # s) =
     (if (of_char a :: nat) < 0x80 then Point (of_char a) # utf8_decode s
      else
        (case s of
           [] \<Rightarrow> [Stray a]
         | b # s1 \<Rightarrow>
             if utf8_encode (point2 a b) = [a, b] then Point (point2 a b) # utf8_decode s1
             else
               (case s1 of
                  [] \<Rightarrow> Stray a # utf8_decode s
                | c # s2 \<Rightarrow>
                    if utf8_encode (point3 a b c) = [a, b, c]
                    then Point (point3 a b c) # utf8_decode s2
                    else
                      (case s2 of
                         [] \<Rightarrow> Stray a # utf8_decode s
                       | d # s3 \<Rightarrow>
                           if utf8_encode (point4 a b c d) = [a, b, c, d]
                           then Point (point4 a b c d) # utf8_decode s3
                           else Stray a # utf8_decode s))))"

fun point_bytes :: "cpoint \<Rightarrow> string" where
  "point_bytes (Point n) = utf8_encode n"
| "point_bytes (Stray c) = [c]"

text \<open>
  The code points with a lower-case mapping other than themselves, in ascending order,
  as runs \<open>(first, last, step, image of first)\<close>: the code points \<open>first\<close>,
  \<open>first + step\<close>, ... up to \<open>last\<close> map to the image of \<open>first\<close>, that image plus
  \<open>step\<close>, and so on.  The capital I with dot above, U+0130, is the one code point whose
  mapping is two code points, U+0069 U+0307.
\<close>

definition lowercase_runs :: "(nat \<times> nat \<times> nat \<times> nat) list" where
  "lowercase_runs =
     [(0x41, 0x5A, 1, 0x61), (0xC0, 0xD6, 1, 0xE0), (0xD8, 0xDE, 1, 0xF8),
      (0x100, 0x12E, 2, 0x101), (0x132, 0x136, 2, 0x133), (0x139, 0x147, 2, 0x13A),
      (0x14A, 0x176, 2, 0x14B), (0x178, 0x178, 1, 0xFF), (0x179, 0x17D, 2, 0x17A),
      (0x181, 0x181, 1, 0x253), (0x182, 0x184, 2, 0x183), (0x186, 0x186, 1, 0x254),
      (0x187, 0x187, 1, 0x188), (0x189, 0x18A, 1, 0x256), (0x18B, 0x18B, 1, 0x18C),
      (0x18E, 0x18E, 1, 0x1DD), (0x18F, 0x18F, 1, 0x259), (0x190, 0x190, 1, 0x25B),
      (0x191, 0x191, 1, 0x192), (0x193, 0x193, 1, 0x260), (0x194, 0x194, 1, 0x263),
      (0x196, 0x196, 1, 0x269), (0x197, 0x197, 1, 0x268), (0x198, 0x198, 1, 0x199),
      (0x19C, 0x19C, 1, 0x26F), (0x19D, 0x19D, 1, 0x272), (0x19F, 0x19F, 1, 0x275),
      (0x1A0, 0x1A4, 2, 0x1A1), (0x1A6, 0x1A6, 1, 0x280), (0x1A7, 0x1A7, 1, 0x1A8),
      (0x1A9, 0x1A9, 1, 0x283), (0x1AC, 0x1AC, 1, 0x1AD), (0x1AE, 0x1AE, 1, 0x288),
      (0x1AF, 0x1AF, 1, 0x1B0), (0x1B1, 0x1B2, 1, 0x28A), (0x1B3, 0x1B5, 2, 0x1B4),
      (0x1B7, 0x1B7, 1, 0x292), (0x1B8, 0x1B8, 1, 0x1B9), (0x1BC, 0x1BC, 1, 0x1BD),
      (0x1C4, 0x1C4, 1, 0x1C6), (0x1C5, 0x1C5, 1, 0x1C6), (0x1C7, 0x1C7, 1, 0x1C9),
      (0x1C8, 0x1C8, 1, 0x1C9), (0x1CA, 0x1CA, 1, 0x1CC), (0x1CB, 0x1DB, 2, 0x1CC),
      (0x1DE, 0x1EE, 2, 0x1DF), (0x1F1, 0x1F1, 1, 0x1F3), (0x1F2, 0x1F4, 2, 0x1F3),
      (0x1F6, 0x1F6, 1, 0x195), (0x1F7, 0x1F7, 1, 0x1BF), (0x1F8, 0x21E, 2, 0x1F9),
      (0x220, 0x220, 1, 0x19E), (0x222, 0x232, 2, 0x223), (0x23A, 0x23A, 1, 0x2C65),
      (0x23B, 0x23B, 1, 0x23C), (0x23D, 0x23D, 1, 0x19A), (0x23E, 0x23E, 1, 0x2C66),
      (0x241, 0x241, 1, 0x242), (0x243, 0x243, 1, 0x180), (0x244, 0x244, 1, 0x289),
      (0x245, 0x245, 1, 0x28C), (0x246, 0x24E, 2, 0x247), (0x370, 0x372, 2, 0x371),
      (0x376, 0x376, 1, 0x377), (0x37F, 0x37F, 1, 0x3F3), (0x386, 0x386, 1, 0x3AC),
      (0x388, 0x38A, 1, 0x3AD), (0x38C, 0x38C, 1, 0x3CC), (0x38E, 0x38F, 1, 0x3CD),
      (0x391, 0x3A1, 1, 0x3B1), (0x3A3, 0x3AB, 1, 0x3C3), (0x3CF, 0x3CF, 1, 0x3D7),
      (0x3D8, 0x3EE, 2, 0x3D9), (0x3F4, 0x3F4, 1, 0x3B8), (0x3F7, 0x3F7, 1, 0x3F8),
      (0x3F9, 0x3F9, 1, 0x3F2), (0x3FA, 0x3FA, 1, 0x3FB), (0x3FD, 0x3FF, 1, 0x37B),
      (0x400, 0x40F, 1, 0x450), (0x410, 0x42F, 1, 0x430), (0x460, 0x480, 2, 0x461),
      (0x48A, 0x4BE, 2, 0x48B), (0x4C0, 0x4C0, 1, 0x4CF), (0x4C1, 0x4CD, 2, 0x4C2),
      (0x4D0, 0x52E, 2, 0x4D1), (0x531, 0x556, 1, 0x561), (0x10A0, 0x10C5, 1, 0x2D00),
      (0x10C7, 0x10C7, 1, 0x2D27), (0x10CD, 0x10CD, 1, 0x2D2D), (0x13A0, 0x13EF, 1, 0xAB70),
      (0x13F0, 0x13F5, 1, 0x13F8), (0x1C90, 0x1CBA, 1, 0x10D0), (0x1CBD, 0x1CBF, 1, 0x10FD),
      (0x1E00, 0x1E94, 2, 0x1E01), (0x1E9E, 0x1E9E, 1, 0xDF), (0x1EA0, 0x1EFE, 2, 0x1EA1),
      (0x1F08, 0x1F0F, 1, 0x1F00), (0x1F18, 0x1F1D, 1, 0x1F10), (0x1F28, 0x1F2F, 1, 0x1F20),
      (0x1F38, 0x1F3F, 1, 0x1F30), (0x1F48, 0x1F4D, 1, 0x1F40), (0x1F59, 0x1F5F, 2, 0x1F51),
      (0x1F68, 0x1F6F, 1, 0x1F60), (0x1F88, 0x1F8F, 1, 0x1F80), (0x1F98, 0x1F9F, 1, 0x1F90),
      (0x1FA8, 0x1FAF, 1, 0x1FA0), (0x1FB8, 0x1FB9, 1, 0x1FB0), (0x1FBA, 0x1FBB, 1, 0x1F70),
      (0x1FBC, 0x1FBC, 1, 0x1FB3), (0x1FC8, 0x1FCB, 1, 0x1F72), (0x1FCC, 0x1FCC, 1, 0x1FC3),
      (0x1FD8, 0x1FD9, 1, 0x1FD0), (0x1FDA, 0x1FDB, 1, 0x1F76), (0x1FE8, 0x1FE9, 1, 0x1FE0),
      (0x1FEA, 0x1FEB, 1, 0x1F7A), (0x1FEC, 0x1FEC, 1, 0x1FE5), (0x1FF8, 0x1FF9, 1, 0x1F78),
      (0x1FFA, 0x1FFB, 1, 0x1F7C), (0x1FFC, 0x1FFC, 1, 0x1FF3), (0x2126, 0x2126, 1, 0x3C9),
      (0x212A, 0x212A, 1, 0x6B), (0x212B, 0x212B, 1, 0xE5), (0x2132, 0x2132, 1, 0x214E),
      (0x2160, 0x216F, 1, 0x2170), (0x2183, 0x2183, 1, 0x2184), (0x24B6, 0x24CF, 1, 0x24D0),
      (0x2C00, 0x2C2F, 1, 0x2C30), (0x2C60, 0x2C60, 1, 0x2C61), (0x2C62, 0x2C62, 1, 0x26B),
      (0x2C63, 0x2C63, 1, 0x1D7D), (0x2C64, 0x2C64, 1, 0x27D), (0x2C67, 0x2C6B, 2, 0x2C68),
      (0x2C6D, 0x2C6D, 1, 0x251), (0x2C6E, 0x2C6E, 1, 0x271), (0x2C6F, 0x2C6F, 1, 0x250),
      (0x2C70, 0x2C70, 1, 0x252), (0x2C72, 0x2C72, 1, 0x2C73), (0x2C75, 0x2C75, 1, 0x2C76),
      (0x2C7E, 0x2C7F, 1, 0x23F), (0x2C80, 0x2CE2, 2, 0x2C81), (0x2CEB, 0x2CED, 2, 0x2CEC),
      (0x2CF2, 0x2CF2, 1, 0x2CF3), (0xA640, 0xA66C, 2, 0xA641), (0xA680, 0xA69A, 2, 0xA681),
      (0xA722, 0xA72E, 2, 0xA723), (0xA732, 0xA76E, 2, 0xA733), (0xA779, 0xA77B, 2, 0xA77A),
      (0xA77D, 0xA77D, 1, 0x1D79), (0xA77E, 0xA786, 2, 0xA77F), (0xA78B, 0xA78B, 1, 0xA78C),
      (0xA78D, 0xA78D, 1, 0x265), (0xA790, 0xA792, 2, 0xA791), (0xA796, 0xA7A8, 2, 0xA797),
      (0xA7AA, 0xA7AA, 1, 0x266), (0xA7AB, 0xA7AB, 1, 0x25C), (0xA7AC, 0xA7AC, 1, 0x261),
      (0xA7AD, 0xA7AD, 1, 0x26C), (0xA7AE, 0xA7AE, 1, 0x26A), (0xA7B0, 0xA7B0, 1, 0x29E),
      (0xA7B1, 0xA7B1, 1, 0x287), (0xA7B2, 0xA7B2, 1, 0x29D), (0xA7B3, 0xA7B3, 1, 0xAB53),
      (0xA7B4, 0xA7C2, 2, 0xA7B5), (0xA7C4, 0xA7C4, 1, 0xA794), (0xA7C5, 0xA7C5, 1, 0x282),
      (0xA7C6, 0xA7C6, 1, 0x1D8E), (0xA7C7, 0xA7C9, 2, 0xA7C8), (0xA7D0, 0xA7D0, 1, 0xA7D1),
      (0xA7D6, 0xA7D8, 2, 0xA7D7), (0xA7F5, 0xA7F5, 1, 0xA7F6), (0xFF21, 0xFF3A, 1, 0xFF41),
      (0x10400, 0x10427, 1, 0x10428), (0x104B0, 0x104D3, 1, 0x104D8), (0x10570, 0x1057A, 1, 0x10597),
      (0x1057C, 0x1058A, 1, 0x105A3), (0x1058C, 0x10592, 1, 0x105B3), (0x10594, 0x10595, 1, 0x105BB),
      (0x10C80, 0x10CB2, 1, 0x10CC0), (0x118A0, 0x118BF, 1, 0x118C0), (0x16E40, 0x16E5F, 1, 0x16E60),
      (0x1E900, 0x1E921, 1, 0x1E922)]"

text \<open>The cased letters and the case-ignorable code points, as ascending ranges.\<close>

definition cased_ranges :: "(nat \<times> nat) list" where
  "cased_ranges =
     [(0x41, 0x5A), (0x61, 0x7A), (0xAA, 0xAA), (0xB5, 0xB5),
      (0xBA, 0xBA), (0xC0, 0xD6), (0xD8, 0xF6), (0xF8, 0x1BA),
      (0x1BC, 0x1BF), (0x1C4, 0x293), (0x295, 0x2B8), (0x2C0, 0x2C1),
      (0x2E0, 0x2E4), (0x345, 0x345), (0x370, 0x373), (0x376, 0x377),
      (0x37A, 0x37D), (0x37F, 0x37F), (0x386, 0x386), (0x388, 0x38A),
      (0x38C, 0x38C), (0x38E, 0x3A1), (0x3A3, 0x3F5), (0x3F7, 0x481),
      (0x48A, 0x52F), (0x531, 0x556), (0x560, 0x588), (0x10A0, 0x10C5),
      (0x10C7, 0x10C7), (0x10CD, 0x10CD), (0x10D0, 0x10FA), (0x10FD, 0x10FF),
      (0x13A0, 0x13F5), (0x13F8, 0x13FD), (0x1C80, 0x1C88), (0x1C90, 0x1CBA),
      (0x1CBD, 0x1CBF), (0x1D00, 0x1DBF), (0x1E00, 0x1F15), (0x1F18, 0x1F1D),
      (0x1F20, 0x1F45), (0x1F48, 0x1F4D), (0x1F50, 0x1F57), (0x1F59, 0x1F59),
      (0x1F5B, 0x1F5B), (0x1F5D, 0x1F5D), (0x1F5F, 0x1F7D), (0x1F80, 0x1FB4),
      (0x1FB6, 0x1FBC), (0x1FBE, 0x1FBE), (0x1FC2, 0x1FC4), (0x1FC6, 0x1FCC),
      (0x1FD0, 0x1FD3), (0x1FD6, 0x1FDB), (0x1FE0, 0x1FEC), (0x1FF2, 0x1FF4),
      (0x1FF6, 0x1FFC), (0x2071, 0x2071), (0x207F, 0x207F), (0x2090, 0x209C),
      (0x2102, 0x2102), (0x2107, 0x2107), (0x210A, 0x2113), (0x2115, 0x2115),
      (0x2119, 0x211D), (0x2124, 0x2124), (0x2126, 0x2126), (0x2128, 0x2128),
      (0x212A, 0x212D), (0x212F, 0x2134), (0x2139, 0x2139), (0x213C, 0x213F),
      (0x2145, 0x2149), (0x214E, 0x214E), (0x2160, 0x217F), (0x2183, 0x2184),
      (0x24B6, 0x24E9), (0x2C00, 0x2CE4), (0x2CEB, 0x2CEE), (0x2CF2, 0x2CF3),
      (0x2D00, 0x2D25), (0x2D27, 0x2D27), (0x2D2D, 0x2D2D), (0xA640, 0xA66D),
      (0xA680, 0xA69D), (0xA722, 0xA787), (0xA78B, 0xA78E), (0xA790, 0xA7CA),
      (0xA7D0, 0xA7D1), (0xA7D3, 0xA7D3), (0xA7D5, 0xA7D9), (0xA7F5, 0xA7F6),
      (0xA7F8, 0xA7FA), (0xAB30, 0xAB5A), (0xAB5C, 0xAB68), (0xAB70, 0xABBF),
      (0xFB00, 0xFB06), (0xFB13, 0xFB17), (0xFF21, 0xFF3A), (0xFF41, 0xFF5A),
      (0x10400, 0x1044F), (0x104B0, 0x104D3), (0x104D8, 0x104FB), (0x10570, 0x1057A),
      (0x1057C, 0x1058A), (0x1058C, 0x10592), (0x10594, 0x10595), (0x10597, 0x105A1),
      (0x105A3, 0x105B1), (0x105B3, 0x105B9), (0x105BB, 0x105BC), (0x10780, 0x10780),
      (0x10783, 0x10785), (0x10787, 0x107B0), (0x107B2, 0x107BA), (0x10C80, 0x10CB2),
      (0x10CC0, 0x10CF2), (0x118A0, 0x118DF), (0x16E40, 0x16E7F), (0x1D400, 0x1D454),
      (0x1D456, 0x1D49C), (0x1D49E, 0x1D49F), (0x1D4A2, 0x1D4A2), (0x1D4A5, 0x1D4A6),
      (0x1D4A9, 0x1D4AC), (0x1D4AE, 0x1D4B9), (0x1D4BB, 0x1D4BB), (0x1D4BD, 0x1D4C3),
      (0x1D4C5, 0x1D505), (0x1D507, 0x1D50A), (0x1D50D, 0x1D514), (0x1D516, 0x1D51C),
      (0x1D51E, 0x1D539), (0x1D53B, 0x1D53E), (0x1D540, 0x1D544), (0x1D546, 0x1D546),
      (0x1D54A, 0x1D550), (0x1D552, 0x1D6A5), (0x1D6A8, 0x1D6C0), (0x1D6C2, 0x1D6DA),
      (0x1D6DC, 0x1D6FA), (0x1D6FC, 0x1D714), (0x1D716, 0x1D734), (0x1D736, 0x1D74E),
      (0x1D750, 0x1D76E), (0x1D770, 0x1D788), (0x1D78A, 0x1D7A8), (0x1D7AA, 0x1D7C2),
      (0x1D7C4, 0x1D7CB), (0x1DF00, 0x1DF09), (0x1DF0B, 0x1DF1E), (0x1E900, 0x1E943),
      (0x1F130, 0x1F149), (0x1F150, 0x1F169), (0x1F170, 0x1F189)]"

definition case_ignorable_ranges :: "(nat \<times> nat) list" where
  "case_ignorable_ranges =
     [(0x27, 0x27), (0x2E, 0x2E), (0x3A, 0x3A), (0x5E, 0x5E),
      (0x60, 0x60), (0xA8, 0xA8), (0xAD, 0xAD), (0xAF, 0xAF),
      (0xB4, 0xB4), (0xB7, 0xB8), (0x2B0, 0x36F), (0x374, 0x375),
      (0x37A, 0x37A), (0x384, 0x385), (0x387, 0x387), (0x483, 0x489),
      (0x559, 0x559), (0x55F, 0x55F), (0x591, 0x5BD), (0x5BF, 0x5BF),
      (0x5C1, 0x5C2), (0x5C4, 0x5C5), (0x5C7, 0x5C7), (0x5F4, 0x5F4),
      (0x600, 0x605), (0x610, 0x61A), (0x61C, 0x61C), (0x640, 0x640),
      (0x64B, 0x65F), (0x670, 0x670), (0x6D6, 0x6DD), (0x6DF, 0x6E8),
      (0x6EA, 0x6ED), (0x70F, 0x70F), (0x711, 0x711), (0x730, 0x74A),
      (0x7A6, 0x7B0), (0x7EB, 0x7F5), (0x7FA, 0x7FA), (0x7FD, 0x7FD),
      (0x816, 0x82D), (0x859, 0x85B), (0x888, 0x888), (0x890, 0x891),
      (0x898, 0x89F), (0x8C9, 0x902), (0x93A, 0x93A), (0x93C, 0x93C),
      (0x941, 0x948), (0x94D, 0x94D), (0x951, 0x957), (0x962, 0x963),
      (0x971, 0x971), (0x981, 0x981), (0x9BC, 0x9BC), (0x9C1, 0x9C4),
      (0x9CD, 0x9CD), (0x9E2, 0x9E3), (0x9FE, 0x9FE), (0xA01, 0xA02),
      (0xA3C, 0xA3C), (0xA41, 0xA42), (0xA47, 0xA48), (0xA4B, 0xA4D),
      (0xA51, 0xA51), (0xA70, 0xA71), (0xA75, 0xA75), (0xA81, 0xA82),
      (0xABC, 0xABC), (0xAC1, 0xAC5), (0xAC7, 0xAC8), (0xACD, 0xACD),
      (0xAE2, 0xAE3), (0xAFA, 0xAFF), (0xB01, 0xB01), (0xB3C, 0xB3C),
      (0xB3F, 0xB3F), (0xB41, 0xB44), (0xB4D, 0xB4D), (0xB55, 0xB56),
      (0xB62, 0xB63), (0xB82, 0xB82), (0xBC0, 0xBC0), (0xBCD, 0xBCD),
      (0xC00, 0xC00), (0xC04, 0xC04), (0xC3C, 0xC3C), (0xC3E, 0xC40),
      (0xC46, 0xC48), (0xC4A, 0xC4D), (0xC55, 0xC56), (0xC62, 0xC63),
      (0xC81, 0xC81), (0xCBC, 0xCBC), (0xCBF, 0xCBF), (0xCC6, 0xCC6),
      (0xCCC, 0xCCD), (0xCE2, 0xCE3), (0xD00, 0xD01), (0xD3B, 0xD3C),
      (0xD41, 0xD44), (0xD4D, 0xD4D), (0xD62, 0xD63), (0xD81, 0xD81),
      (0xDCA, 0xDCA), (0xDD2, 0xDD4), (0xDD6, 0xDD6), (0xE31, 0xE31),
      (0xE34, 0xE3A), (0xE46, 0xE4E), (0xEB1, 0xEB1), (0xEB4, 0xEBC),
      (0xEC6, 0xEC6), (0xEC8, 0xECD), (0xF18, 0xF19), (0xF35, 0xF35),
      (0xF37, 0xF37), (0xF39, 0xF39), (0xF71, 0xF7E), (0xF80, 0xF84),
      (0xF86, 0xF87), (0xF8D, 0xF97), (0xF99, 0xFBC), (0xFC6, 0xFC6),
      (0x102D, 0x1030), (0x1032, 0x1037), (0x1039, 0x103A), (0x103D, 0x103E),
      (0x1058, 0x1059), (0x105E, 0x1060), (0x1071, 0x1074), (0x1082, 0x1082),
      (0x1085, 0x1086), (0x108D, 0x108D), (0x109D, 0x109D), (0x10FC, 0x10FC),
      (0x135D, 0x135F), (0x1712, 0x1714), (0x1732, 0x1733), (0x1752, 0x1753),
      (0x1772, 0x1773), (0x17B4, 0x17B5), (0x17B7, 0x17BD), (0x17C6, 0x17C6),
      (0x17C9, 0x17D3), (0x17D7, 0x17D7), (0x17DD, 0x17DD), (0x180B, 0x180F),
      (0x1843, 0x1843), (0x1885, 0x1886), (0x18A9, 0x18A9), (0x1920, 0x1922),
      (0x1927, 0x1928), (0x1932, 0x1932), (0x1939, 0x193B), (0x1A17, 0x1A18),
      (0x1A1B, 0x1A1B), (0x1A56, 0x1A56), (0x1A58, 0x1A5E), (0x1A60, 0x1A60),
      (0x1A62, 0x1A62), (0x1A65, 0x1A6C), (0x1A73, 0x1A7C), (0x1A7F, 0x1A7F),
      (0x1AA7, 0x1AA7), (0x1AB0, 0x1ACE), (0x1B00, 0x1B03), (0x1B34, 0x1B34),
      (0x1B36, 0x1B3A), (0x1B3C, 0x1B3C), (0x1B42, 0x1B42), (0x1B6B, 0x1B73),
      (0x1B80, 0x1B81), (0x1BA2, 0x1BA5), (0x1BA8, 0x1BA9), (0x1BAB, 0x1BAD),
      (0x1BE6, 0x1BE6), (0x1BE8, 0x1BE9), (0x1BED, 0x1BED), (0x1BEF, 0x1BF1),
      (0x1C2C, 0x1C33), (0x1C36, 0x1C37), (0x1C78, 0x1C7D), (0x1CD0, 0x1CD2),
      (0x1CD4, 0x1CE0), (0x1CE2, 0x1CE8), (0x1CED, 0x1CED), (0x1CF4, 0x1CF4),
      (0x1CF8, 0x1CF9), (0x1D2C, 0x1D6A), (0x1D78, 0x1D78), (0x1D9B, 0x1DFF),
      (0x1FBD, 0x1FBD), (0x1FBF, 0x1FC1), (0x1FCD, 0x1FCF), (0x1FDD, 0x1FDF),
      (0x1FED, 0x1FEF), (0x1FFD, 0x1FFE), (0x200B, 0x200F), (0x2018, 0x2019),
      (0x2024, 0x2024), (0x2027, 0x2027), (0x202A, 0x202E), (0x2060, 0x2064),
      (0x2066, 0x206F), (0x2071, 0x2071), (0x207F, 0x207F), (0x2090, 0x209C),
      (0x20D0, 0x20F0), (0x2C7C, 0x2C7D), (0x2CEF, 0x2CF1), (0x2D6F, 0x2D6F),
      (0x2D7F, 0x2D7F), (0x2DE0, 0x2DFF), (0x2E2F, 0x2E2F), (0x3005, 0x3005),
      (0x302A, 0x302D), (0x3031, 0x3035), (0x303B, 0x303B), (0x3099, 0x309E),
      (0x30FC, 0x30FE), (0xA015, 0xA015), (0xA4F8, 0xA4FD), (0xA60C, 0xA60C),
      (0xA66F, 0xA672), (0xA674, 0xA67D), (0xA67F, 0xA67F), (0xA69C, 0xA69F),
      (0xA6F0, 0xA6F1), (0xA700, 0xA721), (0xA770, 0xA770), (0xA788, 0xA78A),
      (0xA7F2, 0xA7F4), (0xA7F8, 0xA7F9), (0xA802, 0xA802), (0xA806, 0xA806),
      (0xA80B, 0xA80B), (0xA825, 0xA826), (0xA82C, 0xA82C), (0xA8C4, 0xA8C5),
      (0xA8E0, 0xA8F1), (0xA8FF, 0xA8FF), (0xA926, 0xA92D), (0xA947, 0xA951),
      (0xA980, 0xA982), (0xA9B3, 0xA9B3), (0xA9B6, 0xA9B9), (0xA9BC, 0xA9BD),
      (0xA9CF, 0xA9CF), (0xA9E5, 0xA9E6), (0xAA29, 0xAA2E), (0xAA31, 0xAA32),
      (0xAA35, 0xAA36), (0xAA43, 0xAA43), (0xAA4C, 0xAA4C), (0xAA70, 0xAA70),
      (0xAA7C, 0xAA7C), (0xAAB0, 0xAAB0), (0xAAB2, 0xAAB4), (0xAAB7, 0xAAB8),
      (0xAABE, 0xAABF), (0xAAC1, 0xAAC1), (0xAADD, 0xAADD), (0xAAEC, 0xAAED),
      (0xAAF3, 0xAAF4), (0xAAF6, 0xAAF6), (0xAB5B, 0xAB5F), (0xAB69, 0xAB6B),
      (0xABE5, 0xABE5), (0xABE8, 0xABE8), (0xABED, 0xABED), (0xFB1E, 0xFB1E),
      (0xFBB2, 0xFBC2), (0xFE00, 0xFE0F), (0xFE13, 0xFE13), (0xFE20, 0xFE2F),
      (0xFE52, 0xFE52), (0xFE55, 0xFE55), (0xFEFF, 0xFEFF), (0xFF07, 0xFF07),
      (0xFF0E, 0xFF0E), (0xFF1A, 0xFF1A), (0xFF3E, 0xFF3E), (0xFF40, 0xFF40),
      (0xFF70, 0xFF70), (0xFF9E, 0xFF9F), (0xFFE3, 0xFFE3), (0xFFF9, 0xFFFB),
      (0x101FD, 0x101FD), (0x102E0, 0x102E0), (0x10376, 0x1037A), (0x10780, 0x10785),
      (0x10787, 0x107B0), (0x107B2, 0x107BA), (0x10A01, 0x10A03), (0x10A05, 0x10A06),
      (0x10A0C, 0x10A0F), (0x10A38, 0x10A3A), (0x10A3F, 0x10A3F), (0x10AE5, 0x10AE6),
      (0x10D24, 0x10D27), (0x10EAB, 0x10EAC), (0x10F46, 0x10F50), (0x10F82, 0x10F85),
      (0x11001, 0x11001), (0x11038, 0x11046), (0x11070, 0x11070), (0x11073, 0x11074),
      (0x1107F, 0x11081), (0x110B3, 0x110B6), (0x110B9, 0x110BA), (0x110BD, 0x110BD),
      (0x110C2, 0x110C2), (0x110CD, 0x110CD), (0x11100, 0x11102), (0x11127, 0x1112B),
      (0x1112D, 0x11134), (0x11173, 0x11173), (0x11180, 0x11181), (0x111B6, 0x111BE),
      (0x111C9, 0x111CC), (0x111CF, 0x111CF), (0x1122F, 0x11231), (0x11234, 0x11234),
      (0x11236, 0x11237), (0x1123E, 0x1123E), (0x112DF, 0x112DF), (0x112E3, 0x112EA),
      (0x11300, 0x11301), (0x1133B, 0x1133C), (0x11340, 0x11340), (0x11366, 0x1136C),
      (0x11370, 0x11374), (0x11438, 0x1143F), (0x11442, 0x11444), (0x11446, 0x11446),
      (0x1145E, 0x1145E), (0x114B3, 0x114B8), (0x114BA, 0x114BA), (0x114BF, 0x114C0),
      (0x114C2, 0x114C3), (0x115B2, 0x115B5), (0x115BC, 0x115BD), (0x115BF, 0x115C0),
      (0x115DC, 0x115DD), (0x11633, 0x1163A), (0x1163D, 0x1163D), (0x1163F, 0x11640),
      (0x116AB, 0x116AB), (0x116AD, 0x116AD), (0x116B0, 0x116B5), (0x116B7, 0x116B7),
      (0x1171D, 0x1171F), (0x11722, 0x11725), (0x11727, 0x1172B), (0x1182F, 0x11837),
      (0x11839, 0x1183A), (0x1193B, 0x1193C), (0x1193E, 0x1193E), (0x11943, 0x11943),
      (0x119D4, 0x119D7), (0x119DA, 0x119DB), (0x119E0, 0x119E0), (0x11A01, 0x11A0A),
      (0x11A33, 0x11A38), (0x11A3B, 0x11A3E), (0x11A47, 0x11A47), (0x11A51, 0x11A56),
      (0x11A59, 0x11A5B), (0x11A8A, 0x11A96), (0x11A98, 0x11A99), (0x11C30, 0x11C36),
      (0x11C38, 0x11C3D), (0x11C3F, 0x11C3F), (0x11C92, 0x11CA7), (0x11CAA, 0x11CB0),
      (0x11CB2, 0x11CB3), (0x11CB5, 0x11CB6), (0x11D31, 0x11D36), (0x11D3A, 0x11D3A),
      (0x11D3C, 0x11D3D), (0x11D3F, 0x11D45), (0x11D47, 0x11D47), (0x11D90, 0x11D91),
      (0x11D95, 0x11D95), (0x11D97, 0x11D97), (0x11EF3, 0x11EF4), (0x13430, 0x13438),
      (0x16AF0, 0x16AF4), (0x16B30, 0x16B36), (0x16B40, 0x16B43), (0x16F4F, 0x16F4F),
      (0x16F8F, 0x16F9F), (0x16FE0, 0x16FE1), (0x16FE3, 0x16FE4), (0x1AFF0, 0x1AFF3),
      (0x1AFF5, 0x1AFFB), (0x1AFFD, 0x1AFFE), (0x1BC9D, 0x1BC9E), (0x1BCA0, 0x1BCA3),
      (0x1CF00, 0x1CF2D), (0x1CF30, 0x1CF46), (0x1D167, 0x1D169), (0x1D173, 0x1D182),
      (0x1D185, 0x1D18B), (0x1D1AA, 0x1D1AD), (0x1D242, 0x1D244), (0x1DA00, 0x1DA36),
      (0x1DA3B, 0x1DA6C), (0x1DA75, 0x1DA75), (0x1DA84, 0x1DA84), (0x1DA9B, 0x1DA9F),
      (0x1DAA1, 0x1DAAF), (0x1E000, 0x1E006), (0x1E008, 0x1E018), (0x1E01B, 0x1E021),
      (0x1E023, 0x1E024), (0x1E026, 0x1E02A), (0x1E130, 0x1E13D), (0x1E2AE, 0x1E2AE),
      (0x1E2EC, 0x1E2EF), (0x1E8D0, 0x1E8D6), (0x1E944, 0x1E94B), (0x1F3FB, 0x1F3FF),
      (0xE0001, 0xE0001), (0xE0020, 0xE007F), (0xE0100, 0xE01EF)]"


fun lower_in :: "(nat \<times> nat \<times> nat \<times> nat) list \<Rightarrow> nat \<Rightarrow> nat" where
  "lower_in [] n = n"
| "lower_in ((lo, hi, step, low) # rs) n =
     (if n < lo then n
      else if n \<le> hi \<and> (n - lo) mod step = 0 then low + (n - lo)
      else lower_in rs n)"

definition lowercase_mapping :: "nat \<Rightarrow> nat list" where
  "lowercase_mapping n = (if n = 0x130 then [0x69, 0x307] else [lower_in lowercase_runs n])"

fun in_ranges :: "(nat \<times> nat) list \<Rightarrow> nat \<Rightarrow> bool" where
  "in_ranges [] n = False"
| "in_ranges ((lo, hi) # rs) n = (if n < lo then False else if n \<le> hi then True else in_ranges rs n)"

definition cased :: "nat \<Rightarrow> bool" where
  "cased n = in_ranges cased_ranges n"

definition case_ignorable :: "nat \<Rightarrow> bool" where
  "case_ignorable n = in_ranges case_ignorable_ranges n"

text \<open>
  The capital sigma, U+03A3, becomes the final small sigma, U+03C2, when a cased letter
  precedes it, case-ignorable code points between them left aside, and no cased letter
  follows it in the same way; otherwise it becomes U+03C3 as the table says.
  \<open>before_cased\<close> looks ahead; the flag of \<open>lower_points\<close> remembers what precedes.
\<close>

fun before_cased :: "cpoint list \<Rightarrow> bool" where
  "before_cased [] = False"
| "before_cased (Stray c # us) = False"
| "before_cased (Point n # us) = (if case_ignorable n then before_cased us else cased n)"

fun lower_points :: "bool \<Rightarrow> cpoint list \<Rightarrow> cpoint list" where
  "lower_points after [] = []"
| "lower_points after (Stray c # us) = Stray c # lower_points False us"
| "lower_points after (Point n # us) =
     (if n = 0x3A3 \<and> after \<and> \<not> before_cased us then [Point 0x3C2]
      else map Point (lowercase_mapping n))
     @ lower_points (if case_ignorable n then after else cased n) us"

definition toLowerCase :: "string \<Rightarrow> string" where
  "toLowerCase s = concat (map point_bytes (lower_points False (utf8_decode s)))"

lemma trimStart_length: "length (trimStart s) \<le> length s"
proof (induction s rule: trimStart.induct)
  case (1 s)
  show ?case
  proof (cases "drop_ws s")
    case None
    then show ?thesis by (simp add: trimStart.simps [of s])
  next
    case (Some r)
    with "1.IH" [of r] drop_ws_length [of s r] show ?thesis
      by (simp add: trimStart.simps [of s])
  qed
qed

text \<open>\<^verbatim>\<open>replace(/\s+/g, "-")\<close>: every maximal run of white space becomes one hyphen.\<close>

function replace_ws :: "string \<Rightarrow> string" where
  "replace_ws [] = []"
| "replace_ws (c # cs) =
     (case drop_ws (c # cs) of
        Some r \<Rightarrow> CHR ''-'' # replace_ws (trimStart r)
      | None \<Rightarrow> c # replace_ws cs)"
  by pat_completeness auto
termination
proof (relation "measure length")
  show "wf (measure length)" by simp
next
  fix c :: char and cs r
  assume "drop_ws (c # cs) = Some r"
  with drop_ws_length [of "c # cs" r] trimStart_length [of r]
  show "(trimStart r, c # cs) \<in> measure length" by simp
next
  fix c :: char and cs
  show "(cs, c # cs) \<in> measure length" by simp
qed

text \<open>\<^verbatim>\<open>s.replace(pat, rep)\<close> with a string pattern: the first occurrence only.\<close>

fun replace_first :: "string \<Rightarrow> string \<Rightarrow> string \<Rightarrow> string" where
  "replace_first pat rep [] = (if pat = [] then rep else [])"
| "replace_first pat rep (c # cs) =
     (case strip_prefix pat (c # cs) of
        Some r \<Rightarrow> rep @ r
      | None \<Rightarrow> c # replace_first pat rep cs)"

definition input_types :: "string list" where
  "input_types =
     [''text-input'', ''textarea'', ''date-input'', ''email-input'', ''phone-input'',
      ''url-input'']"

text \<open>
  The identifier of a labelled field, used for the label's \<^verbatim>\<open>for\<close> and the control's
  \<^verbatim>\<open>id\<close>: \<^verbatim>\<open>element.name || element.label.toLowerCase().replace(/\s+/g, "-")\<close>.
\<close>

definition field_id :: "element \<Rightarrow> string" where
  "field_id e =
     or_default (el_name e) (replace_ws (toLowerCase (or_default (el_label e) [])))"

definition label_markup :: "element \<Rightarrow> string" where
  \<open>label_markup e =
     (if truthy (el_label e)
      then ''    <label for="'' @ field_id e @ ''">'' @ or_default (el_label e) []
             @ ''</label>\<newline>''
      else [])\<close>

definition control_markup :: "element \<Rightarrow> string" where
  \<open>control_markup e =
     (if el_type e = ''textarea'' then ''    <textarea''
      else ''    <input type="'' @ replace_first ''-input'' [] (el_type e) @ ''"'')
     @ (if truthy (el_name e) then '' name="'' @ or_default (el_name e) [] @ ''"'' else [])
     @ (if truthy (el_label e) then '' id="'' @ field_id e @ ''"'' else [])
     @ (if el_required e = Some True then '' required'' else [])
     @ (if truthy (el_placeholder e)
        then '' placeholder="'' @ or_default (el_placeholder e) [] @ ''"'' else [])
     @ (if el_type e = ''textarea'' then ''></textarea>\<newline>'' else ''>\<newline>'')\<close>

definition field_markup :: "element \<Rightarrow> string" where
  \<open>field_markup e =
     ''  <div class="form-field">\<newline>'' @ label_markup e @ control_markup e
     @ ''  </div>\<newline>''\<close>

definition header_markup :: "element \<Rightarrow> string" where
  "header_markup e = ''  <h2>'' @ or_default (el_label e) [] @ ''</h2>\<newline>''"

definition item_markup :: "element \<Rightarrow> string" where
  "item_markup e = ''    <li>'' @ or_default (el_value e) [] @ ''</li>\<newline>''"

definition button_markup :: "element \<Rightarrow> string" where
  \<open>button_markup e =
     ''  <button type="submit"''
     @ (if truthy (el_name e) then '' name="'' @ or_default (el_name e) [] @ ''"'' else [])
     @ ''>'' @ or_default (el_label e) ''Submit'' @ ''</button>\<newline>''\<close>

definition ul_open :: string where
  "ul_open = ''  <ul>\<newline>''"

definition ul_close :: string where
  "ul_close = ''  </ul>\<newline>''"

text \<open>\<^verbatim>\<open>html += x\<close> (the appends of one element's markup are taken together).\<close>

definition emit :: "rstate \<Rightarrow> string \<Rightarrow> rstate" where
  "emit s x = s\<lparr>html := html s @ [x]\<rparr>"

text \<open>\<^verbatim>\<open>if (inList) { html += "  </ul>\n"; inList = false; }\<close>\<close>

definition close_list :: "rstate \<Rightarrow> rstate" where
  "close_list s =
     (if inList s then s\<lparr>html := html s @ [ul_close], inList := False\<rparr> else s)"

text \<open>\<^verbatim>\<open>if (!inList) { html += "  <ul>\n"; inList = true; }\<close>\<close>

definition open_list :: "rstate \<Rightarrow> rstate" where
  "open_list s =
     (if \<not> inList s then s\<lparr>html := html s @ [ul_open], inList := True\<rparr> else s)"

text \<open>The body of the loop: the \<^verbatim>\<open>switch\<close> on the element's type.\<close>

definition render_element :: "rstate \<Rightarrow> element \<Rightarrow> rstate" where
  "render_element s e =
     (if el_type e = ''section-header'' then emit (close_list s) (header_markup e)
      else if el_type e \<in> set input_types then emit (close_list s) (field_markup e)
      else if el_type e = ''bullet-list-item'' then emit (open_list s) (item_markup e)
      else if el_type e = ''submit-button'' then emit (close_list s) (button_markup e)
      else s\<lparr>warnings := warnings s @ [''Unknown element type: '' @ el_type e]\<rparr>)"

definition form_open :: string where
  \<open>form_open = ''<form class="cv-form">\<newline>''\<close>

definition form_close :: string where
  "form_close = ''</form>\<newline>''"

definition render_run :: "cvform \<Rightarrow> rstate" where
  "render_run ui =
     (let s0 = \<lparr>html = [form_open], inList = False, warnings = []\<rparr>;
          s1 = (if elements ui \<noteq> [] then foldl render_element s0 (elements ui) else s0)
      in emit (close_list s1) form_close)"

definition convertToHTML :: "cvform \<Rightarrow> string" where
  "convertToHTML ui = concat (html (render_run ui))"

text \<open>
  The validated object as the renderer reads it, through \<^verbatim>\<open>ui.elements\<close>,
  \<^verbatim>\<open>element.type\<close>, \<^verbatim>\<open>element.label\<close> and so on; a property that is absent reads as \<open>None\<close>.
\<close>

fun json_fields :: "json \<Rightarrow> (string \<times> json) list" where
  "json_fields (JObject fs) = fs"
| "json_fields v = []"

definition get_string :: "json \<Rightarrow> string \<Rightarrow> string option" where
  "get_string v k = (case map_of (json_fields v) k of Some (JString s) \<Rightarrow> Some s | _ \<Rightarrow> None)"

definition get_bool :: "json \<Rightarrow> string \<Rightarrow> bool option" where
  "get_bool v k = (case map_of (json_fields v) k of Some (JBool b) \<Rightarrow> Some b | _ \<Rightarrow> None)"

definition as_element :: "json \<Rightarrow> element" where
  "as_element v =
     \<lparr>el_type = (case get_string v ''type'' of Some s \<Rightarrow> s | None \<Rightarrow> []),
      el_label = get_string v ''label'',
      el_name = get_string v ''name'',
      el_required = get_bool v ''required'',
      el_placeholder = get_string v ''placeholder'',
      el_value = get_string v ''value''\<rparr>"

definition as_cvform :: "json \<Rightarrow> cvform" where
  "as_cvform v =
     \<lparr>form_type = (case get_string v ''type'' of Some s \<Rightarrow> s | None \<Rightarrow> []),
      elements =
        (case map_of (json_fields v) ''elements'' of
           Some (JArray xs) \<Rightarrow> map as_element xs
         | _ \<Rightarrow> [])\<rparr>"

section \<open>The scripts\<close>

text \<open>
  A run of a script: its exit status, whether the endpoint was called, the lines on
  \<^verbatim>\<open>console.error\<close>, the result \<^verbatim>\<open>main\<close> received, and the markup written to
  the output file (the form script only; the static document around the markup is
  left out).
\<close>

record run =
  run_exit :: int
  run_called :: bool
  run_log :: "diag list"
  run_result :: "json option"
  run_file :: "string option"

text \<open>
  Every script first reads the credential and exits with status 1 when it is missing
  or empty; otherwise \<^verbatim>\<open>main\<close> awaits the function and prints what it returned.
\<close>

definition script ::
  "(generation \<Rightarrow> diag list \<times> json option) \<Rightarrow> string option \<Rightarrow> generation \<Rightarrow> run" where
  "script f apiKey gen =
     (if \<not> truthy apiKey
      then \<lparr>run_exit = 1, run_called = False, run_log = [ApiKeyMissing],
            run_result = None, run_file = None\<rparr>
      else (case f gen of
              (log, r) \<Rightarrow>
                \<lparr>run_exit = 0, run_called = True, run_log = log,
                 run_result = r, run_file = None\<rparr>))"

text \<open>
  The form script also renders a result and writes the file; \<open>write_ok\<close> tells whether
  \<^verbatim>\<open>fs.writeFileSync\<close> succeeds (its error is caught nowhere: the run ends with status 1).
\<close>

definition form_script :: "string option \<Rightarrow> generation \<Rightarrow> bool \<Rightarrow> run" where
  "form_script apiKey gen write_ok =
     (if \<not> truthy apiKey
      then \<lparr>run_exit = 1, run_called = False, run_log = [ApiKeyMissing],
            run_result = None, run_file = None\<rparr>
      else (case generateUI gen of
              (log, None) \<Rightarrow>
                \<lparr>run_exit = 0, run_called = True, run_log = log,
                 run_result = None, run_file = None\<rparr>
            | (log, Some ui) \<Rightarrow>
                if write_ok
                then \<lparr>run_exit = 0, run_called = True, run_log = log,
                      run_result = Some ui, run_file = Some (convertToHTML (as_cvform ui))\<rparr>
                else \<lparr>run_exit = 1, run_called = True, run_log = log,
                      run_result = Some ui, run_file = None\<rparr>))"

section \<open>Notions the properties are stated with\<close>

text \<open>
  The element types of the schema's enumeration are the types the renderer's
  \<^verbatim>\<open>switch\<close> has a case for; \<open>markup\<close> is what the case of a recognized element appends
  for the element itself.
\<close>

definition recognized :: "element \<Rightarrow> bool" where
  "recognized e = (el_type e \<in> set element_types)"

definition is_item :: "element \<Rightarrow> bool" where
  "is_item e = (el_type e = ''bullet-list-item'')"

definition markup :: "element \<Rightarrow> string" where
  "markup e =
     (if el_type e = ''section-header'' then header_markup e
      else if el_type e = ''bullet-list-item'' then item_markup e
      else if el_type e = ''submit-button'' then button_markup e
      else field_markup e)"

text \<open>
  The grouping of the specification: a sequence of elements cut into its maximal runs
  of consecutive list items (\<open>Inl\<close>) and its other elements (\<open>Inr\<close>), and the markup of a
  group: a run is one list container around its items.
\<close>

fun groups :: "element list \<Rightarrow> (element list + element) list" where
  "groups [] = []"
| "groups (e # es) =
     (if is_item e then
        (case groups es of
           Inl bs # gs \<Rightarrow> Inl (e # bs) # gs
         | gs \<Rightarrow> Inl [e] # gs)
      else Inr e # groups es)"

fun render_group :: "element list + element \<Rightarrow> string list" where
  "render_group (Inl bs) = ul_open # map item_markup bs @ [ul_close]"
| "render_group (Inr e) = [markup e]"

fun members :: "element list + element \<Rightarrow> element list" where
  "members (Inl bs) = bs"
| "members (Inr e) = [e]"

fun group_ok :: "element list + element \<Rightarrow> bool" where
  "group_ok (Inl bs) = (bs \<noteq> [] \<and> list_all is_item bs)"
| "group_ok (Inr e) = (\<not> is_item e)"

text \<open>No two runs stand next to each other: each run is maximal.\<close>

fun separated :: "(element list + element) list \<Rightarrow> bool" where
  "separated [] = True"
| "separated (g # gs) =
     ((case gs of [] \<Rightarrow> True | h # hs \<Rightarrow> \<not> (isl g \<and> isl h)) \<and> separated gs)"

text \<open>What follows in the markup while a list is open.\<close>

fun open_tail :: "(element list + element) list \<Rightarrow> string list" where
  "open_tail (Inl bs # gs) = map item_markup bs @ [ul_close] @ concat (map render_group gs)"
| "open_tail gs = ul_close # concat (map render_group gs)"

text \<open>An element of a type with no other property, and the notice for an unknown type.\<close>

definition plain :: "string \<Rightarrow> element" where
  "plain ty = \<lparr>el_type = ty, el_label = None, el_name = None, el_required = None,
     el_placeholder = None, el_value = None\<rparr>"

definition notice :: "element \<Rightarrow> string" where
  "notice e = ''Unknown element type: '' @ el_type e"

text \<open>
  The condition of the specification under which no JSON is found: no opening brace,
  no closing brace, or the first opening brace not strictly before the last closing
  one.
\<close>

definition no_json_span :: "string \<Rightarrow> bool" where
  "no_json_span raw \<longleftrightarrow>
     CHR ''{'' \<notin> set raw \<or> CHR ''}'' \<notin> set raw
     \<or> \<not> indexOf raw CHR ''{'' < lastIndexOf raw CHR ''}''"

text \<open>
  A payload with the keys removed that the schema does not declare (the declared keys
  in the order of their declaration), at every object the schema describes.
\<close>

fun strip_undeclared :: "schema \<Rightarrow> json \<Rightarrow> json"
  and strip_shape :: "(string \<times> schema) list \<Rightarrow> (string \<times> json) list \<Rightarrow> (string \<times> json) list"
where
  "strip_undeclared (ZObject sh) (JObject fs) = JObject (strip_shape sh fs)"
| "strip_undeclared (ZArray t) (JArray xs) = JArray (map (strip_undeclared t) xs)"
| "strip_undeclared (ZNullable t) v = strip_undeclared t v"
| "strip_undeclared (ZOptional t) v = strip_undeclared t v"
| "strip_undeclared t v = v"
| "strip_shape [] fs = []"
| "strip_shape ((k, t) # sh) fs =
     (case map_of fs k of
        None \<Rightarrow> strip_shape sh fs
      | Some w \<Rightarrow> (k, strip_undeclared t w) # strip_shape sh fs)"

text \<open>
  Equality of JSON values that does not look at the order of an object's properties:
  the same keys, with equal values.
\<close>

fun deep_eq :: "json \<Rightarrow> json \<Rightarrow> bool"
  and deep_eq_list :: "json list \<Rightarrow> json list \<Rightarrow> bool"
where
  "deep_eq (JArray xs) (JArray ys) = deep_eq_list xs ys"
| "deep_eq (JObject fs) (JObject gs) =
     (list_all (\<lambda>(k, v). case map_of gs k of None \<Rightarrow> False | Some w \<Rightarrow> deep_eq v w) fs
      \<and> list_all (\<lambda>(k, w). map_of fs k \<noteq> None) gs)"
| "deep_eq a b = (a = b)"
| "deep_eq_list [] ys = (ys = [])"
| "deep_eq_list (x # xs) [] = False"
| "deep_eq_list (x # xs) (y # ys) = (deep_eq x y \<and> deep_eq_list xs ys)"

text \<open>
  The payload keeps to the schema's keys: every object the schema describes has only
  declared keys.
\<close>

fun only_declared :: "schema \<Rightarrow> json \<Rightarrow> bool" where
  "only_declared (ZObject sh) (JObject fs) =
     (list_all (\<lambda>(k, v). map_of sh k \<noteq> None) fs
      \<and> list_all (\<lambda>(k, t). case map_of fs k of None \<Rightarrow> True | Some v \<Rightarrow> only_declared t v) sh)"
| "only_declared (ZArray t) (JArray xs) = list_all (only_declared t) xs"
| "only_declared (ZNullable t) v = only_declared t v"
| "only_declared (ZOptional t) v = only_declared t v"
| "only_declared t v = True"

text \<open>
  A schema is required when it rejects an absent property, and nullable when it admits
  \<^verbatim>\<open>null\<close>; \<open>unwrap\<close> is the schema under its \<^verbatim>\<open>nullable\<close> and \<^verbatim>\<open>optional\<close> wrappers.
\<close>

fun required :: "schema \<Rightarrow> bool" where
  "required (ZOptional t) = False"
| "required (ZNullable t) = required t"
| "required t = True"

fun nullable :: "schema \<Rightarrow> bool" where
  "nullable (ZNullable t) = True"
| "nullable (ZOptional t) = nullable t"
| "nullable t = False"

fun unwrap :: "schema \<Rightarrow> schema" where
  "unwrap (ZOptional t) = unwrap t"
| "unwrap (ZNullable t) = unwrap t"
| "unwrap t = t"

text \<open>
  The identifier the specification derives for a labelled field.  \<open>pieces\<close> cuts a text at
  its runs of white space, as \<^verbatim>\<open>split(/\s+/)\<close> does: a white-space character that is
  followed by another one belongs to the same run, and the last one of a run ends the
  piece before it.  \<open>hyphenated\<close> joins the pieces with single hyphens.  The derived
  identifier is the name when it is a non-empty string, and otherwise the label in
  lower case, hyphenated.
\<close>

fun join_with :: "string \<Rightarrow> string list \<Rightarrow> string" where
  "join_with sep [] = []"
| "join_with sep [p] = p"
| "join_with sep (p # q # ps) = p @ sep @ join_with sep (q # ps)"

function pieces :: "string \<Rightarrow> string list" where
  "pieces [] = [[]]"
| "pieces (c # cs) =
     (case drop_ws (c # cs) of
        Some r \<Rightarrow> if drop_ws r = None then [] # pieces r else pieces r
      | None \<Rightarrow> (case pieces cs of [] \<Rightarrow> [[c]] | p # ps \<Rightarrow> (c # p) # ps))"
  by pat_completeness auto
termination
proof (relation "measure length")
  show "wf (measure length)" by simp
next
  fix c :: char and cs r
  assume "drop_ws (c # cs) = Some r"
  with drop_ws_length [of "c # cs" r]
  show "(r, c # cs) \<in> measure length" by simp
next
  fix c :: char and cs r
  assume "drop_ws (c # cs) = Some r"
  with drop_ws_length [of "c # cs" r]
  show "(r, c # cs) \<in> measure length" by simp
next
  fix c :: char and cs
  show "(cs, c # cs) \<in> measure length" by simp
qed

definition hyphenated :: "string \<Rightarrow> string" where
  "hyphenated s = join_with ''-'' (pieces s)"

definition derived_identifier :: "string option \<Rightarrow> string \<Rightarrow> string" where
  "derived_identifier name label =
     (case name of
        None \<Rightarrow> hyphenated (toLowerCase label)
      | Some n \<Rightarrow> if n = [] then hyphenated (toLowerCase label) else n)"

text \<open>Lower case on the letters A to Z alone, every other byte kept.\<close>

definition ascii_lowercase :: "char \<Rightarrow> char" where
  "ascii_lowercase c =
     (let n = (of_char c :: nat) in if 65 \<le> n \<and> n \<le> 90 then char_of (n + 32) else c)"

text \<open>
  The markup of a field's control before and after the place of its \<^verbatim>\<open>id\<close> attribute:
  the start of the tag with the name, and the remaining attributes with the end of
  the tag.
\<close>

definition control_start :: "element \<Rightarrow> string" where
  \<open>control_start e =
     (if el_type e = ''textarea'' then ''    <textarea''
      else ''    <input type="'' @ replace_first ''-input'' [] (el_type e) @ ''"'')
     @ (if truthy (el_name e) then '' name="'' @ or_default (el_name e) [] @ ''"'' else [])\<close>

definition control_end :: "element \<Rightarrow> string" where
  \<open>control_end e =
     (if el_required e = Some True then '' required'' else [])
     @ (if truthy (el_placeholder e)
        then '' placeholder="'' @ or_default (el_placeholder e) [] @ ''"'' else [])
     @ (if el_type e = ''textarea'' then ''></textarea>\<newline>'' else ''>\<newline>'')\<close>

section \<open>The renderer groups list items\<close>

lemma render_unknown:
  "\<not> recognized e \<Longrightarrow>
     render_element s e = s\<lparr>warnings := warnings s @ [''Unknown element type: '' @ el_type e]\<rparr>"
  by (simp add: recognized_def render_element_def element_types_def input_types_def)

lemma render_item: "is_item e \<Longrightarrow> render_element s e = emit (open_list s) (item_markup e)"
  by (simp add: is_item_def render_element_def input_types_def)

lemma render_other:
  "recognized e \<Longrightarrow> \<not> is_item e \<Longrightarrow> render_element s e = emit (close_list s) (markup e)"
  by (auto simp add: recognized_def is_item_def render_element_def element_types_def
      input_types_def markup_def)

lemma groups_item:
  "is_item e \<Longrightarrow>
     concat (map render_group (groups (e # es))) = ul_open # item_markup e # open_tail (groups es)"
  by (cases "groups es" rule: open_tail.cases) simp_all

lemma open_tail_item:
  "is_item e \<Longrightarrow> open_tail (groups (e # es)) = item_markup e # open_tail (groups es)"
  by (cases "groups es" rule: open_tail.cases) simp_all

text \<open>
  The loop from any state, followed by the closing of a list left open: the markup
  of the groups of the recognized elements; the first run continues an open list.
\<close>

lemma fold_groups:
  "html (close_list (foldl render_element s es)) =
     html s @ (if inList s then open_tail (groups (filter recognized es))
               else concat (map render_group (groups (filter recognized es))))"
proof (induction es arbitrary: s)
  case Nil
  show ?case by (simp add: close_list_def)
next
  case (Cons e es)
  show ?case
  proof (cases "recognized e")
    case False
    then show ?thesis
      using Cons.IH [of "render_element s e"] by (simp add: render_unknown)
  next
    case True
    show ?thesis
    proof (cases "is_item e")
      case it: True
      show ?thesis
        using Cons.IH [of "render_element s e"] True it
        by (simp add: render_item emit_def open_list_def groups_item open_tail_item
            del: groups.simps)
    next
      case ot: False
      show ?thesis
        using Cons.IH [of "render_element s e"] True ot
        by (simp add: render_other emit_def close_list_def)
    qed
  qed
qed

lemma render_run_groups:
  "html (render_run ui) =
     form_open # concat (map render_group (groups (filter recognized (elements ui))))
       @ [form_close]"
  using fold_groups [of "\<lparr>html = [form_open], inList = False, warnings = []\<rparr>" "elements ui"]
  by (cases "elements ui = []") (simp_all add: render_run_def Let_def emit_def close_list_def)

lemma groups_members: "concat (map members (groups es)) = es"
proof (induction es)
  case Nil
  show ?case by simp
next
  case (Cons e es)
  then show ?case
    by (cases "groups es" rule: open_tail.cases) (auto split: if_splits)
qed

lemma groups_ok: "list_all group_ok (groups es)"
proof (induction es)
  case Nil
  show ?case by simp
next
  case (Cons e es)
  then show ?case
    by (cases "groups es" rule: open_tail.cases) auto
qed

lemma groups_separated: "separated (groups es)"
proof (induction es)
  case Nil
  show ?case by simp
next
  case (Cons e es)
  then show ?case
    by (cases "groups es" rule: open_tail.cases) (auto split: list.splits)
qed

text \<open>No markup of an element is the opening or the closing tag of a list.\<close>

lemma markup_not_ul: "markup e \<noteq> ul_open" "markup e \<noteq> ul_close"
  by (simp_all add: markup_def header_markup_def item_markup_def button_markup_def
      field_markup_def ul_open_def ul_close_def)

lemma item_markup_not_ul: "item_markup e \<noteq> ul_open" "item_markup e \<noteq> ul_close"
  by (simp_all add: item_markup_def ul_open_def ul_close_def)

lemma form_not_ul:
  "form_open \<noteq> ul_open" "form_open \<noteq> ul_close" "form_close \<noteq> ul_open"
  "form_close \<noteq> ul_close" "ul_open \<noteq> ul_close"
  by (simp_all add: form_open_def form_close_def ul_open_def ul_close_def)

lemma count_group_open: "count_list (render_group g) ul_open = (if isl g then 1 else 0)"
proof (cases g)
  case (Inl bs)
  have "count_list (map item_markup bs) ul_open = 0"
    by (induction bs) (simp_all add: item_markup_not_ul)
  with Inl show ?thesis using form_not_ul by simp
next
  case (Inr e)
  then show ?thesis using markup_not_ul by simp
qed

lemma count_group_close: "count_list (render_group g) ul_close = (if isl g then 1 else 0)"
proof (cases g)
  case (Inl bs)
  have "count_list (map item_markup bs) ul_close = 0"
    by (induction bs) (simp_all add: item_markup_not_ul)
  with Inl show ?thesis using form_not_ul by simp
next
  case (Inr e)
  then show ?thesis using markup_not_ul by simp
qed

lemma count_groups_balanced:
  "count_list (concat (map render_group gs)) ul_open
     = count_list (concat (map render_group gs)) ul_close"
  by (induction gs) (simp_all add: count_group_open count_group_close del: render_group.simps)

lemma fold_warnings:
  "warnings (foldl render_element s es) = warnings s @ map notice (filter (\<lambda>e. \<not> recognized e) es)"
proof (induction es arbitrary: s)
  case Nil
  show ?case by simp
next
  case (Cons e es)
  show ?case
  proof (cases "recognized e")
    case False
    then show ?thesis using Cons.IH [of "render_element s e"]
      by (simp add: render_unknown notice_def)
  next
    case True
    then show ?thesis using Cons.IH [of "render_element s e"]
      by (cases "is_item e")
        (simp_all add: render_item render_other emit_def close_list_def open_list_def)
  qed
qed

lemma render_run_warnings:
  "warnings (render_run ui) = map notice (filter (\<lambda>e. \<not> recognized e) (elements ui))"
  using fold_warnings [of "\<lparr>html = [form_open], inList = False, warnings = []\<rparr>" "elements ui"]
  by (cases "elements ui = []") (simp_all add: render_run_def Let_def emit_def close_list_def)

lemma item_markup_is_markup: "is_item e \<Longrightarrow> item_markup e = markup e"
  by (simp add: is_item_def markup_def)

lemma filter_group:
  "group_ok g \<Longrightarrow>
     filter (\<lambda>c. c \<noteq> ul_open \<and> c \<noteq> ul_close) (render_group g) = map markup (members g)"
proof (cases g)
  case (Inl bs)
  assume "group_ok g"
  with Inl have "list_all is_item bs" by simp
  then have "filter (\<lambda>c. c \<noteq> ul_open \<and> c \<noteq> ul_close) (map item_markup bs) = map markup bs"
    by (induction bs) (simp_all add: markup_not_ul item_markup_is_markup)
  with Inl show ?thesis by simp
next
  case (Inr e)
  then show ?thesis by (simp add: markup_not_ul)
qed

lemma filter_groups:
  "list_all group_ok gs \<Longrightarrow>
     filter (\<lambda>c. c \<noteq> ul_open \<and> c \<noteq> ul_close) (concat (map render_group gs))
       = map markup (concat (map members gs))"
  by (induction gs) (simp_all add: filter_group del: render_group.simps)

lemma render_run_order:
  "filter (\<lambda>c. c \<noteq> ul_open \<and> c \<noteq> ul_close) (html (render_run ui))
     = form_open # map markup (filter recognized (elements ui)) @ [form_close]"
  using filter_groups [OF groups_ok, of "filter recognized (elements ui)"] form_not_ul
  by (simp add: render_run_groups groups_members)

lemma render_run_elements:
  "elements ui = elements ui' \<Longrightarrow> render_run ui = render_run ui'"
  by (simp add: render_run_def cong: if_cong)

section \<open>The brace span\<close>

lemma indexOf_ge: "- 1 \<le> indexOf s c"
  by (induction s) (simp_all add: Let_def)

lemma indexOf_none: "indexOf s c = - 1 \<longleftrightarrow> c \<notin> set s"
proof (induction s)
  case Nil
  show ?case by simp
next
  case (Cons x xs)
  then show ?case using indexOf_ge [of xs c] by (auto simp: Let_def)
qed

lemma lastIndexOf_ge: "- 1 \<le> lastIndexOf s c"
  by (induction s) (simp_all add: Let_def)

lemma lastIndexOf_none: "lastIndexOf s c = - 1 \<longleftrightarrow> c \<notin> set s"
proof (induction s)
  case Nil
  show ?case by simp
next
  case (Cons x xs)
  then show ?case using lastIndexOf_ge [of xs c] by (auto simp: Let_def)
qed

lemma indexOf_found:
  "indexOf s c = int i \<Longrightarrow> i < length s \<and> s ! i = c \<and> c \<notin> set (take i s)"
proof (induction s arbitrary: i)
  case Nil
  then show ?case by simp
next
  case (Cons x xs)
  show ?case
  proof (cases "x = c")
    case True
    with Cons.prems show ?thesis by simp
  next
    case False
    with Cons.prems have ne: "indexOf xs c \<noteq> - 1" and eq: "indexOf xs c + 1 = int i"
      by (auto simp: Let_def split: if_splits)
    with indexOf_ge [of xs c] obtain j where j: "i = Suc j" "indexOf xs c = int j"
      by (cases i) auto
    from Cons.IH [OF j(2)] j(1) False show ?thesis by simp
  qed
qed

lemma lastIndexOf_found:
  "lastIndexOf s c = int i \<Longrightarrow> i < length s \<and> s ! i = c \<and> c \<notin> set (drop (Suc i) s)"
proof (induction s arbitrary: i)
  case Nil
  then show ?case by simp
next
  case (Cons x xs)
  show ?case
  proof (cases "lastIndexOf xs c = - 1")
    case True
    with Cons.prems have "x = c" "i = 0" by (auto simp: Let_def split: if_splits)
    with True show ?thesis by (simp add: lastIndexOf_none)
  next
    case False
    with Cons.prems have eq: "lastIndexOf xs c + 1 = int i"
      by (auto simp: Let_def split: if_splits)
    with False lastIndexOf_ge [of xs c] obtain j where j: "i = Suc j" "lastIndexOf xs c = int j"
      by (cases i) auto
    from Cons.IH [OF j(2)] j(1) show ?thesis by simp
  qed
qed

lemma json_slice_Some:
  assumes "json_slice raw = Some cand"
  shows "\<exists>pre post. raw = pre @ cand @ post \<and> CHR ''{'' \<notin> set pre \<and> CHR ''}'' \<notin> set post
           \<and> hd cand = CHR ''{'' \<and> last cand = CHR ''}'' \<and> 2 \<le> length cand
           \<and> indexOf raw CHR ''{'' = int (length pre)
           \<and> lastIndexOf raw CHR ''}'' = int (length pre + length cand) - 1"
proof -
  define a where "a = indexOf raw CHR ''{''"
  define b where "b = lastIndexOf raw CHR ''}''"
  from assms have ab: "a \<noteq> - 1" "b \<noteq> - 1" "a < b"
    and cand: "cand = substring raw a (b + 1)"
    by (auto simp: json_slice_def Let_def a_def b_def split: if_splits)
  from ab(1) indexOf_ge [of raw "CHR ''{''"] obtain i where ai: "a = int i"
    unfolding a_def by (cases "indexOf raw CHR ''{''") auto
  from ab(2) lastIndexOf_ge [of raw "CHR ''}''"] obtain j where bj: "b = int j"
    unfolding b_def by (cases "lastIndexOf raw CHR ''}''") auto
  from indexOf_found [of raw "CHR ''{''" i] ai
  have i: "i < length raw" "raw ! i = CHR ''{''" "CHR ''{'' \<notin> set (take i raw)"
    by (simp_all add: a_def)
  from lastIndexOf_found [of raw "CHR ''}''" j] bj
  have j: "j < length raw" "raw ! j = CHR ''}''" "CHR ''}'' \<notin> set (drop (Suc j) raw)"
    by (simp_all add: b_def)
  from ab ai bj have lt: "i < j" by simp
  have c: "cand = take (Suc j - i) (drop i raw)"
    using cand ai bj lt j(1)
    by (simp add: substring_def clamp_index_def Let_def min_def max_def nat_add_distrib)
  have "take (Suc j) raw = take (i + (Suc j - i)) raw"
    using lt by simp
  also have "\<dots> = take i raw @ take (Suc j - i) (drop i raw)"
    by (rule take_add)
  finally have "take (Suc j) raw = take i raw @ cand"
    using c by simp
  then have split: "raw = take i raw @ cand @ drop (Suc j) raw"
    by (metis append.assoc append_take_drop_id)
  have len: "length cand = Suc j - i" using c j(1) lt by simp
  have hd: "hd cand = CHR ''{''"
    using c i lt by (simp add: hd_drop_conv_nth)
  have "cand ! (j - i) = raw ! j"
    using c lt j(1) by simp
  moreover have "last cand = cand ! (length cand - 1)"
    using len lt by (intro last_conv_nth) auto
  ultimately have lst: "last cand = CHR ''}''"
    using len lt j(2) by simp
  show ?thesis
    apply (rule exI [of _ "take i raw"], rule exI [of _ "drop (Suc j) raw"])
    using split i j hd lst len lt ai bj by (auto simp: a_def b_def)
qed
lemma json_slice_None: "json_slice raw = None \<longleftrightarrow> no_json_span raw"
  by (auto simp: json_slice_def no_json_span_def Let_def indexOf_none lastIndexOf_none)

lemma indexOf_append:
  "indexOf (xs @ ys) c =
     (if c \<in> set xs then indexOf xs c
      else if c \<in> set ys then int (length xs) + indexOf ys c else - 1)"
proof (induction xs)
  case Nil
  show ?case by (simp add: indexOf_none)
next
  case (Cons x xs)
  have "c \<in> set ys \<Longrightarrow> 0 \<le> indexOf ys c"
    using indexOf_ge [of ys c] indexOf_none [of ys c] by (cases "indexOf ys c = - 1") auto
  with Cons show ?case by (auto simp: Let_def indexOf_none)
qed

lemma lastIndexOf_append:
  "lastIndexOf (xs @ ys) c =
     (if c \<in> set ys then int (length xs) + lastIndexOf ys c else lastIndexOf xs c)"
proof (induction xs)
  case Nil
  show ?case by (simp add: lastIndexOf_none)
next
  case (Cons x xs)
  have "c \<in> set ys \<Longrightarrow> 0 \<le> lastIndexOf ys c"
    using lastIndexOf_ge [of ys c] lastIndexOf_none [of ys c]
    by (cases "lastIndexOf ys c = - 1") auto
  with Cons show ?case by (auto simp: Let_def lastIndexOf_none)
qed

lemma no_json_span_padding:
  assumes "CHR ''{'' \<notin> set pre" "CHR ''}'' \<notin> set pre" "CHR ''{'' \<notin> set post" "CHR ''}'' \<notin> set post"
  shows "no_json_span (pre @ m @ post) \<longleftrightarrow> no_json_span m"
  using assms
  by (auto simp: no_json_span_def indexOf_append lastIndexOf_append indexOf_none lastIndexOf_none)

lemma strip_prefix_append: "strip_prefix w s = Some r \<Longrightarrow> s = w @ r"
  by (induction w s rule: strip_prefix.induct) (auto split: if_splits)

lemma first_match_append: "first_match ws s = Some r \<Longrightarrow> \<exists>w \<in> set ws. s = w @ r"
  by (induction ws) (auto split: option.splits dest: strip_prefix_append)

lemma whitespace_no_brace:
  "w \<in> set js_whitespace \<Longrightarrow> CHR ''{'' \<notin> set w \<and> CHR ''}'' \<notin> set w"
  by (auto simp: js_whitespace_def)

lemma trimStart_append:
  "\<exists>pre. s = pre @ trimStart s \<and> CHR ''{'' \<notin> set pre \<and> CHR ''}'' \<notin> set pre"
proof (induction s rule: trimStart.induct)
  case (1 s)
  show ?case
  proof (cases "drop_ws s")
    case None
    then show ?thesis by (simp add: trimStart.simps [of s])
  next
    case (Some r)
    then obtain w where w: "w \<in> set js_whitespace" "s = w @ r"
      unfolding drop_ws_def by (blast dest: first_match_append)
    from "1.IH" [OF Some] obtain pre where
      pre: "r = pre @ trimStart r" "CHR ''{'' \<notin> set pre" "CHR ''}'' \<notin> set pre"
      by blast
    have "trimStart s = trimStart r"
      using Some by (simp add: trimStart.simps [of s])
    with w(2) pre(1) have "s = (w @ pre) @ trimStart s"
      by (metis append.assoc)
    moreover have "CHR ''{'' \<notin> set (w @ pre)" "CHR ''}'' \<notin> set (w @ pre)"
      using whitespace_no_brace [OF w(1)] pre(2,3) by simp_all
    ultimately show ?thesis by blast
  qed
qed

lemma trimStart_rev_append:
  "\<exists>pre. s = pre @ trimStart_rev s \<and> CHR ''{'' \<notin> set pre \<and> CHR ''}'' \<notin> set pre"
proof (induction s rule: trimStart_rev.induct)
  case (1 s)
  show ?case
  proof (cases "drop_ws_end s")
    case None
    then show ?thesis by (simp add: trimStart_rev.simps [of s])
  next
    case (Some r)
    then obtain w where w: "w \<in> set js_whitespace" "s = rev w @ r"
      unfolding drop_ws_end_def by (auto dest!: first_match_append)
    from "1.IH" [OF Some] obtain pre where
      pre: "r = pre @ trimStart_rev r" "CHR ''{'' \<notin> set pre" "CHR ''}'' \<notin> set pre"
      by blast
    have "trimStart_rev s = trimStart_rev r"
      using Some by (simp add: trimStart_rev.simps [of s])
    with w(2) pre(1) have "s = (rev w @ pre) @ trimStart_rev s"
      by (metis append.assoc)
    moreover have "CHR ''{'' \<notin> set (rev w @ pre)" "CHR ''}'' \<notin> set (rev w @ pre)"
      using whitespace_no_brace [OF w(1)] pre(2,3) by simp_all
    ultimately show ?thesis by blast
  qed
qed

lemma trim_append:
  "\<exists>pre post. s = pre @ trim s @ post \<and> CHR ''{'' \<notin> set pre \<and> CHR ''}'' \<notin> set pre
     \<and> CHR ''{'' \<notin> set post \<and> CHR ''}'' \<notin> set post"
proof -
  obtain pre where pre: "s = pre @ trimStart s" "CHR ''{'' \<notin> set pre" "CHR ''}'' \<notin> set pre"
    using trimStart_append [of s] by blast
  obtain q where q: "rev (trimStart s) = q @ trimStart_rev (rev (trimStart s))"
    "CHR ''{'' \<notin> set q" "CHR ''}'' \<notin> set q"
    using trimStart_rev_append [of "rev (trimStart s)"] by blast
  from q(1) have "trimStart s = trim s @ rev q"
    by (metis rev_append rev_rev_ident trim_def)
  with pre(1) have "s = pre @ trim s @ rev q" by simp
  with pre(2,3) q(2,3) show ?thesis
    by (intro exI [of _ pre] exI [of _ "rev q"]) simp
qed

lemma no_json_span_trim: "no_json_span (trim s) \<longleftrightarrow> no_json_span s"
proof -
  obtain pre post where "s = pre @ trim s @ post" "CHR ''{'' \<notin> set pre" "CHR ''}'' \<notin> set pre"
    "CHR ''{'' \<notin> set post" "CHR ''}'' \<notin> set post"
    using trim_append [of s] by blast
  then show ?thesis using no_json_span_padding [of pre post "trim s"] by simp
qed

lemma optional_text_first_part:
  "optional_text response = Some raw \<Longrightarrow> \<exists>pt. first_part response = Some pt \<and> part_text pt = Some raw"
  by (auto simp: optional_text_def split: option.splits)

lemma chained_body_text:
  "optional_text response = Some raw \<Longrightarrow> raw \<noteq> [] \<Longrightarrow>
     chained_body schema (Responds response) = extractAndValidate schema raw"
  by (simp add: chained_body_def)

lemma checked_body_text:
  "optional_text response = Some raw \<Longrightarrow>
     checked_body schema (Responds response) = extractAndValidate schema (trim raw)"
  by (auto simp: checked_body_def dest!: optional_text_first_part)

lemma extract_no_span:
  "no_json_span raw \<Longrightarrow> extractAndValidate schema raw = ([NoJsonObject raw], Returned None)"
  by (simp add: extractAndValidate_def json_slice_None [symmetric])

section \<open>Validation\<close>

lemma zparse_shape_map:
  "zparse_shape sh p fs = map (\<lambda>(k, t). (k, zparse t (p @ [Key k]) (map_of fs k))) sh"
  by (induction sh) auto

lemma zparse_items_map:
  "zparse_items t p n xs = map (\<lambda>(i, x). zparse t (p @ [Idx i]) (Some x)) (enumerate n xs)"
  by (induction xs arbitrary: n) auto

lemma zparse_issues_nonempty: "zparse t p v = Inl iss \<Longrightarrow> iss \<noteq> []"
proof (induction t arbitrary: p v)
  case (ZArray t)
  then show ?case
    by (auto simp: Let_def simp del: concat_eq_Nil_conv split: option.splits if_splits)
next
  case (ZObject sh)
  then show ?case
    by (auto simp: Let_def simp del: concat_eq_Nil_conv split: option.splits if_splits)
qed (auto simp: zod_string_def zod_boolean_def zod_enum_def zod_literal_def
      split: option.splits json.splits if_splits)

lemma zparse_undefined: "zparse t p None = Inr r \<Longrightarrow> r = None"
  by (induction t arbitrary: p)
    (auto simp: zod_string_def zod_boolean_def zod_enum_def zod_literal_def Let_def
      split: option.splits json.splits if_splits)

lemma zparse_defined: "zparse t p (Some v) = Inr r \<Longrightarrow> \<exists>w. r = Some w"
  by (induction t arbitrary: p)
    (auto simp: zod_string_def zod_boolean_def zod_enum_def zod_literal_def Let_def
      split: option.splits json.splits if_splits)

lemma issues_of_empty: "issues_of (zparse t p v) = [] \<longleftrightarrow> \<not> isl (zparse t p v)"
  by (cases "zparse t p v") (auto dest: zparse_issues_nonempty)

lemma zparse_object_Inr:
  "zparse (ZObject sh) p v = Inr r \<longleftrightarrow>
     (\<exists>fs. v = Some (JObject fs)
        \<and> (\<forall>(k, t) \<in> set sh. \<not> isl (zparse t (p @ [Key k]) (map_of fs k)))
        \<and> r = Some (JObject (List.map_filter
              (\<lambda>(k, t). map_option (Pair k) (value_of (zparse t (p @ [Key k]) (map_of fs k)))) sh)))"
proof (cases "as_object v")
  case None
  then show ?thesis by (cases v rule: as_object.cases) auto
next
  case (Some fs)
  then have v: "v = Some (JObject fs)" by (cases v rule: as_object.cases) auto
  have a: "concat (map (issues_of \<circ> snd) (zparse_shape sh p fs)) = [] \<longleftrightarrow>
      (\<forall>(k, t) \<in> set sh. \<not> isl (zparse t (p @ [Key k]) (map_of fs k)))"
    by (auto simp: zparse_shape_map issues_of_empty)
  have b: "List.map_filter (\<lambda>(k, r). map_option (Pair k) (value_of r)) (zparse_shape sh p fs)
      = List.map_filter
          (\<lambda>(k, t). map_option (Pair k) (value_of (zparse t (p @ [Key k]) (map_of fs k)))) sh"
    by (induction sh) (auto split: option.splits)
  show ?thesis
    using a b v by (auto simp: Let_def simp del: concat_eq_Nil_conv)
qed

lemma zparse_object_Inl:
  "zparse (ZObject sh) p (Some (JObject fs)) = Inl iss \<longleftrightarrow>
     iss \<noteq> [] \<and> iss = concat (map (\<lambda>(k, t). issues_of (zparse t (p @ [Key k]) (map_of fs k))) sh)"
proof -
  have "map (issues_of \<circ> snd) (zparse_shape sh p fs)
      = map (\<lambda>(k, t). issues_of (zparse t (p @ [Key k]) (map_of fs k))) sh"
    by (induction sh) auto
  then show ?thesis
    by (auto simp: Let_def simp del: concat_eq_Nil_conv)
qed

lemma zparse_array_Inr:
  "zparse (ZArray t) p v = Inr r \<longleftrightarrow>
     (\<exists>xs. v = Some (JArray xs)
        \<and> (\<forall>(i, x) \<in> set (enumerate 0 xs). \<not> isl (zparse t (p @ [Idx i]) (Some x)))
        \<and> r = Some (JArray (List.map_filter
              (\<lambda>(i, x). value_of (zparse t (p @ [Idx i]) (Some x))) (enumerate 0 xs))))"
proof (cases "as_array v")
  case None
  then show ?thesis by (cases v rule: as_array.cases) auto
next
  case (Some xs)
  then have v: "v = Some (JArray xs)" by (cases v rule: as_array.cases) auto
  have a: "concat (map issues_of (zparse_items t p 0 xs)) = [] \<longleftrightarrow>
      (\<forall>(i, x) \<in> set (enumerate 0 xs). \<not> isl (zparse t (p @ [Idx i]) (Some x)))"
    by (auto simp: zparse_items_map issues_of_empty)
  have b: "List.map_filter value_of (zparse_items t p n xs)
      = List.map_filter (\<lambda>(i, x). value_of (zparse t (p @ [Idx i]) (Some x))) (enumerate n xs)" for n
    by (induction xs arbitrary: n) (auto split: option.splits)
  show ?thesis
    using a b [of 0] v by (auto simp: Let_def simp del: concat_eq_Nil_conv)
qed

lemma zparse_array_Inl:
  "zparse (ZArray t) p (Some (JArray xs)) = Inl iss \<longleftrightarrow>
     iss \<noteq> [] \<and> iss = concat (map (\<lambda>(i, x). issues_of (zparse t (p @ [Idx i]) (Some x))) (enumerate 0 xs))"
proof -
  have "map issues_of (zparse_items t p n xs)
      = map (\<lambda>(i, x). issues_of (zparse t (p @ [Idx i]) (Some x))) (enumerate n xs)" for n
    by (induction xs arbitrary: n) auto
  from this [of 0] show ?thesis
    by (auto simp: Let_def simp del: concat_eq_Nil_conv)
qed
lemma strip_null: "strip_undeclared t JNull = JNull"
  by (induction t) auto

lemma strip_shape_eq:
  assumes "\<And>k t. (k, t) \<in> set sh \<Longrightarrow> \<not> isl (zparse t (p @ [Key k]) (map_of fs k))"
    and "\<And>k t w r. (k, t) \<in> set sh \<Longrightarrow> zparse t (p @ [Key k]) (Some w) = Inr (Some r)
           \<Longrightarrow> r = strip_undeclared t w"
  shows "List.map_filter
           (\<lambda>(k, t). map_option (Pair k) (value_of (zparse t (p @ [Key k]) (map_of fs k)))) sh
         = strip_shape sh fs"
  using assms
proof (induction sh)
  case Nil
  show ?case by simp
next
  case (Cons kt sh)
  obtain k t where kt: "kt = (k, t)" by (cases kt)
  have rest: "List.map_filter
           (\<lambda>(k, t). map_option (Pair k) (value_of (zparse t (p @ [Key k]) (map_of fs k)))) sh
         = strip_shape sh fs"
  proof (rule Cons.IH)
    fix k t
    assume "(k, t) \<in> set sh"
    then show "\<not> isl (zparse t (p @ [Key k]) (map_of fs k))"
      using Cons.prems(1) [of k t] by simp
  next
    fix k t w r
    assume "(k, t) \<in> set sh" "zparse t (p @ [Key k]) (Some w) = Inr (Some r)"
    then show "r = strip_undeclared t w"
      using Cons.prems(2) [of k t w r] by simp
  qed
  from Cons.prems(1) [of k t] kt obtain rr where rr: "zparse t (p @ [Key k]) (map_of fs k) = Inr rr"
    by (cases "zparse t (p @ [Key k]) (map_of fs k)") auto
  show ?case
  proof (cases "map_of fs k")
    case None
    with rr zparse_undefined [of t "p @ [Key k]" rr] have "rr = None" by simp
    with rr rest kt None show ?thesis by simp
  next
    case (Some w)
    with rr zparse_defined [of t "p @ [Key k]" w rr] obtain r where r: "rr = Some r" by auto
    with rr Some Cons.prems(2) [of k t w r] kt have "r = strip_undeclared t w" by simp
    with rr r rest kt Some show ?thesis by simp
  qed
qed

lemma strip_items_eq:
  assumes "\<And>i x. (i, x) \<in> set (enumerate n xs) \<Longrightarrow> \<not> isl (zparse t (p @ [Idx i]) (Some x))"
    and "\<And>q w r. zparse t q (Some w) = Inr (Some r) \<Longrightarrow> r = strip_undeclared t w"
  shows "List.map_filter (\<lambda>(i, x). value_of (zparse t (p @ [Idx i]) (Some x))) (enumerate n xs)
         = map (strip_undeclared t) xs"
  using assms(1)
proof (induction xs arbitrary: n)
  case Nil
  show ?case by simp
next
  case (Cons x xs)
  have rest: "List.map_filter (\<lambda>(i, x). value_of (zparse t (p @ [Idx i]) (Some x)))
      (enumerate (Suc n) xs) = map (strip_undeclared t) xs"
  proof (rule Cons.IH)
    fix i y
    assume "(i, y) \<in> set (enumerate (Suc n) xs)"
    then show "\<not> isl (zparse t (p @ [Idx i]) (Some y))"
      using Cons.prems [of i y] by simp
  qed
  from Cons.prems [of n x] obtain rr where rr: "zparse t (p @ [Idx n]) (Some x) = Inr rr"
    by (cases "zparse t (p @ [Idx n]) (Some x)") auto
  with zparse_defined obtain r where r: "rr = Some r" by blast
  with rr assms(2) have "r = strip_undeclared t x" by blast
  with rr r rest show ?case by simp
qed

lemma zparse_strips:
  "zparse t p (Some v) = Inr (Some r) \<Longrightarrow> r = strip_undeclared t v"
proof (induction t arbitrary: p v r)
  case ZString
  then show ?case by (auto simp: zod_string_def split: json.splits)
next
  case ZBoolean
  then show ?case by (auto simp: zod_boolean_def split: json.splits)
next
  case (ZEnum vs)
  then show ?case by (auto simp: zod_enum_def split: json.splits if_splits)
next
  case (ZLiteral l)
  then show ?case by (auto simp: zod_literal_def split: if_splits)
next
  case (ZArray t)
  from ZArray.prems obtain xs where xs: "v = JArray xs"
    and ok: "\<forall>(i, x) \<in> set (enumerate 0 xs). \<not> isl (zparse t (p @ [Idx i]) (Some x))"
    and r: "r = JArray (List.map_filter
              (\<lambda>(i, x). value_of (zparse t (p @ [Idx i]) (Some x))) (enumerate 0 xs))"
    unfolding zparse_array_Inr by auto
  have "List.map_filter (\<lambda>(i, x). value_of (zparse t (p @ [Idx i]) (Some x))) (enumerate 0 xs)
         = map (strip_undeclared t) xs"
    using ok by (intro strip_items_eq ZArray.IH) auto
  with xs r show ?case by simp
next
  case (ZObject sh)
  from ZObject.prems obtain fs where fs: "v = JObject fs"
    and ok: "\<forall>(k, t) \<in> set sh. \<not> isl (zparse t (p @ [Key k]) (map_of fs k))"
    and r: "r = JObject (List.map_filter
              (\<lambda>(k, t). map_option (Pair k) (value_of (zparse t (p @ [Key k]) (map_of fs k)))) sh)"
    unfolding zparse_object_Inr by auto
  have "List.map_filter
           (\<lambda>(k, t). map_option (Pair k) (value_of (zparse t (p @ [Key k]) (map_of fs k)))) sh
         = strip_shape sh fs"
  proof (rule strip_shape_eq)
    fix k t
    assume "(k, t) \<in> set sh"
    with ok show "\<not> isl (zparse t (p @ [Key k]) (map_of fs k))" by auto
  next
    fix k t w r
    assume "(k, t) \<in> set sh" "zparse t (p @ [Key k]) (Some w) = Inr (Some r)"
    then show "r = strip_undeclared t w"
      using ZObject.IH [of "(k, t)" t "p @ [Key k]" w r] by simp
  qed
  with fs r show ?case by simp
next
  case (ZNullable t)
  then show ?case by (cases "v = JNull") (auto simp: strip_null)
next
  case (ZOptional t)
  then show ?case by auto
qed

lemma set_map_filter_conv: "set (List.map_filter f xs) = {y. \<exists>x \<in> set xs. f x = Some y}"
  by (induction xs) (auto split: option.splits)

lemma deep_eq_items:
  assumes "\<And>i x. (i, x) \<in> set (enumerate n xs) \<Longrightarrow> \<not> isl (zparse t (p @ [Idx i]) (Some x))"
    and "\<And>q w r. zparse t q (Some w) = Inr (Some r) \<Longrightarrow> only_declared t w \<Longrightarrow> deep_eq r w"
    and "list_all (only_declared t) xs"
  shows "deep_eq_list
           (List.map_filter (\<lambda>(i, x). value_of (zparse t (p @ [Idx i]) (Some x))) (enumerate n xs))
           xs"
  using assms(1,3)
proof (induction xs arbitrary: n)
  case Nil
  show ?case by simp
next
  case (Cons x xs)
  have rest: "deep_eq_list
      (List.map_filter (\<lambda>(i, x). value_of (zparse t (p @ [Idx i]) (Some x))) (enumerate (Suc n) xs))
      xs"
  proof (rule Cons.IH)
    fix i y
    assume "(i, y) \<in> set (enumerate (Suc n) xs)"
    then show "\<not> isl (zparse t (p @ [Idx i]) (Some y))"
      using Cons.prems(1) [of i y] by simp
  next
    show "list_all (only_declared t) xs" using Cons.prems(2) by simp
  qed
  from Cons.prems(1) [of n x] obtain rr where rr: "zparse t (p @ [Idx n]) (Some x) = Inr rr"
    by (cases "zparse t (p @ [Idx n]) (Some x)") auto
  with zparse_defined obtain r where r: "rr = Some r" by blast
  with rr assms(2) Cons.prems(2) have "deep_eq r x" by simp
  with rr r rest show ?case by simp
qed

lemma zparse_deep_eq:
  "zparse t p (Some v) = Inr (Some r) \<Longrightarrow> only_declared t v \<Longrightarrow> deep_eq r v"
proof (induction t arbitrary: p v r)
  case ZString
  then show ?case by (auto simp: zod_string_def split: json.splits)
next
  case ZBoolean
  then show ?case by (auto simp: zod_boolean_def split: json.splits)
next
  case (ZEnum vs)
  then show ?case by (auto simp: zod_enum_def split: json.splits if_splits)
next
  case (ZLiteral l)
  then show ?case by (auto simp: zod_literal_def split: if_splits)
next
  case (ZArray t)
  from ZArray.prems(1) obtain xs where xs: "v = JArray xs"
    and ok: "\<forall>(i, x) \<in> set (enumerate 0 xs). \<not> isl (zparse t (p @ [Idx i]) (Some x))"
    and r: "r = JArray (List.map_filter
              (\<lambda>(i, x). value_of (zparse t (p @ [Idx i]) (Some x))) (enumerate 0 xs))"
    unfolding zparse_array_Inr by auto
  have "deep_eq_list
      (List.map_filter (\<lambda>(i, x). value_of (zparse t (p @ [Idx i]) (Some x))) (enumerate 0 xs)) xs"
  proof (rule deep_eq_items)
    fix i x
    assume "(i, x) \<in> set (enumerate 0 xs)"
    with ok show "\<not> isl (zparse t (p @ [Idx i]) (Some x))" by auto
  next
    fix q w r
    assume "zparse t q (Some w) = Inr (Some r)" "only_declared t w"
    then show "deep_eq r w" by (rule ZArray.IH)
  next
    show "list_all (only_declared t) xs" using ZArray.prems(2) xs by simp
  qed
  with xs r show ?case by simp
next
  case (ZObject sh)
  from ZObject.prems(1) obtain fs where fs: "v = JObject fs"
    and ok: "\<forall>(k, t) \<in> set sh. \<not> isl (zparse t (p @ [Key k]) (map_of fs k))"
    and r: "r = JObject (List.map_filter
              (\<lambda>(k, t). map_option (Pair k) (value_of (zparse t (p @ [Key k]) (map_of fs k)))) sh)"
    unfolding zparse_object_Inr by auto
  define rf where "rf = List.map_filter
              (\<lambda>(k, t). map_option (Pair k) (value_of (zparse t (p @ [Key k]) (map_of fs k)))) sh"
  from ZObject.prems(2) fs
  have decl: "\<And>k w. (k, w) \<in> set fs \<Longrightarrow> map_of sh k \<noteq> None"
    and sub: "\<And>k t w. (k, t) \<in> set sh \<Longrightarrow> map_of fs k = Some w \<Longrightarrow> only_declared t w"
    by (auto simp: list_all_iff)
  have mem: "(k, x) \<in> set rf \<longleftrightarrow>
      (\<exists>t. (k, t) \<in> set sh \<and> value_of (zparse t (p @ [Key k]) (map_of fs k)) = Some x)" for k x
    unfolding rf_def by (force simp: set_map_filter_conv)
  have one: "case map_of fs k of None \<Rightarrow> False | Some w \<Rightarrow> deep_eq x w" if "(k, x) \<in> set rf" for k x
  proof -
    from that mem obtain t where t: "(k, t) \<in> set sh"
      and val: "value_of (zparse t (p @ [Key k]) (map_of fs k)) = Some x" by blast
    from val have z: "zparse t (p @ [Key k]) (map_of fs k) = Inr (Some x)"
      by (cases "zparse t (p @ [Key k]) (map_of fs k)") auto
    with zparse_undefined [of t "p @ [Key k]" "Some x"] obtain w where w: "map_of fs k = Some w"
      by (cases "map_of fs k") auto
    from ZObject.IH [of "(k, t)" t "p @ [Key k]" w x] t z w sub [OF t w]
    have "deep_eq x w" by simp
    with w show ?thesis by simp
  qed
  have two: "map_of rf k \<noteq> None" if "(k, w) \<in> set fs" for k w
  proof -
    from decl [OF that] obtain t where t: "(k, t) \<in> set sh"
      by (auto dest: map_of_SomeD)
    from that obtain w' where w': "map_of fs k = Some w'"
      by (cases "map_of fs k") (auto simp: map_of_eq_None_iff intro: rev_image_eqI)
    from ok t obtain rr where rr: "zparse t (p @ [Key k]) (map_of fs k) = Inr rr"
      by (cases "zparse t (p @ [Key k]) (map_of fs k)") auto
    with w' zparse_defined [of t "p @ [Key k]" w' rr] obtain x where "rr = Some x" by auto
    with rr t mem have "(k, x) \<in> set rf" by auto
    then show ?thesis
      by (auto simp: map_of_eq_None_iff intro: rev_image_eqI)
  qed
  from one two have "deep_eq (JObject rf) (JObject fs)"
    by (auto simp: list_all_iff)
  with fs r show ?case by (simp add: rf_def)
next
  case (ZNullable t)
  then show ?case by (cases "v = JNull") auto
next
  case (ZOptional t)
  then show ?case by auto
qed

lemma field_issue_reported:
  assumes "(k, t) \<in> set sh" and "zparse t (p @ [Key k]) (map_of fs k) = Inl isk"
  shows "\<exists>iss. zparse (ZObject sh) p (Some (JObject fs)) = Inl iss \<and> set isk \<subseteq> set iss"
proof -
  let ?iss = "concat (map (\<lambda>(k, t). issues_of (zparse t (p @ [Key k]) (map_of fs k))) sh)"
  from assms have sub: "set isk \<subseteq> set ?iss" by force
  moreover from assms(2) have "isk \<noteq> []" by (rule zparse_issues_nonempty)
  ultimately have "?iss \<noteq> []" by (metis set_empty2 subset_empty)
  then have "zparse (ZObject sh) p (Some (JObject fs)) = Inl ?iss"
    unfolding zparse_object_Inl by simp
  with sub show ?thesis by blast
qed

lemma item_issue_reported:
  assumes "i < length xs" and "zparse t (p @ [Idx i]) (Some (xs ! i)) = Inl isi"
  shows "\<exists>iss. zparse (ZArray t) p (Some (JArray xs)) = Inl iss \<and> set isi \<subseteq> set iss"
proof -
  let ?iss = "concat (map (\<lambda>(i, x). issues_of (zparse t (p @ [Idx i]) (Some x))) (enumerate 0 xs))"
  from assms(1) have "(i, xs ! i) \<in> set (enumerate 0 xs)"
    by (simp add: in_set_enumerate_eq)
  with assms(2) have sub: "set isi \<subseteq> set ?iss" by force
  moreover from assms(2) have "isi \<noteq> []" by (rule zparse_issues_nonempty)
  ultimately have "?iss \<noteq> []" by (metis set_empty2 subset_empty)
  then have "zparse (ZArray t) p (Some (JArray xs)) = Inl ?iss"
    unfolding zparse_array_Inl by simp
  with sub show ?thesis by blast
qed

lemma issue_paths:
  "zparse t p v = Inl iss \<Longrightarrow> (q, c) \<in> set iss \<Longrightarrow> \<exists>r. q = p @ r"
proof (induction t arbitrary: p v iss)
  case (ZArray t)
  show ?case
  proof (cases "as_array v")
    case None
    with ZArray.prems show ?thesis by auto
  next
    case (Some xs)
    then have v: "v = Some (JArray xs)" by (cases v rule: as_array.cases) auto
    from ZArray.prems(1) have "iss = concat (map (\<lambda>(i, x).
        issues_of (zparse t (p @ [Idx i]) (Some x))) (enumerate 0 xs))"
      unfolding v zparse_array_Inl by simp
    with ZArray.prems(2) obtain i x where "(i, x) \<in> set (enumerate 0 xs)"
      "(q, c) \<in> set (issues_of (zparse t (p @ [Idx i]) (Some x)))"
      by auto
    then obtain isi where "zparse t (p @ [Idx i]) (Some x) = Inl isi" "(q, c) \<in> set isi"
      by (cases "zparse t (p @ [Idx i]) (Some x)") auto
    from ZArray.IH [OF this] show ?thesis by auto
  qed
next
  case (ZObject sh)
  show ?case
  proof (cases "as_object v")
    case None
    with ZObject.prems show ?thesis by auto
  next
    case (Some fs)
    then have v: "v = Some (JObject fs)" by (cases v rule: as_object.cases) auto
    from ZObject.prems(1) have "iss = concat (map (\<lambda>(k, t).
        issues_of (zparse t (p @ [Key k]) (map_of fs k))) sh)"
      unfolding v zparse_object_Inl by simp
    with ZObject.prems(2) obtain k t where kt: "(k, t) \<in> set sh"
      "(q, c) \<in> set (issues_of (zparse t (p @ [Key k]) (map_of fs k)))"
      by auto
    then obtain isk where "zparse t (p @ [Key k]) (map_of fs k) = Inl isk" "(q, c) \<in> set isk"
      by (cases "zparse t (p @ [Key k]) (map_of fs k)") auto
    from ZObject.IH [of "(k, t)" t, OF _ _ this] kt(1) show ?thesis by auto
  qed
qed (auto simp: zod_string_def zod_boolean_def zod_enum_def zod_literal_def
      split: option.splits json.splits if_splits)
lemma cv_element_recognized:
  assumes "zparse CVElement p (Some x) = Inr (Some y)"
  shows "recognized (as_element y)"
proof -
  from assms obtain fs where
    ok: "\<not> isl (zparse (ZEnum element_types) (p @ [Key ''type'']) (map_of fs ''type''))"
    and y: "y = JObject (List.map_filter (\<lambda>(k, t).
        map_option (Pair k) (value_of (zparse t (p @ [Key k]) (map_of fs k))))
        [(''type'', ZEnum element_types), (''label'', ZOptional ZString),
         (''name'', ZOptional ZString), (''required'', ZOptional ZBoolean),
         (''placeholder'', ZOptional ZString), (''value'', ZOptional ZString)])"
    unfolding CVElement_def zparse_object_Inr by auto
  from ok obtain s where s: "map_of fs ''type'' = Some (JString s)" "s \<in> set element_types"
    by (auto simp: zod_enum_def split: option.splits json.splits if_splits)
  then have "map_of (json_fields y) ''type'' = Some (JString s)"
    unfolding y by (simp add: zod_enum_def)
  with s(2) show ?thesis
    by (simp add: recognized_def as_element_def get_string_def)
qed

lemma cv_form_recognized:
  assumes "zod_parse CVForm v = Inr (Some r)"
  shows "list_all recognized (elements (as_cvform r))"
proof -
  from assms obtain fs where
    ok1: "\<not> isl (zparse (ZLiteral ''cv-form'') [Key ''type''] (map_of fs ''type''))"
    and ok2: "\<not> isl (zparse (ZArray CVElement) [Key ''elements''] (map_of fs ''elements''))"
    and r: "r = JObject (List.map_filter (\<lambda>(k, t).
        map_option (Pair k) (value_of (zparse t ([] @ [Key k]) (map_of fs k))))
        [(''type'', ZLiteral ''cv-form''), (''elements'', ZArray CVElement)])"
    unfolding CVForm_def zod_parse_def zparse_object_Inr by auto
  from ok1 have t: "map_of fs ''type'' = Some (JString ''cv-form'')"
    by (auto simp: zod_literal_def split: if_splits)
  from ok2 obtain rr where rr: "zparse (ZArray CVElement) [Key ''elements''] (map_of fs ''elements'') = Inr rr"
    by (cases "zparse (ZArray CVElement) [Key ''elements''] (map_of fs ''elements'')") auto
  then obtain xs where ys: "rr = Some (JArray (List.map_filter
      (\<lambda>(i, x). value_of (zparse CVElement ([Key ''elements''] @ [Idx i]) (Some x))) (enumerate 0 xs)))"
    unfolding zparse_array_Inr by auto
  define ys where "ys = List.map_filter
      (\<lambda>(i, x). value_of (zparse CVElement ([Key ''elements''] @ [Idx i]) (Some x))) (enumerate 0 xs)"
  have "r = JObject [(''type'', JString ''cv-form''), (''elements'', JArray ys)]"
    unfolding r ys_def using t rr ys by (simp add: zod_literal_def)
  then have el: "elements (as_cvform r) = map as_element ys"
    by (simp add: as_cvform_def)
  have "recognized (as_element y)" if "y \<in> set ys" for y
  proof -
    from that obtain i x where "value_of (zparse CVElement ([Key ''elements''] @ [Idx i]) (Some x)) = Some y"
      unfolding ys_def by (auto simp: set_map_filter_conv)
    then have "zparse CVElement ([Key ''elements''] @ [Idx i]) (Some x) = Inr (Some y)"
      by (cases "zparse CVElement ([Key ''elements''] @ [Idx i]) (Some x)") auto
    then show ?thesis by (rule cv_element_recognized)
  qed
  with el show ?thesis by (simp add: list_all_iff)
qed

lemma extract_logged:
  assumes "extractAndValidate schema raw = (log, c)"
  shows "(c = Returned None \<longrightarrow> log \<noteq> []) \<and> (\<forall>r. c = Returned (Some r) \<longrightarrow> log = [])"
  using assms
  by (auto simp: extractAndValidate_def zod_parse_def split: option.splits sum.splits
      dest: zparse_defined)

lemma chained_logged:
  assumes "chained_body schema gen = (log, c)"
  shows "(c = Returned None \<longrightarrow> log \<noteq> []) \<and> (\<forall>r. c = Returned (Some r) \<longrightarrow> log = [])"
  using assms extract_logged
  by (auto simp: chained_body_def split: generation.splits option.splits if_splits)

lemma checked_logged:
  assumes "checked_body schema gen = (log, c)"
  shows "(c = Returned None \<longrightarrow> log \<noteq> []) \<and> (\<forall>r. c = Returned (Some r) \<longrightarrow> log = [])"
  using assms extract_logged
  by (auto simp: checked_body_def split: generation.splits option.splits if_splits)

lemma catch_zod_logged:
  assumes "(c = Returned None \<longrightarrow> log \<noteq> []) \<and> (\<forall>r. c = Returned (Some r) \<longrightarrow> log = [])"
  shows "(snd (catch_zod (log, c)) = None \<longrightarrow> fst (catch_zod (log, c)) \<noteq> [])
       \<and> (snd (catch_zod (log, c)) \<noteq> None \<longrightarrow> fst (catch_zod (log, c)) = [])"
  using assms by (cases "(log, c)" rule: catch_zod.cases) auto

lemma catch_plain_logged:
  assumes "(c = Returned None \<longrightarrow> log \<noteq> []) \<and> (\<forall>r. c = Returned (Some r) \<longrightarrow> log = [])"
  shows "(snd (catch_plain (log, c)) = None \<longrightarrow> fst (catch_plain (log, c)) \<noteq> [])
       \<and> (snd (catch_plain (log, c)) \<noteq> None \<longrightarrow> fst (catch_plain (log, c)) = [])"
  using assms by (cases "(log, c)" rule: catch_plain.cases) auto

lemma functions_logged:
  assumes "f \<in> {checkCompliance, extractCook, generateUI, extractStructuredData}"
  shows "(snd (f gen) = None \<longrightarrow> fst (f gen) \<noteq> []) \<and> (snd (f gen) \<noteq> None \<longrightarrow> fst (f gen) = [])"
proof -
  have a: "\<And>schema. (snd (catch_zod (chained_body schema gen)) = None
        \<longrightarrow> fst (catch_zod (chained_body schema gen)) \<noteq> [])
      \<and> (snd (catch_zod (chained_body schema gen)) \<noteq> None
        \<longrightarrow> fst (catch_zod (chained_body schema gen)) = [])"
    using chained_logged catch_zod_logged by (metis surj_pair)
  have b: "\<And>schema. (snd (catch_zod (checked_body schema gen)) = None
        \<longrightarrow> fst (catch_zod (checked_body schema gen)) \<noteq> [])
      \<and> (snd (catch_zod (checked_body schema gen)) \<noteq> None
        \<longrightarrow> fst (catch_zod (checked_body schema gen)) = [])"
    using checked_logged catch_zod_logged by (metis surj_pair)
  have c: "\<And>schema. (snd (catch_plain (checked_body schema gen)) = None
        \<longrightarrow> fst (catch_plain (checked_body schema gen)) \<noteq> [])
      \<and> (snd (catch_plain (checked_body schema gen)) \<noteq> None
        \<longrightarrow> fst (catch_plain (checked_body schema gen)) = [])"
    using checked_logged catch_plain_logged by (metis surj_pair)
  from assms a b c show ?thesis
    by (auto simp: checkCompliance_def extractCook_def generateUI_def extractStructuredData_def)
qed

section \<open>The pipeline\<close>

lemma optional_text_text_response: "optional_text (Some (text_response raw)) = Some raw"
  by (simp add: optional_text_def first_part_def text_response_def)

lemma functions_rejected:
  assumes "f \<in> {checkCompliance, extractCook, generateUI, extractStructuredData}"
  shows "f (Rejects msg) = ([ProcessFailed (EndpointError msg)], None)"
  using assms
  by (auto simp: checkCompliance_def extractCook_def generateUI_def extractStructuredData_def
      chained_body_def checked_body_def)

lemma functions_no_text:
  assumes "f \<in> {checkCompliance, extractCook, generateUI, extractStructuredData}"
    and "optional_text response = None"
  shows "snd (f (Responds response)) = None"
  using assms
  by (auto simp: checkCompliance_def extractCook_def generateUI_def extractStructuredData_def
      chained_body_def checked_body_def optional_text_def split: option.splits)

lemma unwrap_zparse:
  "v \<noteq> JNull \<or> \<not> nullable t \<Longrightarrow> zparse t q (Some v) = zparse (unwrap t) q (Some v)"
  by (induction t) auto

lemma required_missing: "required t \<Longrightarrow> \<exists>c. zparse t q None = Inl [(q, c)]"
  by (induction t)
    (auto simp: zod_string_def zod_boolean_def zod_enum_def zod_literal_def)

lemma extract_violation:
  assumes "json_slice raw = Some d" "JSON_parse d = Some v" "zod_parse schema v = Inl iss"
  shows "extractAndValidate schema raw = ([], Thrown (ZodError iss))"
  using assms by (simp add: extractAndValidate_def)

lemma extract_accepted:
  assumes "json_slice raw = Some d" "JSON_parse d = Some v" "zod_parse schema v = Inr r"
  shows "extractAndValidate schema raw = ([], Returned r)"
  using assms by (simp add: extractAndValidate_def)

lemma json_slice_nonempty: "json_slice raw = Some d \<Longrightarrow> raw \<noteq> []"
  by (auto simp: json_slice_def)

lemma extract_result:
  "extractAndValidate schema raw = (log, Returned (Some r)) \<Longrightarrow> \<exists>v. zod_parse schema v = Inr (Some r)"
  by (auto simp: extractAndValidate_def split: option.splits sum.splits)

lemma generateUI_result:
  assumes "generateUI gen = (log, Some r)"
  shows "\<exists>v. zod_parse CVForm v = Inr (Some r)"
proof -
  obtain l c where b: "chained_body CVForm gen = (l, c)" by (cases "chained_body CVForm gen")
  with assms have "c = Returned (Some r)"
    by (cases "(l, c)" rule: catch_zod.cases) (auto simp: generateUI_def)
  with b obtain raw where "extractAndValidate CVForm raw = (l, Returned (Some r))"
    by (auto simp: chained_body_def split: generation.splits option.splits if_splits)
  then show ?thesis by (rule extract_result)
qed

section \<open>The field identifier\<close>

text \<open>Reading the code points of a text loses nothing of it.\<close>

lemma utf8_decode_bytes: "concat (map point_bytes (utf8_decode s)) = s"
proof (induction s rule: utf8_decode.induct)
  case 1
  show ?case by simp
next
  case (2 a s)
  show ?case
  proof (cases "(of_char a :: nat) < 0x80")
    case True
    with 2 show ?thesis by (simp add: utf8_encode_def)
  next
    case False
    with 2 show ?thesis
      by (auto split: list.splits)
  qed
qed

text \<open>On ASCII text, \<^verbatim>\<open>toLowerCase()\<close> changes the letters A to Z and nothing else.\<close>

lemma utf8_decode_ascii:
  "\<forall>c \<in> set s. (of_char c :: nat) < 128 \<Longrightarrow> utf8_decode s = map (\<lambda>c. Point (of_char c)) s"
  by (induction s) simp_all

lemma lower_in_ascii:
  "n < 128 \<Longrightarrow> lower_in lowercase_runs n = (if 65 \<le> n \<and> n \<le> 90 then n + 32 else n)"
  by (simp add: lowercase_runs_def)

lemma lowercase_mapping_ascii:
  "n < 128 \<Longrightarrow> lowercase_mapping n = [if 65 \<le> n \<and> n \<le> 90 then n + 32 else n]"
  using lower_in_ascii [of n] by (simp add: lowercase_mapping_def)

lemma lower_points_ascii:
  "\<forall>c \<in> set s. (of_char c :: nat) < 128 \<Longrightarrow>
   concat (map point_bytes (lower_points p (map (\<lambda>c. Point (of_char c)) s)))
     = map ascii_lowercase s"
proof (induction s arbitrary: p)
  case Nil
  show ?case by simp
next
  case (Cons c s)
  let ?n = "of_char c :: nat"
  from Cons.prems have n: "?n < 128" by simp
  from Cons.prems have rest: "\<forall>c \<in> set s. (of_char c :: nat) < 128" by simp
  have "point_bytes (Point (if 65 \<le> ?n \<and> ?n \<le> 90 then ?n + 32 else ?n)) = [ascii_lowercase c]"
    using n by (auto simp: utf8_encode_def ascii_lowercase_def Let_def)
  with n lowercase_mapping_ascii [OF n] Cons.IH [OF rest] show ?case by simp
qed

lemma toLowerCase_ascii:
  "\<forall>c \<in> set s. (of_char c :: nat) < 128 \<Longrightarrow> toLowerCase s = map ascii_lowercase s"
  by (simp add: toLowerCase_def utf8_decode_ascii lower_points_ascii)

text \<open>
  Replacing every run of white space by one hyphen is joining the pieces between the
  runs with hyphens.
\<close>

lemma pieces_nonempty: "pieces s \<noteq> []"
proof (induction s rule: pieces.induct)
  case 1
  show ?case by simp
next
  case (2 c cs)
  then show ?case by (auto split: option.splits list.splits)
qed

lemma join_with_Cons: "ps \<noteq> [] \<Longrightarrow> join_with sep (p # ps) = p @ sep @ join_with sep ps"
  by (cases ps) simp_all

lemma join_with_head: "join_with sep ((c # p) # ps) = c # join_with sep (p # ps)"
  by (cases ps) simp_all

lemma hyphenated_run:
  "drop_ws s = Some r \<Longrightarrow> hyphenated s = CHR ''-'' # hyphenated (trimStart r)"
proof (induction "length s" arbitrary: s r rule: less_induct)
  case less
  from less.prems obtain c cs where s: "s = c # cs"
    by (cases s) (auto simp: drop_ws_def js_whitespace_def)
  show ?case
  proof (cases "drop_ws r")
    case None
    then have "trimStart r = r" by (simp add: trimStart.simps [of r])
    with None less.prems s show ?thesis
      by (simp add: hyphenated_def join_with_Cons pieces_nonempty)
  next
    case (Some r')
    from less.prems drop_ws_length [of s r] have "length r < length s" by simp
    from less.hyps [OF this Some] have "hyphenated r = CHR ''-'' # hyphenated (trimStart r')" .
    moreover from Some have "trimStart r = trimStart r'" by (simp add: trimStart.simps [of r])
    moreover from less.prems Some s have "hyphenated s = hyphenated r"
      by (simp add: hyphenated_def)
    ultimately show ?thesis by simp
  qed
qed

lemma replace_ws_hyphenated: "replace_ws s = hyphenated s"
proof (induction s rule: replace_ws.induct)
  case 1
  show ?case by (simp add: hyphenated_def)
next
  case (2 c cs)
  show ?case
  proof (cases "drop_ws (c # cs)")
    case None
    obtain p ps where p: "pieces cs = p # ps"
      using pieces_nonempty [of cs] by (cases "pieces cs") auto
    from None 2 have "replace_ws cs = hyphenated cs" by simp
    with None p show ?thesis by (simp add: hyphenated_def join_with_head)
  next
    case (Some r)
    with 2 have "replace_ws (trimStart r) = hyphenated (trimStart r)" by simp
    with Some hyphenated_run [OF Some] show ?thesis by simp
  qed
qed

lemma control_markup_parts:
  \<open>control_markup e =
     control_start e
     @ (if truthy (el_label e) then '' id="'' @ field_id e @ ''"'' else [])
     @ control_end e\<close>
  by (simp add: control_markup_def control_start_def control_end_def)

lemma field_id_labelled:
  "el_label e = Some l \<Longrightarrow> l \<noteq> [] \<Longrightarrow> field_id e = derived_identifier (el_name e) l"
  by (simp add: field_id_def derived_identifier_def or_default_def replace_ws_hyphenated
      split: option.splits)

lemma render_input_html:
  "el_type e \<in> set input_types \<Longrightarrow>
   html (render_element s e) = html s @ (if inList s then [ul_close] else []) @ [field_markup e]"
  by (auto simp: render_element_def input_types_def emit_def close_list_def)

section \<open>The claims\<close>

text \<open>
  C1, as stated: every payload that is well-formed JSON and that the schema accepts is
  returned equal to the parsed payload, with nothing changed.  It fails on a payload
  with a key the schema does not declare: the schema's \<^verbatim>\<open>parse\<close> accepts the payload and
  returns it without that key.
\<close>

theorem C1_extra_key_is_dropped:
  \<open>JSON_parse ''{"is_violating":false,"category":null,"explanation_if_violating":null,"confidence":"high"}''
      = Some (JObject [(''is_violating'', JBool False), (''category'', JNull),
         (''explanation_if_violating'', JNull), (''confidence'', JString ''high'')])
   \<and> checkCompliance (response_with
      ''{"is_violating":false,"category":null,"explanation_if_violating":null,"confidence":"high"}'')
    = ([], Some (JObject [(''is_violating'', JBool False), (''category'', JNull),
         (''explanation_if_violating'', JNull)]))
   \<and> \<not> deep_eq
        (JObject [(''is_violating'', JBool False), (''category'', JNull),
           (''explanation_if_violating'', JNull)])
        (JObject [(''is_violating'', JBool False), (''category'', JNull),
           (''explanation_if_violating'', JNull), (''confidence'', JString ''high'')])\<close>
  by code_simp

text \<open>
  C1, amended.  For every payload \<open>d\<close> that parses to \<open>v\<close> and that the schema accepts,
  what the schema's \<^verbatim>\<open>parse\<close> returns is \<open>v\<close> without the keys the schema does not declare;
  when \<open>v\<close> has no such key, it is equal to \<open>v\<close> (as JSON values: the same keys with equal
  values).  The four functions return that value as it is, with nothing logged: the
  scripts themselves transform nothing.
\<close>

theorem C1_result_is_payload_without_undeclared_keys:
  assumes "JSON_parse d = Some v" and "zod_parse schema v = Inr r"
  shows "r = Some (strip_undeclared schema v)
       \<and> (only_declared schema v \<longrightarrow> deep_eq (strip_undeclared schema v) v)
       \<and> (\<forall>raw. json_slice raw = Some d \<longrightarrow> extractAndValidate schema raw = ([], Returned r))
       \<and> (\<forall>response raw. optional_text response = Some raw \<and> json_slice raw = Some d \<longrightarrow>
             (schema = ContentCompliance \<longrightarrow> checkCompliance (Responds response) = ([], r))
             \<and> (schema = CVForm \<longrightarrow> generateUI (Responds response) = ([], r)))
       \<and> (\<forall>response raw. optional_text response = Some raw \<and> json_slice (trim raw) = Some d \<longrightarrow>
             (schema = CookBook \<longrightarrow> extractCook (Responds response) = ([], r))
             \<and> (schema = GuideSteps \<longrightarrow> extractStructuredData (Responds response) = ([], r)))"
proof -
  from assms(2) obtain w where w: "r = Some w"
    unfolding zod_parse_def by (auto dest: zparse_defined)
  with assms(2) have s: "w = strip_undeclared schema v"
    unfolding zod_parse_def by (auto dest: zparse_strips)
  have e: "only_declared schema v \<longrightarrow> deep_eq (strip_undeclared schema v) v"
    using assms(2) w s zparse_deep_eq [of schema "[]" v w] by (simp add: zod_parse_def)
  have x: "\<forall>raw. json_slice raw = Some d \<longrightarrow> extractAndValidate schema raw = ([], Returned r)"
    using assms by (simp add: extract_accepted)
  have c: "\<forall>response raw. optional_text response = Some raw \<and> json_slice raw = Some d \<longrightarrow>
             (schema = ContentCompliance \<longrightarrow> checkCompliance (Responds response) = ([], r))
             \<and> (schema = CVForm \<longrightarrow> generateUI (Responds response) = ([], r))"
    using x json_slice_nonempty
    by (auto simp: checkCompliance_def generateUI_def chained_body_text)
  have k: "\<forall>response raw. optional_text response = Some raw \<and> json_slice (trim raw) = Some d \<longrightarrow>
             (schema = CookBook \<longrightarrow> extractCook (Responds response) = ([], r))
             \<and> (schema = GuideSteps \<longrightarrow> extractStructuredData (Responds response) = ([], r))"
    using x by (auto simp: extractCook_def extractStructuredData_def checked_body_text)
  from w s e x c k show ?thesis by blast
qed

theorem C1_result_is_payload_without_undeclared_keys_witness:
  \<open>JSON_parse ''{"name":"Eggs","timeToCook":"5 min","ingredients":["3 eggs","milk"]}''
     = Some (JObject [(''name'', JString ''Eggs''), (''timeToCook'', JString ''5 min''),
         (''ingredients'', JArray [JString ''3 eggs'', JString ''milk''])])
   \<and> zod_parse CookBook (JObject [(''name'', JString ''Eggs''), (''timeToCook'', JString ''5 min''),
         (''ingredients'', JArray [JString ''3 eggs'', JString ''milk''])])
     = Inr (Some (JObject [(''name'', JString ''Eggs''), (''timeToCook'', JString ''5 min''),
         (''ingredients'', JArray [JString ''3 eggs'', JString ''milk''])]))
   \<and> only_declared CookBook (JObject [(''name'', JString ''Eggs''), (''timeToCook'', JString ''5 min''),
         (''ingredients'', JArray [JString ''3 eggs'', JString ''milk''])])
   \<and> deep_eq
        (strip_undeclared CookBook (JObject [(''name'', JString ''Eggs''),
           (''timeToCook'', JString ''5 min''),
           (''ingredients'', JArray [JString ''3 eggs'', JString ''milk''])]))
        (JObject [(''name'', JString ''Eggs''), (''timeToCook'', JString ''5 min''),
           (''ingredients'', JArray [JString ''3 eggs'', JString ''milk''])])
   \<and> extractCook (Responds (Some (text_response
        '' {"name":"Eggs","timeToCook":"5 min","ingredients":["3 eggs","milk"]} '')))
     = ([], Some (JObject [(''name'', JString ''Eggs''), (''timeToCook'', JString ''5 min''),
         (''ingredients'', JArray [JString ''3 eggs'', JString ''milk''])]))\<close>
proof -
  let ?d = \<open>''{"name":"Eggs","timeToCook":"5 min","ingredients":["3 eggs","milk"]}''\<close>
  let ?v = "JObject [(''name'', JString ''Eggs''), (''timeToCook'', JString ''5 min''),
         (''ingredients'', JArray [JString ''3 eggs'', JString ''milk''])]"
  let ?raw = \<open>'' {"name":"Eggs","timeToCook":"5 min","ingredients":["3 eggs","milk"]} ''\<close>
  have a: "JSON_parse ?d = Some ?v" by code_simp
  have b: "zod_parse CookBook ?v = Inr (Some ?v)" by code_simp
  have c: "only_declared CookBook ?v" by code_simp
  have t: "json_slice (trim ?raw) = Some ?d" by code_simp
  have o: "optional_text (Some (text_response ?raw)) = Some ?raw"
    by (rule optional_text_text_response)
  note th = C1_result_is_payload_without_undeclared_keys [OF a b]
  from th c have "deep_eq (strip_undeclared CookBook ?v) ?v" by blast
  moreover from th o t have "extractCook (Responds (Some (text_response ?raw))) = ([], Some ?v)"
    by blast
  ultimately show ?thesis using a b c by blast
qed

text \<open>
  C2, as stated: for any raw text without a brace span the functions report that no
  JSON was found.  It fails on the empty text in \<open>checkCompliance\<close> and \<open>generateUI\<close>,
  whose test \<^verbatim>\<open>if (!text)\<close> takes an empty text for a missing one and reports that the
  model returned no text.
\<close>

theorem C2_empty_text_is_no_text:
  "no_json_span [] \<and> checkCompliance (response_with []) = ([NoText], None)
   \<and> checkCompliance (response_with []) \<noteq> ([NoJsonObject []], None)
   \<and> generateUI (response_with []) = ([NoText], None)"
  by (simp add: no_json_span_def checkCompliance_def generateUI_def chained_body_def
      response_with_def optional_text_text_response)

text \<open>
  C2, amended.  For any raw text with no opening brace, no closing brace, or whose
  first opening brace is not strictly before its last closing brace:
  \<open>checkCompliance\<close> and \<open>generateUI\<close>, when the text is not empty, and \<open>extractCook\<close> and
  \<open>extractStructuredData\<close>, for every text (they trim it first), log that no JSON
  object was found, with the text, and return no result; nothing is parsed, whatever
  the schema.
\<close>

theorem C2_no_json_found:
  assumes "optional_text response = Some raw" and "no_json_span raw"
  shows "(raw \<noteq> [] \<longrightarrow>
           checkCompliance (Responds response) = ([NoJsonObject raw], None)
           \<and> generateUI (Responds response) = ([NoJsonObject raw], None))
       \<and> extractCook (Responds response) = ([NoJsonObject (trim raw)], None)
       \<and> extractStructuredData (Responds response) = ([NoJsonObject (trim raw)], None)
       \<and> (\<forall>schema. extractAndValidate schema raw = ([NoJsonObject raw], Returned None))"
  using assms
  by (simp add: checkCompliance_def generateUI_def extractCook_def extractStructuredData_def
      chained_body_text checked_body_text extract_no_span no_json_span_trim)

theorem C2_no_json_found_witness:
  "optional_text (Some (text_response '' } no { '')) = Some '' } no { ''
   \<and> no_json_span '' } no { ''
   \<and> checkCompliance (Responds (Some (text_response '' } no { ''))) = ([NoJsonObject '' } no { ''], None)
   \<and> generateUI (Responds (Some (text_response '' } no { ''))) = ([NoJsonObject '' } no { ''], None)
   \<and> extractCook (Responds (Some (text_response '' } no { ''))) = ([NoJsonObject ''} no {''], None)
   \<and> extractStructuredData (Responds (Some (text_response '' } no { ''))) = ([NoJsonObject ''} no {''], None)"
proof -
  have a: "optional_text (Some (text_response '' } no { '')) = Some '' } no { ''"
    by (rule optional_text_text_response)
  have b: "no_json_span '' } no { ''"
    by (simp add: no_json_span_def)
  have c: "trim '' } no { '' = ''} no {''"
    by code_simp
  from C2_no_json_found [OF a b] a b c show ?thesis by simp
qed

text \<open>
  C3.  For every declared field \<open>k\<close> of an object schema, validated at any path \<open>p\<close>:
  when the field is required and missing, or holds a value of the wrong primitive
  type (\<^verbatim>\<open>null\<close> included, unless the field is nullable), or holds a string outside
  the field's enumeration, the validation of the
  object fails and its issues hold one for the path of the field, \<open>p @ [Key k]\<close>, with
  the reason (the type expected and the type received, or the value outside the
  enumeration).  Whatever issues the field's own validation raises, those of the
  elements of an array included, are among the issues of the object; the path of
  every issue starts with the path of the value validated.  The functions then
  log the \<^verbatim>\<open>ZodError\<close> with its issues and return no result.
\<close>

theorem C3_schema_violation_reported:
  assumes "(k, t) \<in> set sh"
  shows
   "(required t \<and> map_of fs k = None \<longrightarrow>
       (\<exists>iss c. zparse (ZObject sh) p (Some (JObject fs)) = Inl iss \<and> (p @ [Key k], c) \<in> set iss))
    \<and> (\<forall>v. map_of fs k = Some v \<and> (v \<noteq> JNull \<or> \<not> nullable t) \<and> unwrap t = ZString
          \<and> parsedType (Some v) \<noteq> TString \<longrightarrow>
       (\<exists>iss. zparse (ZObject sh) p (Some (JObject fs)) = Inl iss
          \<and> (p @ [Key k], invalid_type (ExpType TString) (parsedType (Some v))) \<in> set iss))
    \<and> (\<forall>v. map_of fs k = Some v \<and> (v \<noteq> JNull \<or> \<not> nullable t) \<and> unwrap t = ZBoolean
          \<and> parsedType (Some v) \<noteq> TBoolean \<longrightarrow>
       (\<exists>iss. zparse (ZObject sh) p (Some (JObject fs)) = Inl iss
          \<and> (p @ [Key k], invalid_type (ExpType TBoolean) (parsedType (Some v))) \<in> set iss))
    \<and> (\<forall>v vs. map_of fs k = Some v \<and> (v \<noteq> JNull \<or> \<not> nullable t) \<and> unwrap t = ZEnum vs
          \<and> parsedType (Some v) \<noteq> TString \<longrightarrow>
       (\<exists>iss. zparse (ZObject sh) p (Some (JObject fs)) = Inl iss
          \<and> (p @ [Key k], invalid_type (ExpOneOf vs) (parsedType (Some v))) \<in> set iss))
    \<and> (\<forall>s vs. map_of fs k = Some (JString s) \<and> unwrap t = ZEnum vs \<and> s \<notin> set vs \<longrightarrow>
       (\<exists>iss. zparse (ZObject sh) p (Some (JObject fs)) = Inl iss
          \<and> (p @ [Key k], invalid_enum_value vs s) \<in> set iss))
    \<and> (\<forall>isk. zparse t (p @ [Key k]) (map_of fs k) = Inl isk \<longrightarrow>
       (\<exists>iss. zparse (ZObject sh) p (Some (JObject fs)) = Inl iss \<and> set isk \<subseteq> set iss))
    \<and> (\<forall>xs i isi. unwrap t = ZArray el \<and> map_of fs k = Some (JArray xs) \<and> i < length xs
          \<and> zparse el (p @ [Key k] @ [Idx i]) (Some (xs ! i)) = Inl isi \<longrightarrow>
       (\<exists>iss. zparse (ZObject sh) p (Some (JObject fs)) = Inl iss \<and> set isi \<subseteq> set iss))
    \<and> (\<forall>v iss q c. zparse t0 p v = Inl iss \<and> (q, c) \<in> set iss \<longrightarrow> (\<exists>r. q = p @ r))
    \<and> (\<forall>raw d v iss. json_slice raw = Some d \<and> JSON_parse d = Some v
          \<and> zod_parse schema v = Inl iss \<longrightarrow>
         catch_zod (extractAndValidate schema raw)
           = ([ProcessFailed (ZodError iss), ZodIssues iss], None)
         \<and> catch_plain (extractAndValidate schema raw) = ([ProcessFailed (ZodError iss)], None))"
proof -
  note rep = field_issue_reported [OF assms, of p fs]
  have leaf: "\<exists>iss. zparse (ZObject sh) p (Some (JObject fs)) = Inl iss \<and> (p @ [Key k], c) \<in> set iss"
    if "zparse t (p @ [Key k]) (map_of fs k) = Inl [(p @ [Key k], c)]" for c
    using rep [OF that] by auto
  have 1: "required t \<and> map_of fs k = None \<longrightarrow>
       (\<exists>iss c. zparse (ZObject sh) p (Some (JObject fs)) = Inl iss \<and> (p @ [Key k], c) \<in> set iss)"
    using required_missing [of t "p @ [Key k]"] leaf by metis
  have 2: "\<forall>v. map_of fs k = Some v \<and> (v \<noteq> JNull \<or> \<not> nullable t) \<and> unwrap t = ZString
          \<and> parsedType (Some v) \<noteq> TString \<longrightarrow>
       (\<exists>iss. zparse (ZObject sh) p (Some (JObject fs)) = Inl iss
          \<and> (p @ [Key k], invalid_type (ExpType TString) (parsedType (Some v))) \<in> set iss)"
  proof (intro allI impI, elim conjE)
    fix v
    assume h: "map_of fs k = Some v" "v \<noteq> JNull \<or> \<not> nullable t" "unwrap t = ZString"
      "parsedType (Some v) \<noteq> TString"
    from h(4) have "zod_string (p @ [Key k]) (Some v)
        = Inl [(p @ [Key k], invalid_type (ExpType TString) (parsedType (Some v)))]"
      by (cases v) (simp_all add: zod_string_def)
    with h unwrap_zparse [of v t "p @ [Key k]"]
    show "\<exists>iss. zparse (ZObject sh) p (Some (JObject fs)) = Inl iss
          \<and> (p @ [Key k], invalid_type (ExpType TString) (parsedType (Some v))) \<in> set iss"
      by (intro leaf) simp
  qed
  have 3: "\<forall>v. map_of fs k = Some v \<and> (v \<noteq> JNull \<or> \<not> nullable t) \<and> unwrap t = ZBoolean
          \<and> parsedType (Some v) \<noteq> TBoolean \<longrightarrow>
       (\<exists>iss. zparse (ZObject sh) p (Some (JObject fs)) = Inl iss
          \<and> (p @ [Key k], invalid_type (ExpType TBoolean) (parsedType (Some v))) \<in> set iss)"
  proof (intro allI impI, elim conjE)
    fix v
    assume h: "map_of fs k = Some v" "v \<noteq> JNull \<or> \<not> nullable t" "unwrap t = ZBoolean"
      "parsedType (Some v) \<noteq> TBoolean"
    from h(4) have "zod_boolean (p @ [Key k]) (Some v)
        = Inl [(p @ [Key k], invalid_type (ExpType TBoolean) (parsedType (Some v)))]"
      by (cases v) (simp_all add: zod_boolean_def)
    with h unwrap_zparse [of v t "p @ [Key k]"]
    show "\<exists>iss. zparse (ZObject sh) p (Some (JObject fs)) = Inl iss
          \<and> (p @ [Key k], invalid_type (ExpType TBoolean) (parsedType (Some v))) \<in> set iss"
      by (intro leaf) simp
  qed
  have 4: "\<forall>v vs. map_of fs k = Some v \<and> (v \<noteq> JNull \<or> \<not> nullable t) \<and> unwrap t = ZEnum vs
          \<and> parsedType (Some v) \<noteq> TString \<longrightarrow>
       (\<exists>iss. zparse (ZObject sh) p (Some (JObject fs)) = Inl iss
          \<and> (p @ [Key k], invalid_type (ExpOneOf vs) (parsedType (Some v))) \<in> set iss)"
  proof (intro allI impI, elim conjE)
    fix v vs
    assume h: "map_of fs k = Some v" "v \<noteq> JNull \<or> \<not> nullable t" "unwrap t = ZEnum vs"
      "parsedType (Some v) \<noteq> TString"
    from h(4) have "zod_enum vs (p @ [Key k]) (Some v)
        = Inl [(p @ [Key k], invalid_type (ExpOneOf vs) (parsedType (Some v)))]"
      by (cases v) (simp_all add: zod_enum_def)
    with h unwrap_zparse [of v t "p @ [Key k]"]
    show "\<exists>iss. zparse (ZObject sh) p (Some (JObject fs)) = Inl iss
          \<and> (p @ [Key k], invalid_type (ExpOneOf vs) (parsedType (Some v))) \<in> set iss"
      by (intro leaf) simp
  qed
  have 5: "\<forall>s vs. map_of fs k = Some (JString s) \<and> unwrap t = ZEnum vs \<and> s \<notin> set vs \<longrightarrow>
       (\<exists>iss. zparse (ZObject sh) p (Some (JObject fs)) = Inl iss
          \<and> (p @ [Key k], invalid_enum_value vs s) \<in> set iss)"
  proof (intro allI impI, elim conjE)
    fix s vs
    assume h: "map_of fs k = Some (JString s)" "unwrap t = ZEnum vs" "s \<notin> set vs"
    from h(3) have "zod_enum vs (p @ [Key k]) (Some (JString s))
        = Inl [(p @ [Key k], invalid_enum_value vs s)]"
      by (simp add: zod_enum_def)
    with h unwrap_zparse [of "JString s" t "p @ [Key k]"]
    show "\<exists>iss. zparse (ZObject sh) p (Some (JObject fs)) = Inl iss
          \<and> (p @ [Key k], invalid_enum_value vs s) \<in> set iss"
      by (intro leaf) simp
  qed
  have 6: "\<forall>isk. zparse t (p @ [Key k]) (map_of fs k) = Inl isk \<longrightarrow>
       (\<exists>iss. zparse (ZObject sh) p (Some (JObject fs)) = Inl iss \<and> set isk \<subseteq> set iss)"
    using rep by blast
  have 7: "\<forall>xs i isi. unwrap t = ZArray el \<and> map_of fs k = Some (JArray xs) \<and> i < length xs
          \<and> zparse el (p @ [Key k] @ [Idx i]) (Some (xs ! i)) = Inl isi \<longrightarrow>
       (\<exists>iss. zparse (ZObject sh) p (Some (JObject fs)) = Inl iss \<and> set isi \<subseteq> set iss)"
  proof (intro allI impI, elim conjE)
    fix xs i isi
    assume h: "unwrap t = ZArray el" "map_of fs k = Some (JArray xs)" "i < length xs"
      "zparse el (p @ [Key k] @ [Idx i]) (Some (xs ! i)) = Inl isi"
    from item_issue_reported [of i xs el "p @ [Key k]" isi] h(3,4)
    obtain isk where a: "zparse (ZArray el) (p @ [Key k]) (Some (JArray xs)) = Inl isk"
      and b: "set isi \<subseteq> set isk" by auto
    from a h(1,2) unwrap_zparse [of "JArray xs" t "p @ [Key k]"]
    have "zparse t (p @ [Key k]) (map_of fs k) = Inl isk" by simp
    from rep [OF this] b
    show "\<exists>iss. zparse (ZObject sh) p (Some (JObject fs)) = Inl iss \<and> set isi \<subseteq> set iss"
      by blast
  qed
  have 8: "\<forall>v iss q c. zparse t0 p v = Inl iss \<and> (q, c) \<in> set iss \<longrightarrow> (\<exists>r. q = p @ r)"
    using issue_paths by blast
  have 9: "\<forall>raw d v iss. json_slice raw = Some d \<and> JSON_parse d = Some v
          \<and> zod_parse schema v = Inl iss \<longrightarrow>
         catch_zod (extractAndValidate schema raw)
           = ([ProcessFailed (ZodError iss), ZodIssues iss], None)
         \<and> catch_plain (extractAndValidate schema raw) = ([ProcessFailed (ZodError iss)], None)"
    by (auto simp: extract_violation)
  from 1 2 3 4 5 6 7 8 9 show ?thesis by blast
qed

theorem C3_schema_violation_reported_witness:
  \<open>(''category'', ZNullable (ZEnum [''violence'', ''sexual'', ''self_harm'']))
      \<in> set [(''is_violating'', ZBoolean),
              (''category'', ZNullable (ZEnum [''violence'', ''sexual'', ''self_harm''])),
              (''explanation_if_violating'', ZNullable ZString)]
   \<and> map_of [(''category'', JString ''spam''), (''explanation_if_violating'', JNull)]
        ''category'' = Some (JString ''spam'')
   \<and> ''spam'' \<notin> set [''violence'', ''sexual'', ''self_harm'']
   \<and> (\<exists>iss. zod_parse ContentCompliance
          (JObject [(''category'', JString ''spam''), (''explanation_if_violating'', JNull)])
            = Inl iss
        \<and> ([Key ''category''],
            invalid_enum_value [''violence'', ''sexual'', ''self_harm''] ''spam'') \<in> set iss)
   \<and> checkCompliance (response_with ''{"category":"spam","explanation_if_violating":null}'')
      = ([ProcessFailed (ZodError
            [([Key ''is_violating''], invalid_type (ExpType TBoolean) TUndefined),
             ([Key ''category''],
              invalid_enum_value [''violence'', ''sexual'', ''self_harm''] ''spam'')]),
          ZodIssues
            [([Key ''is_violating''], invalid_type (ExpType TBoolean) TUndefined),
             ([Key ''category''],
              invalid_enum_value [''violence'', ''sexual'', ''self_harm''] ''spam'')]],
         None)\<close>
proof -
  let ?t = "ZNullable (ZEnum [''violence'', ''sexual'', ''self_harm''])"
  let ?sh = "[(''is_violating'', ZBoolean), (''category'', ?t),
              (''explanation_if_violating'', ZNullable ZString)]"
  let ?fs = "[(''category'', JString ''spam''), (''explanation_if_violating'', JNull)]"
  have m: "(''category'', ?t) \<in> set ?sh" by simp
  have a: "map_of ?fs ''category'' = Some (JString ''spam'')"
    "unwrap ?t = ZEnum [''violence'', ''sexual'', ''self_harm'']"
    "''spam'' \<notin> set [''violence'', ''sexual'', ''self_harm'']"
    by simp_all
  from C3_schema_violation_reported [OF m, where fs = ?fs and p = "[]"] a
  have "\<exists>iss. zparse (ZObject ?sh) [] (Some (JObject ?fs)) = Inl iss
     \<and> ([] @ [Key ''category''],
         invalid_enum_value [''violence'', ''sexual'', ''self_harm''] ''spam'') \<in> set iss"
    by blast
  then have e: "\<exists>iss. zod_parse ContentCompliance (JObject ?fs) = Inl iss
        \<and> ([Key ''category''],
            invalid_enum_value [''violence'', ''sexual'', ''self_harm''] ''spam'') \<in> set iss"
    by (simp add: zod_parse_def ContentCompliance_def)
  have c: \<open>checkCompliance (response_with ''{"category":"spam","explanation_if_violating":null}'')
      = ([ProcessFailed (ZodError
            [([Key ''is_violating''], invalid_type (ExpType TBoolean) TUndefined),
             ([Key ''category''],
              invalid_enum_value [''violence'', ''sexual'', ''self_harm''] ''spam'')]),
          ZodIssues
            [([Key ''is_violating''], invalid_type (ExpType TBoolean) TUndefined),
             ([Key ''category''],
              invalid_enum_value [''violence'', ''sexual'', ''self_harm''] ''spam'')]],
         None)\<close>
    by code_simp
  from m a e c show ?thesis by blast
qed

text \<open>
  C4.  The candidate payload is the part of the raw text from its first opening brace
  to its last closing brace, both included: nothing before it holds an opening brace,
  nothing after it a closing one.  For the raw text of the specification's example,
  the candidate is the JSON object between the two sentences, and \<open>checkCompliance\<close>
  returns the compliance object, with nothing logged.
\<close>

theorem C4_candidate_is_brace_span:
  \<open>(json_slice raw = Some cand \<longrightarrow>
      (\<exists>pre post. raw = pre @ cand @ post \<and> CHR ''{'' \<notin> set pre \<and> CHR ''}'' \<notin> set post
         \<and> hd cand = CHR ''{'' \<and> last cand = CHR ''}''))
   \<and> json_slice ''Sure! {"is_violating":false,"category":null,"explanation_if_violating":null} Hope that helps.''
       = Some ''{"is_violating":false,"category":null,"explanation_if_violating":null}''
   \<and> checkCompliance (response_with
        ''Sure! {"is_violating":false,"category":null,"explanation_if_violating":null} Hope that helps.'')
       = ([], Some (JObject [(''is_violating'', JBool False), (''category'', JNull),
           (''explanation_if_violating'', JNull)]))\<close>
proof -
  have a: "json_slice raw = Some cand \<longrightarrow>
      (\<exists>pre post. raw = pre @ cand @ post \<and> CHR ''{'' \<notin> set pre \<and> CHR ''}'' \<notin> set post
         \<and> hd cand = CHR ''{'' \<and> last cand = CHR ''}'')"
    using json_slice_Some [of raw cand] by blast
  have b: \<open>json_slice ''Sure! {"is_violating":false,"category":null,"explanation_if_violating":null} Hope that helps.''
       = Some ''{"is_violating":false,"category":null,"explanation_if_violating":null}''\<close>
    by code_simp
  have c: \<open>checkCompliance (response_with
        ''Sure! {"is_violating":false,"category":null,"explanation_if_violating":null} Hope that helps.'')
       = ([], Some (JObject [(''is_violating'', JBool False), (''category'', JNull),
           (''explanation_if_violating'', JNull)]))\<close>
    by code_simp
  from a b c show ?thesis by blast
qed

theorem C4_candidate_is_brace_span_witness:
  \<open>json_slice ''ok {"a":{}} }x'' = Some ''{"a":{}} }''
   \<and> (\<exists>pre post. ''ok {"a":{}} }x'' = pre @ ''{"a":{}} }'' @ post
         \<and> CHR ''{'' \<notin> set pre \<and> CHR ''}'' \<notin> set post)\<close>
proof -
  have a: \<open>json_slice ''ok {"a":{}} }x'' = Some ''{"a":{}} }''\<close>
    by code_simp
  from C4_candidate_is_brace_span [of \<open>''ok {"a":{}} }x''\<close> \<open>''{"a":{}} }''\<close>] a
  show ?thesis by blast
qed

text \<open>
  C5, as stated: any element that is not a list item closes an open list.  It fails on
  an element of unrecognized type: the \<^verbatim>\<open>default\<close> branch of the \<^verbatim>\<open>switch\<close> leaves the
  flag as it is, so the list items before and after such an element share one list.
\<close>

theorem C5_unrecognized_element_leaves_list_open:
  \<open>\<not> is_item (plain ''divider'')
   \<and> html (render_run \<lparr>form_type = ''cv-form'', elements =
      [(plain ''bullet-list-item'')\<lparr>el_value := Some ''Go''\<rparr>,
       plain ''divider'',
       (plain ''bullet-list-item'')\<lparr>el_value := Some ''Rust''\<rparr>]\<rparr>)
   = [''<form class="cv-form">\<newline>'', ''  <ul>\<newline>'',
      ''    <li>Go</li>\<newline>'', ''    <li>Rust</li>\<newline>'', ''  </ul>\<newline>'',
      ''</form>\<newline>'']\<close>
  by (simp add: is_item_def render_run_def render_element_def plain_def emit_def close_list_def
      open_list_def input_types_def header_markup_def item_markup_def button_markup_def
      or_default_def truthy_def form_open_def form_close_def ul_open_def ul_close_def)

text \<open>
  C5, amended.  For every element sequence, the markup is the form tags around the
  markup of the groups of its recognized elements, in order: each maximal run of
  consecutive list items (elements of unrecognized type left aside) is one list
  container around its items, and every other recognized element is its own markup,
  so that a list is closed before the next recognized element that is not an item,
  and before the closing form tag.  The sequence of the specification's example
  yields a heading, one list of the two items, closed, then the submit control.
\<close>

theorem C5_items_grouped:
  \<open>html (render_run ui) =
      form_open # concat (map render_group (groups (filter recognized (elements ui))))
        @ [form_close]
   \<and> concat (map members (groups es)) = es
   \<and> list_all group_ok (groups es)
   \<and> separated (groups es)
   \<and> render_group (Inl bs) = ''  <ul>\<newline>'' # map item_markup bs @ [''  </ul>\<newline>'']
   \<and> html (render_run \<lparr>form_type = ''cv-form'', elements =
      [(plain ''section-header'')\<lparr>el_label := Some ''Skills''\<rparr>,
       (plain ''bullet-list-item'')\<lparr>el_value := Some ''Go''\<rparr>,
       (plain ''bullet-list-item'')\<lparr>el_value := Some ''Rust''\<rparr>,
       (plain ''submit-button'')\<lparr>el_label := Some ''Send''\<rparr>]\<rparr>)
     = [''<form class="cv-form">\<newline>'', ''  <h2>Skills</h2>\<newline>'', ''  <ul>\<newline>'',
        ''    <li>Go</li>\<newline>'', ''    <li>Rust</li>\<newline>'', ''  </ul>\<newline>'',
        ''  <button type="submit">Send</button>\<newline>'', ''</form>\<newline>'']\<close>
proof -
  have \<open>html (render_run \<lparr>form_type = ''cv-form'', elements =
      [(plain ''section-header'')\<lparr>el_label := Some ''Skills''\<rparr>,
       (plain ''bullet-list-item'')\<lparr>el_value := Some ''Go''\<rparr>,
       (plain ''bullet-list-item'')\<lparr>el_value := Some ''Rust''\<rparr>,
       (plain ''submit-button'')\<lparr>el_label := Some ''Send''\<rparr>]\<rparr>)
     = [''<form class="cv-form">\<newline>'', ''  <h2>Skills</h2>\<newline>'', ''  <ul>\<newline>'',
        ''    <li>Go</li>\<newline>'', ''    <li>Rust</li>\<newline>'', ''  </ul>\<newline>'',
        ''  <button type="submit">Send</button>\<newline>'', ''</form>\<newline>'']\<close>
    by (simp add: render_run_def render_element_def plain_def emit_def close_list_def
      open_list_def input_types_def header_markup_def item_markup_def button_markup_def
      or_default_def truthy_def form_open_def form_close_def ul_open_def ul_close_def)
  then show ?thesis
    using render_run_groups [of ui] groups_members [of es] groups_ok [of es]
      groups_separated [of es]
    by (simp add: ul_open_def ul_close_def)
qed

text \<open>
  C6.  A script whose credential is missing or empty exits with status 1 before the
  endpoint is called.  Otherwise, for each of the four functions and whatever the
  endpoint does, the script exits with status 0 and \<^verbatim>\<open>main\<close> receives what the function
  returned; no result is never silent: a rejected call, a response without text, a
  text without JSON, malformed JSON and a schema violation each end in a logged line
  and no result.  (The form script can exit with status 1 only after a result, when
  writing the file fails.)
\<close>

theorem C6_failures_end_in_no_result:
  assumes "f \<in> {checkCompliance, extractCook, generateUI, extractStructuredData}"
  shows "(\<not> truthy apiKey \<longrightarrow>
            script f apiKey gen =
              \<lparr>run_exit = 1, run_called = False, run_log = [ApiKeyMissing],
               run_result = None, run_file = None\<rparr>
            \<and> form_script apiKey gen write_ok = script f apiKey gen)
       \<and> (truthy apiKey \<longrightarrow>
            run_exit (script f apiKey gen) = 0
            \<and> run_result (script f apiKey gen) = snd (f gen)
            \<and> run_log (script f apiKey gen) = fst (f gen)
            \<and> (run_result (form_script apiKey gen write_ok) = None \<longrightarrow>
                 run_exit (form_script apiKey gen write_ok) = 0
                 \<and> run_log (form_script apiKey gen write_ok) \<noteq> []))
       \<and> (snd (f gen) = None \<longrightarrow> fst (f gen) \<noteq> [])
       \<and> f (Rejects msg) = ([ProcessFailed (EndpointError msg)], None)
       \<and> (optional_text response = None \<longrightarrow> snd (f (Responds response)) = None)
       \<and> (optional_text response = Some raw \<and> json_slice raw = Some d \<and> JSON_parse d = None
            \<longrightarrow> checkCompliance (Responds response) = ([ParseFailed d], None)
              \<and> generateUI (Responds response) = ([ParseFailed d], None))
       \<and> (optional_text response = Some raw \<and> json_slice (trim raw) = Some d
            \<and> JSON_parse d = None
            \<longrightarrow> extractCook (Responds response) = ([ParseFailed d], None)
              \<and> extractStructuredData (Responds response) = ([ParseFailed d], None))"
proof -
  have g: "(snd (generateUI gen) = None \<longrightarrow> fst (generateUI gen) \<noteq> [])"
    using functions_logged [of generateUI gen] by simp
  have a: "truthy apiKey \<longrightarrow> run_result (form_script apiKey gen write_ok) = None \<longrightarrow>
                 run_exit (form_script apiKey gen write_ok) = 0
                 \<and> run_log (form_script apiKey gen write_ok) \<noteq> []"
    using g by (cases "generateUI gen") (auto simp: form_script_def split: option.splits)
  have b: "optional_text response = Some raw \<and> json_slice raw = Some d \<and> JSON_parse d = None
            \<longrightarrow> checkCompliance (Responds response) = ([ParseFailed d], None)
              \<and> generateUI (Responds response) = ([ParseFailed d], None)"
  proof (intro impI, elim conjE)
    assume h: "optional_text response = Some raw" "json_slice raw = Some d" "JSON_parse d = None"
    from h(2) have "raw \<noteq> []" by (rule json_slice_nonempty)
    with h show "checkCompliance (Responds response) = ([ParseFailed d], None)
        \<and> generateUI (Responds response) = ([ParseFailed d], None)"
      by (simp add: checkCompliance_def generateUI_def chained_body_text extractAndValidate_def)
  qed
  have c: "optional_text response = Some raw \<and> json_slice (trim raw) = Some d
            \<and> JSON_parse d = None
            \<longrightarrow> extractCook (Responds response) = ([ParseFailed d], None)
              \<and> extractStructuredData (Responds response) = ([ParseFailed d], None)"
    by (simp add: extractCook_def extractStructuredData_def checked_body_text
        extractAndValidate_def)
  show ?thesis
    using functions_logged [OF assms, of gen] functions_rejected [OF assms, of msg]
      functions_no_text [OF assms, of response] a b c
    by (cases "f gen") (auto simp: script_def form_script_def)
qed

theorem C6_failures_end_in_no_result_witness:
  "checkCompliance \<in> {checkCompliance, extractCook, generateUI, extractStructuredData}
   \<and> truthy (Some ''key'') \<and> \<not> truthy None
   \<and> run_exit (script checkCompliance None (Rejects ''quota'')) = 1
   \<and> run_called (script checkCompliance None (Rejects ''quota'')) = False
   \<and> run_exit (script checkCompliance (Some ''key'') (Rejects ''quota'')) = 0
   \<and> run_result (script checkCompliance (Some ''key'') (Rejects ''quota'')) = None
   \<and> run_log (script checkCompliance (Some ''key'') (Rejects ''quota''))
       = [ProcessFailed (EndpointError ''quota'')]"
proof -
  have a: "checkCompliance \<in> {checkCompliance, extractCook, generateUI, extractStructuredData}"
    by simp
  have t: "truthy (Some ''key'')" "\<not> truthy None" by (simp_all add: truthy_def)
  from C6_failures_end_in_no_result [OF a, of None "Rejects ''quota''" True "''quota''" None "[]" "[]"]
    C6_failures_end_in_no_result [OF a, of "Some ''key''" "Rejects ''quota''" True "''quota''" None "[]" "[]"]
    t a
  show ?thesis by simp
qed

text \<open>
  C7, as stated: the identifier of every input field is its name when one is given.
  It fails on a field that has a name and no label: the \<^verbatim>\<open>for\<close> and \<^verbatim>\<open>id\<close> attributes
  are written under \<^verbatim>\<open>if (element.label)\<close> only, so the control gets no identifier at
  all.  And a name that is the empty string is given, yet \<^verbatim>\<open>||\<close> passes it over for the
  identifier derived from the label.
\<close>

theorem C7_named_field_without_label_has_no_id:
  \<open>convertToHTML \<lparr>form_type = ''cv-form'',
       elements = [(plain ''text-input'')\<lparr>el_name := Some ''email''\<rparr>]\<rparr>
     = ''<form class="cv-form">\<newline>  <div class="form-field">\<newline>''
       @ ''    <input type="text" name="email">\<newline>  </div>\<newline></form>\<newline>''
   \<and> convertToHTML \<lparr>form_type = ''cv-form'',
       elements = [(plain ''text-input'')\<lparr>el_label := Some ''Full Name'', el_name := Some []\<rparr>]\<rparr>
     = ''<form class="cv-form">\<newline>  <div class="form-field">\<newline>''
       @ ''    <label for="full-name">Full Name</label>\<newline>''
       @ ''    <input type="text" id="full-name">\<newline>  </div>\<newline></form>\<newline>''\<close>
proof -
  define e where "e = (plain ''text-input'')\<lparr>el_label := Some ''Full Name'', el_name := Some []\<rparr>"
  have "toLowerCase ''Full Name'' = map ascii_lowercase ''Full Name''"
    by (rule toLowerCase_ascii) simp
  also have "\<dots> = ''full name''" by code_simp
  finally have l: "toLowerCase ''Full Name'' = ''full name''" .
  have r: "replace_ws ''full name'' = ''full-name''" by code_simp
  have "field_id e = replace_ws (toLowerCase ''Full Name'')"
    by (simp add: field_id_def or_default_def e_def plain_def del: replace_ws.simps)
  then have i: "field_id e = ''full-name''" by (simp only: l r)
  have f: "el_type e = ''text-input''" "el_label e = Some ''Full Name''" "el_name e = Some []"
    "el_required e = None" "el_placeholder e = None"
    by (simp_all add: e_def plain_def)
  have m: \<open>field_markup e =
      ''  <div class="form-field">\<newline>    <label for="full-name">Full Name</label>\<newline>''
      @ ''    <input type="text" id="full-name">\<newline>  </div>\<newline>''\<close>
    by (simp add: field_markup_def label_markup_def control_markup_def truthy_def or_default_def
        f i)
  have \<open>convertToHTML \<lparr>form_type = ''cv-form'', elements = [e]\<rparr>
     = ''<form class="cv-form">\<newline>  <div class="form-field">\<newline>''
       @ ''    <label for="full-name">Full Name</label>\<newline>''
       @ ''    <input type="text" id="full-name">\<newline>  </div>\<newline></form>\<newline>''\<close>
    by (simp add: convertToHTML_def render_run_def render_element_def input_types_def emit_def
        close_list_def form_open_def form_close_def f m)
  moreover have \<open>convertToHTML \<lparr>form_type = ''cv-form'',
       elements = [(plain ''text-input'')\<lparr>el_name := Some ''email''\<rparr>]\<rparr>
     = ''<form class="cv-form">\<newline>  <div class="form-field">\<newline>''
       @ ''    <input type="text" name="email">\<newline>  </div>\<newline></form>\<newline>''\<close>
    by code_simp
  ultimately show ?thesis unfolding e_def by simp
qed

text \<open>
  C7, amended.  For every element of an input type, in every state: the renderer closes
  an open list and appends the field's markup, nothing else.  When the element has a
  non-empty label, the markup is the label element and the control, whose \<^verbatim>\<open>for\<close> and
  \<^verbatim>\<open>id\<close> hold the same identifier: the element's name when that is a non-empty string,
  and otherwise the label in lower case with its pieces between runs of white space
  joined by single hyphens.  When the element has no label or an empty one, the markup
  has neither a label element nor an \<^verbatim>\<open>id\<close> attribute, whatever its name.  On a label of
  ASCII characters, lower case changes the letters A to Z alone.
\<close>

theorem C7_identifier_of_labelled_field:
  assumes "el_type e \<in> set input_types"
  shows \<open>html (render_element s e)
       = html s @ (if inList s then [ul_close] else []) @ [field_markup e]
    \<and> (\<forall>l. el_label e = Some l \<and> l \<noteq> [] \<longrightarrow>
          field_markup e =
            ''  <div class="form-field">\<newline>''
            @ ''    <label for="'' @ derived_identifier (el_name e) l @ ''">'' @ l
            @ ''</label>\<newline>''
            @ control_start e @ '' id="'' @ derived_identifier (el_name e) l @ ''"''
            @ control_end e @ ''  </div>\<newline>'')
    \<and> (el_label e = None \<or> el_label e = Some [] \<longrightarrow>
          field_markup e =
            ''  <div class="form-field">\<newline>'' @ control_start e @ control_end e
            @ ''  </div>\<newline>'')
    \<and> (\<forall>l. (\<forall>c \<in> set l. (of_char c :: nat) < 128) \<longrightarrow>
          derived_identifier None l = hyphenated (map ascii_lowercase l))\<close>
proof (intro conjI allI impI)
  show "html (render_element s e)
      = html s @ (if inList s then [ul_close] else []) @ [field_markup e]"
    using assms by (rule render_input_html)
next
  fix l
  assume "el_label e = Some l \<and> l \<noteq> []"
  then have l: "el_label e = Some l" "l \<noteq> []" by simp_all
  from field_id_labelled [OF l]
  show \<open>field_markup e =
      ''  <div class="form-field">\<newline>''
      @ ''    <label for="'' @ derived_identifier (el_name e) l @ ''">'' @ l
      @ ''</label>\<newline>''
      @ control_start e @ '' id="'' @ derived_identifier (el_name e) l @ ''"''
      @ control_end e @ ''  </div>\<newline>''\<close>
    using l by (simp add: field_markup_def label_markup_def control_markup_parts truthy_def
        or_default_def)
next
  assume "el_label e = None \<or> el_label e = Some []"
  then show \<open>field_markup e =
      ''  <div class="form-field">\<newline>'' @ control_start e @ control_end e
      @ ''  </div>\<newline>''\<close>
    by (auto simp: field_markup_def label_markup_def control_markup_parts truthy_def)
next
  fix l :: string
  assume "\<forall>c \<in> set l. (of_char c :: nat) < 128"
  then show "derived_identifier None l = hyphenated (map ascii_lowercase l)"
    by (simp add: derived_identifier_def toLowerCase_ascii)
qed

theorem C7_identifier_of_labelled_field_witness:
  \<open>el_type ((plain ''text-input'')\<lparr>el_label := Some (CHR 0xC3 # CHR 0x89 # ''COLE  Name'')\<rparr>)
     \<in> set input_types
   \<and> html (render_element \<lparr>html = [form_open, ul_open], inList = True, warnings = []\<rparr>
        ((plain ''text-input'')\<lparr>el_label := Some (CHR 0xC3 # CHR 0x89 # ''COLE  Name'')\<rparr>))
     = [form_open, ul_open, ul_close,
        ''  <div class="form-field">\<newline>''
        @ ''    <label for="'' @ CHR 0xC3 # CHR 0xA9 # ''cole-name">''
        @ CHR 0xC3 # CHR 0x89 # ''COLE  Name</label>\<newline>''
        @ ''    <input type="text" id="'' @ CHR 0xC3 # CHR 0xA9 # ''cole-name">\<newline>''
        @ ''  </div>\<newline>'']
   \<and> field_markup ((plain ''textarea'')\<lparr>el_label :=
        Some [CHR 0xCE, CHR 0x9F, CHR 0xCE, CHR 0x94, CHR 0xCE, CHR 0x9F, CHR 0xCE, CHR 0xA3]\<rparr>)
     = ''  <div class="form-field">\<newline>''
       @ ''    <label for="''
       @ [CHR 0xCE, CHR 0xBF, CHR 0xCE, CHR 0xB4, CHR 0xCE, CHR 0xBF, CHR 0xCF, CHR 0x82] @ ''">''
       @ [CHR 0xCE, CHR 0x9F, CHR 0xCE, CHR 0x94, CHR 0xCE, CHR 0x9F, CHR 0xCE, CHR 0xA3]
       @ ''</label>\<newline>''
       @ ''    <textarea id="''
       @ [CHR 0xCE, CHR 0xBF, CHR 0xCE, CHR 0xB4, CHR 0xCE, CHR 0xBF, CHR 0xCF, CHR 0x82]
       @ ''"></textarea>\<newline>  </div>\<newline>''
   \<and> field_markup
        ((plain ''email-input'')\<lparr>el_label := Some ''E-mail'', el_name := Some ''mail''\<rparr>)
     = ''  <div class="form-field">\<newline>    <label for="mail">E-mail</label>\<newline>''
       @ ''    <input type="email" name="mail" id="mail">\<newline>  </div>\<newline>''
   \<and> field_markup ((plain ''text-input'')\<lparr>el_name := Some ''email''\<rparr>)
     = ''  <div class="form-field">\<newline>    <input type="text" name="email">\<newline>''
       @ ''  </div>\<newline>''
   \<and> derived_identifier None ''Full  Name'' = ''full-name''\<close>
proof -
  define l0 where "l0 = CHR 0xC3 # CHR 0x89 # ''COLE  Name''"
  define l1 where
    "l1 = [CHR 0xCE, CHR 0x9F, CHR 0xCE, CHR 0x94, CHR 0xCE, CHR 0x9F, CHR 0xCE, CHR 0xA3]"
  define e0 where "e0 = (plain ''text-input'')\<lparr>el_label := Some l0\<rparr>"
  define e1 where "e1 = (plain ''textarea'')\<lparr>el_label := Some l1\<rparr>"
  define e2 where
    "e2 = (plain ''email-input'')\<lparr>el_label := Some ''E-mail'', el_name := Some ''mail''\<rparr>"
  define e3 where "e3 = (plain ''text-input'')\<lparr>el_name := Some ''email''\<rparr>"
  define s0 where "s0 = \<lparr>html = [form_open, ul_open], inList = True, warnings = []\<rparr>"
  have ty: "el_type e0 \<in> set input_types" "el_type e1 \<in> set input_types"
    "el_type e2 \<in> set input_types" "el_type e3 \<in> set input_types"
    by (simp_all add: e0_def e1_def e2_def e3_def plain_def input_types_def)
  have lab: "el_label e0 = Some l0 \<and> l0 \<noteq> []" "el_label e1 = Some l1 \<and> l1 \<noteq> []"
    "el_label e2 = Some ''E-mail'' \<and> ''E-mail'' \<noteq> []" "el_label e3 = None \<or> el_label e3 = Some []"
    by (simp_all add: e0_def e1_def e2_def e3_def plain_def l0_def l1_def)
  have name: "el_name e0 = None" "el_name e1 = None" "el_name e2 = Some ''mail''"
    by (simp_all add: e0_def e1_def e2_def plain_def)
  have "toLowerCase l0 = CHR 0xC3 # CHR 0xA9 # ''cole  name''"
    unfolding l0_def
    by (simp add: toLowerCase_def utf8_encode_def point2_def char_of_def bit_0 bit_Suc
        lowercase_mapping_def lowercase_runs_def cased_def cased_ranges_def case_ignorable_def
        case_ignorable_ranges_def)
  moreover have "hyphenated (CHR 0xC3 # CHR 0xA9 # ''cole  name'')
      = CHR 0xC3 # CHR 0xA9 # ''cole-name''"
    by code_simp
  ultimately have i0: "derived_identifier None l0 = CHR 0xC3 # CHR 0xA9 # ''cole-name''"
    by (simp only: derived_identifier_def option.case)
  have "toLowerCase l1
      = [CHR 0xCE, CHR 0xBF, CHR 0xCE, CHR 0xB4, CHR 0xCE, CHR 0xBF, CHR 0xCF, CHR 0x82]"
    unfolding l1_def
    by (simp add: toLowerCase_def utf8_encode_def point2_def char_of_def bit_0 bit_Suc
        lowercase_mapping_def lowercase_runs_def cased_def cased_ranges_def case_ignorable_def
        case_ignorable_ranges_def)
  moreover have
    "hyphenated [CHR 0xCE, CHR 0xBF, CHR 0xCE, CHR 0xB4, CHR 0xCE, CHR 0xBF, CHR 0xCF, CHR 0x82]
      = [CHR 0xCE, CHR 0xBF, CHR 0xCE, CHR 0xB4, CHR 0xCE, CHR 0xBF, CHR 0xCF, CHR 0x82]"
    by code_simp
  ultimately have i1: "derived_identifier None l1
      = [CHR 0xCE, CHR 0xBF, CHR 0xCE, CHR 0xB4, CHR 0xCE, CHR 0xBF, CHR 0xCF, CHR 0x82]"
    by (simp only: derived_identifier_def option.case)
  have i2: "derived_identifier (Some ''mail'') ''E-mail'' = ''mail''"
    by (simp add: derived_identifier_def)
  have ascii: "\<forall>c \<in> set ''Full  Name''. (of_char c :: nat) < 128" by simp
  have h: "hyphenated (map ascii_lowercase ''Full  Name'') = ''full-name''" by code_simp
  have cs: \<open>control_start e0 = ''    <input type="text"''\<close> \<open>control_start e1 = ''    <textarea''\<close>
    \<open>control_start e2 = ''    <input type="email" name="mail"''\<close>
    \<open>control_start e3 = ''    <input type="text" name="email"''\<close>
    unfolding e0_def e1_def e2_def e3_def l0_def l1_def by code_simp+
  have ce: \<open>control_end e0 = ''>\<newline>''\<close> \<open>control_end e1 = ''></textarea>\<newline>''\<close>
    \<open>control_end e2 = ''>\<newline>''\<close> \<open>control_end e3 = ''>\<newline>''\<close>
    unfolding e0_def e1_def e2_def e3_def l0_def l1_def by code_simp+
  have s: "html s0 = [form_open, ul_open]" "inList s0" by (simp_all add: s0_def)
  note t0 = C7_identifier_of_labelled_field [OF ty(1), of s0]
  note t1 = C7_identifier_of_labelled_field [OF ty(2), of s0]
  note t2 = C7_identifier_of_labelled_field [OF ty(3), of s0]
  note t3 = C7_identifier_of_labelled_field [OF ty(4), of s0]
  from t0 lab(1) have m0: \<open>field_markup e0 =
      ''  <div class="form-field">\<newline>''
      @ ''    <label for="'' @ derived_identifier (el_name e0) l0 @ ''">'' @ l0
      @ ''</label>\<newline>''
      @ control_start e0 @ '' id="'' @ derived_identifier (el_name e0) l0 @ ''"''
      @ control_end e0 @ ''  </div>\<newline>''\<close>
    by blast
  from t0 have r0: "html (render_element s0 e0)
      = html s0 @ (if inList s0 then [ul_close] else []) @ [field_markup e0]"
    by blast
  from t1 lab(2) have m1: \<open>field_markup e1 =
      ''  <div class="form-field">\<newline>''
      @ ''    <label for="'' @ derived_identifier (el_name e1) l1 @ ''">'' @ l1
      @ ''</label>\<newline>''
      @ control_start e1 @ '' id="'' @ derived_identifier (el_name e1) l1 @ ''"''
      @ control_end e1 @ ''  </div>\<newline>''\<close>
    by blast
  from t2 lab(3) have m2: \<open>field_markup e2 =
      ''  <div class="form-field">\<newline>''
      @ ''    <label for="'' @ derived_identifier (el_name e2) ''E-mail'' @ ''">'' @ ''E-mail''
      @ ''</label>\<newline>''
      @ control_start e2 @ '' id="'' @ derived_identifier (el_name e2) ''E-mail'' @ ''"''
      @ control_end e2 @ ''  </div>\<newline>''\<close>
    by blast
  from t3 lab(4) have m3: \<open>field_markup e3 =
      ''  <div class="form-field">\<newline>'' @ control_start e3 @ control_end e3
      @ ''  </div>\<newline>''\<close>
    by blast
  from t0 ascii have a: "derived_identifier None ''Full  Name''
      = hyphenated (map ascii_lowercase ''Full  Name'')"
    by blast
  show ?thesis
    using ty(1) r0 m0 m1 m2 m3 a
    unfolding name i0 i1 i2 h cs ce s
    unfolding e0_def e1_def e2_def e3_def l0_def l1_def s0_def
    by simp
qed

text \<open>
  C8.  The markup depends on the element sequence only: two forms with the same
  elements yield the same string.  And the output keeps the order of the input: the
  strings appended, the list tags left aside, are the form tags around the markup of
  the recognized elements in the order of the sequence.
\<close>

theorem C8_deterministic_in_order:
  "(elements ui = elements ui' \<longrightarrow> convertToHTML ui = convertToHTML ui')
   \<and> filter (\<lambda>c. c \<noteq> ul_open \<and> c \<noteq> ul_close) (html (render_run ui))
       = form_open # map markup (filter recognized (elements ui)) @ [form_close]"
  using render_run_elements [of ui ui'] render_run_order [of ui]
  by (simp add: convertToHTML_def)

theorem C8_deterministic_in_order_witness:
  "elements \<lparr>form_type = ''cv-form'', elements = [plain ''submit-button'']\<rparr>
     = elements \<lparr>form_type = ''other'', elements = [plain ''submit-button'']\<rparr>
   \<and> convertToHTML \<lparr>form_type = ''cv-form'', elements = [plain ''submit-button'']\<rparr>
     = convertToHTML \<lparr>form_type = ''other'', elements = [plain ''submit-button'']\<rparr>"
  using C8_deterministic_in_order
    [of "\<lparr>form_type = ''cv-form'', elements = [plain ''submit-button'']\<rparr>"
        "\<lparr>form_type = ''other'', elements = [plain ''submit-button'']\<rparr>"]
  by simp

text \<open>
  C9.  An element of unrecognized type is skipped: the markup is that of the sequence
  without it, so everything before and after it is rendered, and one notice with its
  type is logged for it.  What \<open>generateUI\<close> returns holds recognized elements only, so
  rendering it logs no notice.
\<close>

theorem C9_unrecognized_element_skipped:
  "(\<not> recognized e \<longrightarrow>
      convertToHTML (ui\<lparr>elements := xs @ e # ys\<rparr>) = convertToHTML (ui\<lparr>elements := xs @ ys\<rparr>)
      \<and> warnings (render_run (ui\<lparr>elements := xs @ e # ys\<rparr>))
          = map notice (filter (\<lambda>x. \<not> recognized x) xs) @ notice e
              # map notice (filter (\<lambda>x. \<not> recognized x) ys))
   \<and> warnings (render_run ui) = map notice (filter (\<lambda>x. \<not> recognized x) (elements ui))
   \<and> (generateUI gen = (log, Some r) \<longrightarrow>
        list_all recognized (elements (as_cvform r)) \<and> warnings (render_run (as_cvform r)) = [])"
proof -
  have a: "\<not> recognized e \<longrightarrow>
      convertToHTML (ui\<lparr>elements := xs @ e # ys\<rparr>) = convertToHTML (ui\<lparr>elements := xs @ ys\<rparr>)"
    by (simp add: convertToHTML_def render_run_groups)
  have b: "\<not> recognized e \<longrightarrow> warnings (render_run (ui\<lparr>elements := xs @ e # ys\<rparr>))
          = map notice (filter (\<lambda>x. \<not> recognized x) xs) @ notice e
              # map notice (filter (\<lambda>x. \<not> recognized x) ys)"
    by (simp add: render_run_warnings)
  have c: "generateUI gen = (log, Some r) \<longrightarrow>
        list_all recognized (elements (as_cvform r)) \<and> warnings (render_run (as_cvform r)) = []"
  proof
    assume "generateUI gen = (log, Some r)"
    then obtain v where "zod_parse CVForm v = Inr (Some r)" by (blast dest: generateUI_result)
    then have "list_all recognized (elements (as_cvform r))" by (rule cv_form_recognized)
    moreover from this have "filter (\<lambda>x. \<not> recognized x) (elements (as_cvform r)) = []"
      by (simp add: list_all_iff filter_empty_conv)
    ultimately show "list_all recognized (elements (as_cvform r))
        \<and> warnings (render_run (as_cvform r)) = []"
      by (simp add: render_run_warnings)
  qed
  from a b c render_run_warnings [of ui] show ?thesis by blast
qed

theorem C9_unrecognized_element_skipped_witness:
  \<open>\<not> recognized (plain ''divider'')
   \<and> convertToHTML \<lparr>form_type = ''cv-form'', elements =
        [(plain ''section-header'')\<lparr>el_label := Some ''A''\<rparr>, plain ''divider'',
         (plain ''submit-button'')\<lparr>el_label := Some ''Send''\<rparr>]\<rparr>
     = convertToHTML \<lparr>form_type = ''cv-form'', elements =
        [(plain ''section-header'')\<lparr>el_label := Some ''A''\<rparr>,
         (plain ''submit-button'')\<lparr>el_label := Some ''Send''\<rparr>]\<rparr>
   \<and> warnings (render_run \<lparr>form_type = ''cv-form'', elements =
        [(plain ''section-header'')\<lparr>el_label := Some ''A''\<rparr>, plain ''divider'',
         (plain ''submit-button'')\<lparr>el_label := Some ''Send''\<rparr>]\<rparr>)
     = [''Unknown element type: divider'']
   \<and> generateUI (response_with
        ''{"type":"cv-form","elements":[{"type":"section-header","label":"Skills"}]}'')
     = ([], Some (JObject [(''type'', JString ''cv-form''), (''elements'',
          JArray [JObject [(''type'', JString ''section-header''), (''label'', JString ''Skills'')]])]))
   \<and> warnings (render_run (as_cvform (JObject [(''type'', JString ''cv-form''), (''elements'',
          JArray [JObject [(''type'', JString ''section-header''), (''label'', JString ''Skills'')]])])))
     = []\<close>
proof -
  let ?h = "(plain ''section-header'')\<lparr>el_label := Some ''A''\<rparr>"
  let ?b = "(plain ''submit-button'')\<lparr>el_label := Some ''Send''\<rparr>"
  let ?ui = "\<lparr>form_type = ''cv-form'', elements = []\<rparr>"
  let ?r = "JObject [(''type'', JString ''cv-form''), (''elements'',
          JArray [JObject [(''type'', JString ''section-header''), (''label'', JString ''Skills'')]])]"
  have n: "\<not> recognized (plain ''divider'')" "recognized ?h" "recognized ?b"
    by (simp_all add: recognized_def plain_def element_types_def)
  have g: \<open>generateUI (response_with
        ''{"type":"cv-form","elements":[{"type":"section-header","label":"Skills"}]}'')
     = ([], Some ?r)\<close>
    by code_simp
  note th = C9_unrecognized_element_skipped [where e = "plain ''divider''" and ui = ?ui
      and xs = "[?h]" and ys = "[?b]" and log = "[]" and r = ?r and gen =
      \<open>response_with ''{"type":"cv-form","elements":[{"type":"section-header","label":"Skills"}]}''\<close>]
  from th n g show ?thesis by (simp add: notice_def plain_def)
qed

text \<open>
  C10.  For every form, the empty one included, the returned markup starts with the
  opening form tag and ends with the closing one; and among the strings the renderer
  appended, the opening tag of a list occurs exactly as often as the closing tag: a
  list left open at the end of the sequence is closed before the form is.
\<close>

theorem convertToHTML_form_and_lists_closed:
  \<open>(\<exists>body. convertToHTML ui = ''<form class="cv-form">\<newline>'' @ body @ ''</form>\<newline>'')
   \<and> last (html (render_run ui)) = ''</form>\<newline>''
   \<and> count_list (html (render_run ui)) ''  <ul>\<newline>''
       = count_list (html (render_run ui)) ''  </ul>\<newline>''\<close>
proof -
  have "count_list (html (render_run ui)) ul_open = count_list (html (render_run ui)) ul_close"
    using count_groups_balanced [of "groups (filter recognized (elements ui))"] form_not_ul
    by (simp add: render_run_groups)
  moreover have "\<exists>body. convertToHTML ui = form_open @ body @ form_close"
    by (simp add: convertToHTML_def render_run_groups)
  moreover have "last (html (render_run ui)) = form_close"
    by (simp add: render_run_groups)
  ultimately show ?thesis
    by (simp add: form_open_def form_close_def ul_open_def ul_close_def)
qed

end
